(* ===== verification/Rust_Prelude.thy ===== *)
theory Rust_Prelude
  imports Main "HOL-Library.Word" "HOL-Library.Sublist"
begin

text \<open>
  The part of Rust and of its standard library that the router's code uses, shared by every
  component: machine integers at their width, saturating and checked arithmetic, durations,
  byte strings with the \<open>str\<close> operations (\<open>trim\<close>, \<open>to_ascii_lowercase\<close>,
  \<open>split\<close>, \<open>strip_prefix\<close>, decimal printing and parsing), and generic lemmas on
  lists that count elements under an update.

  A Rust \<open>String\<close> is its UTF-8 byte sequence, a \<open>char list\<close>: \<open>len\<close> counts
  bytes, as the source does.  An \<open>Instant\<close> and a \<open>Duration\<close> are natural numbers
  of nanoseconds.
\<close>

subsection \<open>Types\<close>

type_synonym u8 = "8 word"
type_synonym u32 = "32 word"
type_synonym u64 = "64 word"
type_synonym usize = "64 word"
type_synonym instant = nat
type_synonym duration = nat

named_theorems rust_simps \<open>characteristic equations of the standard-library operations\<close>
named_theorems count_simps \<open>counting elements of a list under an update\<close>

subsection \<open>Integers and durations\<close>

definition saturating_sub :: "u64 \<Rightarrow> u64 \<Rightarrow> u64" where
  "saturating_sub a b = (if a < b then 0 else a - b)"

definition checked_add_one :: "u64 \<Rightarrow> u64 option" where
  "checked_add_one a = (if unat a + 1 < 2 ^ 64 then Some (a + 1) else None)"

definition u64_of_nat_sat :: "nat \<Rightarrow> u64" where
  "u64_of_nat_sat n = (if n < 2 ^ 64 then of_nat n else - 1)"

definition dur_from_secs :: "u64 \<Rightarrow> duration" where
  "dur_from_secs s = unat s * 1000000000"

definition dur_from_millis :: "u64 \<Rightarrow> duration" where
  "dur_from_millis m = unat m * 1000000"

definition dur_as_millis :: "duration \<Rightarrow> nat" where
  "dur_as_millis d = d div 1000000"

definition elapsed :: "instant \<Rightarrow> instant \<Rightarrow> duration" where
  "elapsed now since = now - since"

subsection \<open>Byte strings\<close>

definition byte :: "char \<Rightarrow> nat" where
  "byte c = of_char c"

definition ascii_lower :: "char \<Rightarrow> char" where
  "ascii_lower c = (if 65 \<le> byte c \<and> byte c \<le> 90 then char_of (byte c + 32) else c)"

definition ascii_upper :: "char \<Rightarrow> char" where
  "ascii_upper c = (if 97 \<le> byte c \<and> byte c \<le> 122 then char_of (byte c - 32) else c)"

definition to_ascii_lowercase :: "string \<Rightarrow> string" where
  "to_ascii_lowercase s = map ascii_lower s"

definition to_ascii_uppercase :: "string \<Rightarrow> string" where
  "to_ascii_uppercase s = map ascii_upper s"

definition eq_ignore_ascii_case :: "string \<Rightarrow> string \<Rightarrow> bool" where
  "eq_ignore_ascii_case a b \<longleftrightarrow> to_ascii_lowercase a = to_ascii_lowercase b"

definition is_ascii_digit :: "char \<Rightarrow> bool" where
  "is_ascii_digit c \<longleftrightarrow> 48 \<le> byte c \<and> byte c \<le> 57"

definition is_ascii_alphanumeric :: "char \<Rightarrow> bool" where
  "is_ascii_alphanumeric c \<longleftrightarrow>
     is_ascii_digit c \<or> (65 \<le> byte c \<and> byte c \<le> 90) \<or> (97 \<le> byte c \<and> byte c \<le> 122)"

text \<open>
  The UTF-8 encodings of the characters with the Unicode property White\_Space, which
  \<open>str::trim\<close> removes.  UTF-8 is self-synchronising, so matching the byte sequences at
  either end of a well-formed string finds exactly those characters.
\<close>

definition white_space :: "string list" where
  "white_space =
     map (\<lambda>b. [char_of (b::nat)]) [9, 10, 11, 12, 13, 32]
     @ map (\<lambda>b. [char_of (0xC2::nat), char_of (b::nat)]) [0x85, 0xA0]
     @ [[char_of (0xE1::nat), char_of (0x9A::nat), char_of (0x80::nat)]]
     @ map (\<lambda>b. [char_of (0xE2::nat), char_of (0x80::nat), char_of (b::nat)])
         [0x80, 0x81, 0x82, 0x83, 0x84, 0x85, 0x86, 0x87, 0x88, 0x89, 0x8A, 0xA8, 0xA9, 0xAF]
     @ [[char_of (0xE2::nat), char_of (0x81::nat), char_of (0x9F::nat)],
        [char_of (0xE3::nat), char_of (0x80::nat), char_of (0x80::nat)]]"

fun strip_prefix :: "string \<Rightarrow> string \<Rightarrow> string option" where
  "strip_prefix [] s = Some s"
| "strip_prefix (p # ps) [] = None"
| "strip_prefix (p # ps) (c # cs) = (if p = c then strip_prefix ps cs else None)"

definition strip_suffix :: "string \<Rightarrow> string \<Rightarrow> string option" where
  "strip_suffix suf s = map_option rev (strip_prefix (rev suf) (rev s))"

fun strip_any :: "string list \<Rightarrow> string \<Rightarrow> string option" where
  "strip_any [] s = None"
| "strip_any (p # ps) s =
     (case strip_prefix p s of
        Some r \<Rightarrow> if p = [] then strip_any ps s else Some r
      | None \<Rightarrow> strip_any ps s)"

lemma strip_prefix_Some: "strip_prefix p s = Some r \<longleftrightarrow> s = p @ r"
  by (induction p s rule: strip_prefix.induct) auto

lemma strip_any_shorter: "strip_any ps s = Some r \<Longrightarrow> length r < length s"
  by (induction ps s rule: strip_any.induct)
    (auto split: option.splits if_splits simp: strip_prefix_Some)

function trim_by :: "string list \<Rightarrow> string \<Rightarrow> string" where
  "trim_by ws s = (case strip_any ws s of None \<Rightarrow> s | Some r \<Rightarrow> trim_by ws r)"
  by pat_completeness auto
termination
  by (relation "measure (\<lambda>(ws, s). length s)") (auto simp: strip_any_shorter)

declare trim_by.simps [simp del]

definition trim :: "string \<Rightarrow> string" where
  "trim s = rev (trim_by (map rev white_space) (rev (trim_by white_space s)))"

definition contains_char :: "char \<Rightarrow> string \<Rightarrow> bool" where
  "contains_char c s \<longleftrightarrow> c \<in> set s"

definition starts_with :: "string \<Rightarrow> string \<Rightarrow> bool" where
  "starts_with p s \<longleftrightarrow> strip_prefix p s \<noteq> None"

definition ends_with :: "string \<Rightarrow> string \<Rightarrow> bool" where
  "ends_with suf s \<longleftrightarrow> strip_suffix suf s \<noteq> None"

fun split_on :: "char \<Rightarrow> string \<Rightarrow> string list" where
  "split_on d [] = [[]]"
| "split_on d (c # cs) =
     (if c = d then [] # split_on d cs
      else (case split_on d cs of [] \<Rightarrow> [[c]] | p # ps \<Rightarrow> (c # p) # ps))"

definition replace_char :: "char \<Rightarrow> char \<Rightarrow> string \<Rightarrow> string" where
  "replace_char a b s = map (\<lambda>c. if c = a then b else c) s"

text \<open>\<open>slice::join\<close>: the pieces with the separator between them.\<close>

fun join_with :: "string \<Rightarrow> string list \<Rightarrow> string" where
  "join_with sep [] = []"
| "join_with sep [p] = p"
| "join_with sep (p # q # ps) = p @ sep @ join_with sep (q # ps)"

subsection \<open>Decimal numbers\<close>

definition digit :: "nat \<Rightarrow> char" where
  "digit n = char_of (48 + n)"

fun dec :: "nat \<Rightarrow> string" where
  "dec n = (if n < 10 then [digit n] else dec (n div 10) @ [digit (n mod 10)])"

declare dec.simps [simp del]

fun parse_dec :: "nat \<Rightarrow> string \<Rightarrow> nat option" where
  "parse_dec acc [] = Some acc"
| "parse_dec acc (c # cs) =
     (if is_ascii_digit c then parse_dec (10 * acc + (byte c - 48)) cs else None)"

text \<open>\<open>str::parse::<u64>\<close>: an optional plus sign, at least one digit, no overflow.\<close>

definition parse_u64 :: "string \<Rightarrow> u64 option" where
  "parse_u64 s =
     (let ds = (case s of c # cs \<Rightarrow> if c = CHR ''+'' then cs else s | [] \<Rightarrow> [])
      in if ds = [] then None
         else case parse_dec 0 ds of
                None \<Rightarrow> None
              | Some n \<Rightarrow> if n < 2 ^ 64 then Some (of_nat n) else None)"

definition u64_to_string :: "u64 \<Rightarrow> string" where
  "u64_to_string w = dec (unat w)"

subsection \<open>Lemmas on integers and durations\<close>

lemma unat_saturating_sub [rust_simps]: "unat (saturating_sub a b) = unat a - unat b"
  by (simp add: saturating_sub_def word_less_nat_alt unat_sub word_le_nat_alt)

lemma checked_add_one_Some [rust_simps]:
  "checked_add_one a = Some b \<longleftrightarrow> unat b = unat a + 1"
proof -
  have b: "unat b < 2 ^ 64" using unsigned_less [of b] by simp
  show ?thesis
  proof
    assume "checked_add_one a = Some b"
    then show "unat b = unat a + 1"
      by (auto simp: checked_add_one_def unat_word_ariths split: if_splits)
  next
    assume r: "unat b = unat a + 1"
    with b have lt: "unat a + 1 < 2 ^ 64" by simp
    then have "unat (a + 1) = unat b"
      using r by (simp add: unat_word_ariths)
    then show "checked_add_one a = Some b"
      using lt by (simp add: checked_add_one_def word_unat_eq_iff)
  qed
qed

lemma dur_millis_roundtrip [rust_simps]:
  "u64_of_nat_sat (dur_as_millis (dur_from_millis m)) = m"
  using unsigned_less [of m, where 'a = nat]
  by (simp add: u64_of_nat_sat_def dur_as_millis_def dur_from_millis_def)

subsection \<open>Lemmas on strings\<close>

lemma split_on_not_Nil [simp]: "split_on d s \<noteq> []"
  by (induction s) (auto split: list.splits)

lemma split_on_join: "join_with [d] (split_on d s) = s"
proof (induction s)
  case Nil
  then show ?case by simp
next
  case (Cons c cs)
  obtain p ps where ps: "split_on d cs = p # ps"
    using split_on_not_Nil by (cases "split_on d cs") auto
  with Cons show ?case by (cases ps) auto
qed

lemma split_on_pieces: "p \<in> set (split_on d s) \<Longrightarrow> d \<notin> set p"
proof (induction s arbitrary: p)
  case (Cons c cs)
  then show ?case
    by (cases "split_on d cs") (auto split: if_splits)
qed simp

lemma split_on_free: "d \<notin> set s \<Longrightarrow> split_on d s = [s]"
  by (induction s) auto

lemma split_on_append:
  "d \<notin> set p \<Longrightarrow> split_on d (p @ d # s) = p # split_on d s"
  by (induction p) auto

lemma strip_suffix_Some: "strip_suffix suf s = Some r \<longleftrightarrow> s = r @ suf"
  by (auto simp: strip_suffix_def strip_prefix_Some rev_eq_append_conv intro: exI [of _ "rev r"])

lemma starts_with_iff: "starts_with p s \<longleftrightarrow> (\<exists>r. s = p @ r)"
  by (cases "strip_prefix p s") (auto simp: starts_with_def strip_prefix_Some[symmetric])

lemma trim_by_idem: "trim_by ws (trim_by ws s) = trim_by ws s"
proof (induction ws s rule: trim_by.induct)
  case (1 ws s)
  show ?case
  proof (cases "strip_any ws s")
    case None
    then show ?thesis by (simp add: trim_by.simps [of ws s])
  next
    case (Some r)
    with 1 show ?thesis by (simp add: trim_by.simps [of ws s])
  qed
qed

lemma trim_by_suffix: "suffix (trim_by ws s) s"
proof (induction ws s rule: trim_by.induct)
  case (1 ws s)
  show ?case
  proof (cases "strip_any ws s")
    case None
    then show ?thesis by (simp add: trim_by.simps [of ws s])
  next
    case (Some r)
    then have "suffix r s"
      by (induction ws s rule: strip_any.induct)
        (auto split: option.splits if_splits simp: strip_prefix_Some suffix_def)
    with 1 Some show ?thesis
      by (simp add: trim_by.simps [of ws s])
  qed
qed

lemma ascii_lower_idem [simp]: "ascii_lower (ascii_lower c) = ascii_lower c"
  by (simp add: ascii_lower_def byte_def)

lemma to_ascii_lowercase_idem [simp]:
  "to_ascii_lowercase (to_ascii_lowercase s) = to_ascii_lowercase s"
  by (simp add: to_ascii_lowercase_def)

lemma length_to_ascii_lowercase [simp]: "length (to_ascii_lowercase s) = length s"
  by (simp add: to_ascii_lowercase_def)

subsection \<open>Decimal round trip\<close>

lemma byte_digit [simp]: "n < 10 \<Longrightarrow> byte (digit n) = 48 + n"
  by (simp add: byte_def digit_def)

lemma digit_0 [simp]: "digit 0 = CHR ''0''"
  by code_simp

lemma is_ascii_digit_digit [simp]: "n < 10 \<Longrightarrow> is_ascii_digit (digit n)"
  by (simp add: is_ascii_digit_def)

lemma parse_dec_append:
  "parse_dec acc (xs @ ys) =
     (case parse_dec acc xs of None \<Rightarrow> None | Some a \<Rightarrow> parse_dec a ys)"
  by (induction xs arbitrary: acc) auto

lemma dec_not_Nil [simp]: "dec n \<noteq> []"
  by (subst dec.simps) simp

lemma parse_dec_dec: "parse_dec 0 (dec n) = Some n"
proof (induction n rule: dec.induct)
  case (1 n)
  show ?case
  proof (cases "n < 10")
    case True
    then show ?thesis by (simp add: dec.simps [of n])
  next
    case False
    then show ?thesis
      using 1 by (simp add: dec.simps [of n] parse_dec_append)
  qed
qed

lemma dec_inj: "dec m = dec n \<Longrightarrow> m = n"
  by (metis option.inject parse_dec_dec)

lemma dec_digits: "c \<in> set (dec n) \<Longrightarrow> is_ascii_digit c"
proof (induction n rule: dec.induct)
  case (1 n)
  then show ?case
    by (cases "n < 10") (auto simp: dec.simps [of n])
qed

lemma parse_u64_to_string: "parse_u64 (u64_to_string w) = Some w"
proof -
  obtain c cs where d: "dec (unat w) = c # cs"
    by (cases "dec (unat w)") auto
  then have "is_ascii_digit c" using dec_digits [of c "unat w"] by simp
  then have "c \<noteq> CHR ''+''" by (auto simp: is_ascii_digit_def byte_def)
  moreover have "unat w < 2 ^ 64" using unsigned_less [of w] by simp
  ultimately show ?thesis
    using d parse_dec_dec [of "unat w"]
    by (simp add: parse_u64_def u64_to_string_def)
qed

lemma u64_to_string_inj: "u64_to_string a = u64_to_string b \<Longrightarrow> a = b"
  by (metis option.inject parse_u64_to_string)

subsection \<open>Counting list elements under an update\<close>

definition count_if :: "('a \<Rightarrow> bool) \<Rightarrow> 'a list \<Rightarrow> nat" where
  "count_if P xs = length (filter P xs)"

lemma count_if_Nil [simp, count_simps]: "count_if P [] = 0"
  by (simp add: count_if_def)

lemma count_if_Cons [simp]: "count_if P (x # xs) = (if P x then 1 else 0) + count_if P xs"
  by (simp add: count_if_def)

lemma count_if_append [simp, count_simps]: "count_if P (xs @ ys) = count_if P xs + count_if P ys"
  by (simp add: count_if_def)

lemma count_if_update [count_simps]:
  "i < length xs \<Longrightarrow>
   count_if P (xs[i := y]) + (if P (xs ! i) then 1 else 0)
     = count_if P xs + (if P y then 1 else 0)"
proof (induction xs arbitrary: i)
  case (Cons x xs)
  then show ?case by (cases i) auto
qed simp

lemma count_if_pos: "i < length xs \<Longrightarrow> P (xs ! i) \<Longrightarrow> 0 < count_if P xs"
  by (auto simp: count_if_def filter_empty_conv intro: nth_mem)

lemma count_if_mono: "(\<And>x. P x \<Longrightarrow> Q x) \<Longrightarrow> count_if P xs \<le> count_if Q xs"
  by (induction xs) auto

lemma count_if_disj:
  "(\<And>x. P x \<Longrightarrow> \<not> Q x) \<Longrightarrow>
   count_if (\<lambda>x. P x \<or> Q x) xs = count_if P xs + count_if Q xs"
  by (induction xs) auto

definition b2n :: "bool \<Rightarrow> nat" where "b2n b = (if b then 1 else 0)"

lemma count_if_move:
  "i < length xs \<Longrightarrow> count_if P (xs[i := y]) + b2n (P (xs ! i)) = count_if P xs + b2n (P y)"
  using count_if_update [of i xs P y] by (simp add: b2n_def)

lemma count_if_le_length: "count_if P xs \<le> length xs"
  by (simp add: count_if_def)

subsection \<open>The question mark operator\<close>

text \<open>
  An expression followed by \<open>?\<close> returns early with its error.  The second form threads a state
  that the callee may change before it fails.
\<close>

definition qmark :: "'e + 'a \<Rightarrow> ('a \<Rightarrow> 'e + 'b) \<Rightarrow> 'e + 'b" where
  "qmark m k = (case m of Inl e \<Rightarrow> Inl e | Inr x \<Rightarrow> k x)"

definition qmark_s :: "('e + 'a) \<times> 's \<Rightarrow> ('a \<Rightarrow> 's \<Rightarrow> ('e + 'b) \<times> 's) \<Rightarrow> ('e + 'b) \<times> 's" where
  "qmark_s m k = (case m of (Inl e, s) \<Rightarrow> (Inl e, s) | (Inr x, s) \<Rightarrow> k x s)"

lemma qmark_simps [simp]: "qmark (Inl e) k = Inl e" "qmark (Inr x) k = k x"
  by (simp_all add: qmark_def)

lemma qmark_s_simps [simp]: "qmark_s (Inl e, s) k = (Inl e, s)" "qmark_s (Inr x, s) k = k x s"
  by (simp_all add: qmark_s_def)

lemma qmark_Inr [rust_simps]: "qmark m k = Inr y \<longleftrightarrow> (\<exists>x. m = Inr x \<and> k x = Inr y)"
  by (cases m) auto

lemma qmark_s_Inr [rust_simps]:
  "qmark_s m k = (Inr y, s') \<longleftrightarrow> (\<exists>x s. m = (Inr x, s) \<and> k x s = (Inr y, s'))"
  by (auto simp: qmark_s_def split: prod.splits sum.splits)

lemma qmark_s_Inl [rust_simps]:
  "qmark_s m k = (Inl e, s') \<longleftrightarrow> m = (Inl e, s') \<or> (\<exists>x s. m = (Inr x, s) \<and> k x s = (Inl e, s'))"
  by (auto simp: qmark_s_def split: prod.splits sum.splits)

subsection \<open>Transition systems and their invariants\<close>

text \<open>
  The states a system reaches from its initial ones.  An invariant holds at the start and is kept
  by every step; the locale states that contract once, and each component interprets it on its own
  step relation.
\<close>

inductive reach :: "('s \<Rightarrow> bool) \<Rightarrow> ('s \<Rightarrow> 's \<Rightarrow> bool) \<Rightarrow> 's \<Rightarrow> bool" for init step where
  reach_init: "init s \<Longrightarrow> reach init step s"
| reach_step: "reach init step s \<Longrightarrow> step s s' \<Longrightarrow> reach init step s'"

lemma reach_steps: "reach init step s \<Longrightarrow> step\<^sup>*\<^sup>* s s' \<Longrightarrow> reach init step s'"
  by (rotate_tac, induction rule: rtranclp_induct) (auto intro: reach_step)

locale invariant_of =
  fixes init :: "'s \<Rightarrow> bool"
    and step :: "'s \<Rightarrow> 's \<Rightarrow> bool"
    and inv :: "'s \<Rightarrow> bool"
  assumes inv_init: "init s \<Longrightarrow> inv s"
    and inv_step: "step s s' \<Longrightarrow> inv s \<Longrightarrow> inv s'"
begin

lemma reach_inv: "reach init step s \<Longrightarrow> inv s"
  by (induction rule: reach.induct) (auto intro: inv_init inv_step)

lemma steps_inv: "step\<^sup>*\<^sup>* s s' \<Longrightarrow> inv s \<Longrightarrow> inv s'"
  by (induction rule: rtranclp_induct) (auto intro: inv_step)

end

end
