(* ===== verification/Bus_Contract.thy ===== *)
theory Bus_Contract
  imports Rust_Prelude "HOL-Library.Char_ord" "HOL-Library.List_Lexorder"
begin

text \<open>
  The wire contract of \<open>crates/tinyruntime-bus\<close>: the routing key, the settings and tuning a
  host sends with a request, what a provider describes, what the router answers, and the contract
  version rule.  Every struct is a record with its fields in the source's order (prefixed, since
  Isabelle's selectors are global), every enum a datatype; the builders and accessors follow their
  struct.  A \<open>BTreeMap<String, String>\<close> is a partial function on strings.
\<close>

subsection \<open>Languages\<close>

datatype language = Language (as_str: string)

definition NODEJS :: string where "NODEJS = ''nodejs''"
definition PYTHON :: string where "PYTHON = ''python''"

definition language_new :: "string \<Rightarrow> language" where
  "language_new s = Language (to_ascii_lowercase (trim s))"

definition language_nodejs :: language where "language_nodejs = Language NODEJS"
definition language_python :: language where "language_python = Language PYTHON"

definition language_is_empty :: "language \<Rightarrow> bool" where
  "language_is_empty l \<longleftrightarrow> as_str l = []"

text \<open>Decoding hands the received string to the constructor.\<close>

definition language_deserialize :: "string \<Rightarrow> language" where
  "language_deserialize s = language_new s"

instantiation language :: linorder
begin

definition less_eq_language :: "language \<Rightarrow> language \<Rightarrow> bool" where
  "less_eq_language a b \<longleftrightarrow> as_str a \<le> as_str b"

definition less_language :: "language \<Rightarrow> language \<Rightarrow> bool" where
  "less_language a b \<longleftrightarrow> as_str a < as_str b"

instance
  by standard (auto simp: less_eq_language_def less_language_def language.expand)

end

subsection \<open>Settings\<close>

record runtime_settings =
  rs_enabled :: bool
  rs_prefer_system :: bool
  rs_version :: string
  rs_maximum_version :: string
  rs_cache_dir :: string
  rs_release_tag :: string
  rs_preferred_command :: string

definition runtime_settings_new :: "string \<Rightarrow> runtime_settings" where
  "runtime_settings_new v =
     \<lparr>rs_enabled = True, rs_prefer_system = True, rs_version = v, rs_maximum_version = [],
      rs_cache_dir = [], rs_release_tag = [], rs_preferred_command = []\<rparr>"

definition non_empty :: "string \<Rightarrow> string option" where
  "non_empty v = (let trimmed = trim v in if trimmed = [] then None else Some trimmed)"

definition settings_cache_dir :: "runtime_settings \<Rightarrow> string option" where
  "settings_cache_dir s = non_empty (rs_cache_dir s)"

definition settings_release_tag :: "runtime_settings \<Rightarrow> string option" where
  "settings_release_tag s = non_empty (rs_release_tag s)"

definition settings_preferred_command :: "runtime_settings \<Rightarrow> string option" where
  "settings_preferred_command s = non_empty (rs_preferred_command s)"

definition settings_maximum_version :: "runtime_settings \<Rightarrow> string option" where
  "settings_maximum_version s = non_empty (rs_maximum_version s)"

subsection \<open>Pool tuning and counters\<close>

record pool_settings =
  ps_enabled :: bool
  ps_max_workers :: usize
  ps_idle_ttl_secs :: u64
  ps_recycle_after_jobs :: u64
  ps_max_queue_depth :: usize

definition effective_max_workers :: "pool_settings \<Rightarrow> usize" where
  "effective_max_workers s = max (ps_max_workers s) 1"

definition effective_max_queue_depth :: "pool_settings \<Rightarrow> usize" where
  "effective_max_queue_depth s = ps_max_queue_depth s"

definition idle_ttl_secs :: "pool_settings \<Rightarrow> u64 option" where
  "idle_ttl_secs s = (if ps_idle_ttl_secs s = 0 then None else Some (ps_idle_ttl_secs s))"

definition with_max_workers :: "usize \<Rightarrow> pool_settings \<Rightarrow> pool_settings" where
  "with_max_workers n s = s\<lparr>ps_max_workers := n\<rparr>"

definition with_idle_ttl_secs :: "u64 \<Rightarrow> pool_settings \<Rightarrow> pool_settings" where
  "with_idle_ttl_secs n s = s\<lparr>ps_idle_ttl_secs := n\<rparr>"

definition with_recycle_after_jobs :: "u64 \<Rightarrow> pool_settings \<Rightarrow> pool_settings" where
  "with_recycle_after_jobs n s = s\<lparr>ps_recycle_after_jobs := n\<rparr>"

definition with_max_queue_depth :: "usize \<Rightarrow> pool_settings \<Rightarrow> pool_settings" where
  "with_max_queue_depth n s = s\<lparr>ps_max_queue_depth := n\<rparr>"

definition with_enabled :: "bool \<Rightarrow> pool_settings \<Rightarrow> pool_settings" where
  "with_enabled b s = s\<lparr>ps_enabled := b\<rparr>"

definition pool_settings_default :: pool_settings where
  "pool_settings_default =
     \<lparr>ps_enabled = True, ps_max_workers = 2, ps_idle_ttl_secs = 300,
      ps_recycle_after_jobs = 100, ps_max_queue_depth = 256\<rparr>"

record pool_stats =
  st_language :: language
  st_jobs_total :: u64
  st_worker_spawns :: u64
  st_rejected_saturated :: u64
  st_idle_workers :: nat
  st_max_workers :: usize

definition pool_stats_new :: "language \<Rightarrow> usize \<Rightarrow> pool_stats" where
  "pool_stats_new l m =
     \<lparr>st_language = l, st_jobs_total = 0, st_worker_spawns = 0, st_rejected_saturated = 0,
      st_idle_workers = 0, st_max_workers = m\<rparr>"

definition with_counts :: "u64 \<Rightarrow> u64 \<Rightarrow> u64 \<Rightarrow> pool_stats \<Rightarrow> pool_stats" where
  "with_counts jobs spawns rejected s =
     s\<lparr>st_jobs_total := jobs, st_worker_spawns := spawns, st_rejected_saturated := rejected\<rparr>"

definition with_idle_workers :: "nat \<Rightarrow> pool_stats \<Rightarrow> pool_stats" where
  "with_idle_workers n s = s\<lparr>st_idle_workers := n\<rparr>"

subsection \<open>The contract version\<close>

definition CONTRACT_VERSION :: "u32 \<times> u32" where "CONTRACT_VERSION = (1, 4)"
definition PROVIDER_CONTRACT_VERSION :: "u32 \<times> u32" where "PROVIDER_CONTRACT_VERSION = (1, 0)"

definition binds :: "u32 \<times> u32 \<Rightarrow> u32 \<times> u32 \<Rightarrow> bool" where
  "binds local other =
     (case local of (local_major, local_minor) \<Rightarrow>
      case other of (other_major, other_minor) \<Rightarrow>
        other_major = local_major \<and> local_minor \<le> other_minor)"

definition is_compatible :: "u32 \<times> u32 \<Rightarrow> bool" where
  "is_compatible other = binds CONTRACT_VERSION other"

definition provider_is_compatible :: "u32 \<times> u32 \<Rightarrow> bool" where
  "provider_is_compatible other = binds PROVIDER_CONTRACT_VERSION other"

subsection \<open>Names\<close>

definition INTERFACE :: string where "INTERFACE = ''ai.tinyhumans.runtime.Runtime''"
definition OBJECT_PATH :: string where "OBJECT_PATH = ''/ai/tinyhumans/runtime/Runtime''"
definition PROVIDER_INTERFACE :: string where
  "PROVIDER_INTERFACE = ''ai.tinyhumans.runtime.Provider''"

definition object_path_for :: "string \<Rightarrow> string" where
  "object_path_for bus_name = CHR ''/'' # replace_char (CHR ''.'') (CHR ''/'') bus_name"

definition providers_NODEJS :: string where
  "providers_NODEJS = ''ai.tinyhumans.runtime.nodejs.Provider''"
definition providers_NODEJS_OBJECT_PATH :: string where
  "providers_NODEJS_OBJECT_PATH = ''/ai/tinyhumans/runtime/nodejs/Provider''"
definition providers_PYTHON :: string where
  "providers_PYTHON = ''ai.tinyhumans.runtime.python.Provider''"
definition providers_PYTHON_OBJECT_PATH :: string where
  "providers_PYTHON_OBJECT_PATH = ''/ai/tinyhumans/runtime/python/Provider''"

subsection \<open>What a provider describes\<close>

datatype archive_format = TarGz | TarXz | Zip

fun extension :: "archive_format \<Rightarrow> string" where
  "extension TarGz = ''tar.gz''"
| "extension TarXz = ''tar.xz''"
| "extension Zip = ''zip''"

record distribution =
  d_version :: string
  d_archive_name :: string
  d_url :: string
  d_expected_sha256 :: "string option"
  d_format :: archive_format
  d_install_dir_name :: string
  d_headers :: "(string \<times> string) list"

definition distribution_new :: "string \<Rightarrow> string \<Rightarrow> string \<Rightarrow> archive_format \<Rightarrow> distribution" where
  "distribution_new version archive_name url format =
     \<lparr>d_version = version, d_archive_name = archive_name, d_url = url, d_expected_sha256 = None,
      d_format = format,
      d_install_dir_name =
        (case strip_suffix (CHR ''.'' # extension format) archive_name of
           Some stem \<Rightarrow> stem | None \<Rightarrow> archive_name),
      d_headers = []\<rparr>"

definition with_sha256 :: "string \<Rightarrow> distribution \<Rightarrow> distribution" where
  "with_sha256 digest d = d\<lparr>d_expected_sha256 := Some digest\<rparr>"

definition with_install_dir_name :: "string \<Rightarrow> distribution \<Rightarrow> distribution" where
  "with_install_dir_name name d = d\<lparr>d_install_dir_name := name\<rparr>"

definition with_header :: "string \<Rightarrow> string \<Rightarrow> distribution \<Rightarrow> distribution" where
  "with_header name v d = d\<lparr>d_headers := d_headers d @ [(name, v)]\<rparr>"

record runtime_layout =
  rl_version :: string
  rl_bin_dir :: string
  rl_executables :: "string \<rightharpoonup> string"

definition runtime_layout_new :: "string \<Rightarrow> string \<Rightarrow> runtime_layout" where
  "runtime_layout_new v b = \<lparr>rl_version = v, rl_bin_dir = b, rl_executables = Map.empty\<rparr>"

definition layout_with_executable :: "string \<Rightarrow> string \<Rightarrow> runtime_layout \<Rightarrow> runtime_layout" where
  "layout_with_executable name path l = l\<lparr>rl_executables := (rl_executables l)(name \<mapsto> path)\<rparr>"

definition layout_executable :: "runtime_layout \<Rightarrow> string \<Rightarrow> string option" where
  "layout_executable l name = rl_executables l name"

datatype provider_capability = PrepareEnvironment | UnknownCapability

record provider_descriptor =
  pd_language :: language
  pd_display_name :: string
  pd_default_version :: string
  pd_contract_version :: "u32 \<times> u32"
  pd_executables :: "string list"
  pd_capabilities :: "provider_capability list"

definition provider_descriptor_new :: "language \<Rightarrow> string \<Rightarrow> string \<Rightarrow> provider_descriptor" where
  "provider_descriptor_new l name v =
     \<lparr>pd_language = l, pd_display_name = name, pd_default_version = v,
      pd_contract_version = CONTRACT_VERSION, pd_executables = [], pd_capabilities = []\<rparr>"

definition descriptor_with_executable :: "string \<Rightarrow> provider_descriptor \<Rightarrow> provider_descriptor" where
  "descriptor_with_executable name d = d\<lparr>pd_executables := pd_executables d @ [name]\<rparr>"

definition with_capability ::
  "provider_capability \<Rightarrow> provider_descriptor \<Rightarrow> provider_descriptor" where
  "with_capability c d =
     (if c \<in> set (pd_capabilities d) then d
      else d\<lparr>pd_capabilities := pd_capabilities d @ [c]\<rparr>)"

subsection \<open>Harnesses\<close>

definition WORKER_PROTOCOL_VERSION :: u32 where "WORKER_PROTOCOL_VERSION = 1"

record worker_harness =
  wh_filename :: string
  wh_source :: string
  wh_args_before_script :: "string list"
  wh_args_after_script :: "string list"
  wh_env :: "(string \<times> string) list"
  wh_protocol_version :: u32
  wh_executable :: string

definition worker_harness_new :: "string \<Rightarrow> string \<Rightarrow> string \<Rightarrow> worker_harness" where
  "worker_harness_new filename source executable =
     \<lparr>wh_filename = filename, wh_source = source, wh_args_before_script = [],
      wh_args_after_script = [], wh_env = [], wh_protocol_version = WORKER_PROTOCOL_VERSION,
      wh_executable = executable\<rparr>"

definition with_flag :: "string \<Rightarrow> worker_harness \<Rightarrow> worker_harness" where
  "with_flag flag h = h\<lparr>wh_args_before_script := wh_args_before_script h @ [flag]\<rparr>"

definition with_env :: "string \<Rightarrow> string \<Rightarrow> worker_harness \<Rightarrow> worker_harness" where
  "with_env name v h = h\<lparr>wh_env := wh_env h @ [(name, v)]\<rparr>"

definition command_args :: "worker_harness \<Rightarrow> string \<Rightarrow> string list" where
  "command_args h script_path = wh_args_before_script h @ [script_path] @ wh_args_after_script h"

subsection \<open>Resolution\<close>

datatype runtime_source = System | Managed

record resolve_request =
  rq_language :: language
  rq_settings :: runtime_settings
  rq_install :: bool

definition resolve_request_new :: "language \<Rightarrow> runtime_settings \<Rightarrow> resolve_request" where
  "resolve_request_new l s = \<lparr>rq_language = l, rq_settings = s, rq_install = True\<rparr>"

definition resolve_request_probe :: "language \<Rightarrow> runtime_settings \<Rightarrow> resolve_request" where
  "resolve_request_probe l s = \<lparr>rq_language = l, rq_settings = s, rq_install = False\<rparr>"

record resolved_runtime =
  rr_language :: language
  rr_version :: string
  rr_source :: runtime_source
  rr_bin_dir :: string
  rr_executables :: "string \<rightharpoonup> string"
  rr_install_dir :: "string option"

definition from_layout :: "language \<Rightarrow> runtime_source \<Rightarrow> runtime_layout \<Rightarrow> resolved_runtime" where
  "from_layout l source layout =
     \<lparr>rr_language = l, rr_version = rl_version layout, rr_source = source,
      rr_bin_dir = rl_bin_dir layout, rr_executables = rl_executables layout,
      rr_install_dir = None\<rparr>"

definition with_install_dir :: "string \<Rightarrow> resolved_runtime \<Rightarrow> resolved_runtime" where
  "with_install_dir dir r = r\<lparr>rr_install_dir := Some dir\<rparr>"

definition resolved_executable :: "resolved_runtime \<Rightarrow> string \<Rightarrow> string option" where
  "resolved_executable r name = rr_executables r name"

record language_status =
  ls_language :: language
  ls_bus_name :: string
  ls_available :: bool
  ls_display_name :: "string option"
  ls_detail :: "string option"

text \<open>
  The source filters an empty detail out of \<open>Some(String::new())\<close>, which always leaves none.
\<close>

definition status_available :: "language \<Rightarrow> string \<Rightarrow> string \<Rightarrow> language_status" where
  "status_available l bus name =
     \<lparr>ls_language = l, ls_bus_name = bus, ls_available = True, ls_display_name = Some name,
      ls_detail = (if ([]::string) \<noteq> [] then Some [] else None)\<rparr>"

definition status_unavailable :: "language \<Rightarrow> string \<Rightarrow> string \<Rightarrow> language_status" where
  "status_unavailable l bus detail =
     \<lparr>ls_language = l, ls_bus_name = bus, ls_available = False, ls_display_name = None,
      ls_detail = Some detail\<rparr>"

definition with_display_name :: "string \<Rightarrow> language_status \<Rightarrow> language_status" where
  "with_display_name name s = s\<lparr>ls_display_name := Some name\<rparr>"

subsection \<open>Execution\<close>

record exec_request =
  xr_language :: language
  xr_settings :: runtime_settings
  xr_pool :: pool_settings
  xr_code :: string
  xr_cwd :: "string option"
  xr_timeout_ms :: "u64 option"

definition exec_request_new :: "language \<Rightarrow> runtime_settings \<Rightarrow> string \<Rightarrow> exec_request" where
  "exec_request_new l s code =
     \<lparr>xr_language = l, xr_settings = s, xr_pool = pool_settings_default, xr_code = code,
      xr_cwd = None, xr_timeout_ms = None\<rparr>"

definition with_cwd :: "string \<Rightarrow> exec_request \<Rightarrow> exec_request" where
  "with_cwd cwd r = r\<lparr>xr_cwd := Some cwd\<rparr>"

definition with_timeout_ms :: "u64 \<Rightarrow> exec_request \<Rightarrow> exec_request" where
  "with_timeout_ms t r = r\<lparr>xr_timeout_ms := Some t\<rparr>"

record exec_response =
  xo_stdout :: string
  xo_stderr :: string
  xo_exit_code :: "32 word option"
  xo_timed_out :: bool
  xo_elapsed_ms :: u64
  xo_queue_wait_ms :: u64
  xo_runtime_version :: string

definition exec_response_new ::
  "string \<Rightarrow> string \<Rightarrow> 32 word option \<Rightarrow> string \<Rightarrow> exec_response" where
  "exec_response_new stdout stderr exit_code version =
     \<lparr>xo_stdout = stdout, xo_stderr = stderr, xo_exit_code = exit_code, xo_timed_out = False,
      xo_elapsed_ms = 0, xo_queue_wait_ms = 0, xo_runtime_version = version\<rparr>"

definition success :: "exec_response \<Rightarrow> bool" where
  "success r \<longleftrightarrow>
     \<not> xo_timed_out r \<and> (case xo_exit_code r of None \<Rightarrow> True | Some c \<Rightarrow> c = 0)"

definition with_timings :: "u64 \<Rightarrow> u64 \<Rightarrow> exec_response \<Rightarrow> exec_response" where
  "with_timings el qw r = r\<lparr>xo_elapsed_ms := el, xo_queue_wait_ms := qw\<rparr>"

definition with_timed_out :: "bool \<Rightarrow> exec_response \<Rightarrow> exec_response" where
  "with_timed_out b r = r\<lparr>xo_timed_out := b\<rparr>"

subsection \<open>Facts the components use\<close>

lemma effective_max_workers_pos [simp]: "0 < unat (effective_max_workers s)"
proof -
  have "effective_max_workers s \<noteq> 0"
    by (auto simp: effective_max_workers_def max_def)
  then show ?thesis by (simp add: unat_gt_0)
qed

lemma idle_ttl_secs_Some [simp]:
  "idle_ttl_secs s = Some t \<longleftrightarrow> ps_idle_ttl_secs s = t \<and> t \<noteq> 0"
  by (auto simp: idle_ttl_secs_def)

lemma distribution_install_dir_name:
  "d_install_dir_name (distribution_new v (stem @ CHR ''.'' # extension f) url f) = stem"
proof -
  have "strip_suffix (CHR ''.'' # extension f) (stem @ CHR ''.'' # extension f) = Some stem"
    by (simp add: strip_suffix_Some)
  then show ?thesis by (simp add: distribution_new_def)
qed

end
