(* ===== verification/Router_Error.thy ===== *)
theory Router_Error
  imports Bus_Contract
begin

text \<open>
  The crate-wide error type of \<open>crates/tinyruntime/src/error\<close>: one constructor per variant, its
  rendering, and the classification a host acts on.  A fallible operation returns
  \<open>error + 'a\<close>, the error on the left.
\<close>

datatype error =
    CacheScope string
  | UnknownLanguage language
  | ProviderUnavailable language string
  | ProviderContract language u32 u32
  | LanguageDisabled language
  | LanguageMissing
  | NotProvisioned language
  | Download language string
  | DigestMismatch language
  | Install language string
  | EmptyInstall language
  | PoolSaturated language
  | PreDispatch language string
  | PostDispatch language string
  | Storage string

type_synonym 'a result = "error + 'a"

definition is_retryable :: "error \<Rightarrow> bool" where
  "is_retryable e =
     (case e of
        PoolSaturated _ \<Rightarrow> True
      | PreDispatch _ _ \<Rightarrow> True
      | Download _ _ \<Rightarrow> True
      | ProviderUnavailable _ _ \<Rightarrow> True
      | _ \<Rightarrow> False)"

text \<open>The rendering a host shows, from the \<open>#[error(...)]\<close> attributes.\<close>

definition tick :: "language \<Rightarrow> string" where
  "tick l = CHR 0x60 # as_str l @ [CHR 0x60]"

fun error_to_string :: "error \<Rightarrow> string" where
  "error_to_string (CacheScope r) = ''cache scope configuration invalid: '' @ r"
| "error_to_string (UnknownLanguage l) = ''no runtime provider is registered for '' @ tick l"
| "error_to_string (ProviderUnavailable l r) =
     ''the '' @ tick l @ '' runtime provider is not available: '' @ r"
| "error_to_string (ProviderContract l major minor) =
     ''the '' @ tick l @ '' runtime provider speaks contract '' @ dec (unat major) @ ''.''
       @ dec (unat minor) @ '', which this build cannot bind to''"
| "error_to_string (LanguageDisabled l) = ''the '' @ tick l @ '' runtime is disabled''"
| "error_to_string LanguageMissing = ''the request named no language''"
| "error_to_string (NotProvisioned l) =
     ''no '' @ tick l @ '' runtime is provisioned and this request did not allow installing one''"
| "error_to_string (Download l r) =
     ''downloading the '' @ tick l @ '' toolchain failed: '' @ r"
| "error_to_string (DigestMismatch l) =
     ''the downloaded '' @ tick l @ '' archive did not match its published digest''"
| "error_to_string (Install l r) = ''installing the '' @ tick l @ '' toolchain failed: '' @ r"
| "error_to_string (EmptyInstall l) =
     ''the '' @ tick l @ '' toolchain installed but no interpreter was found in it''"
| "error_to_string (PoolSaturated l) = ''the '' @ tick l @ '' runtime pool is at capacity''"
| "error_to_string (PreDispatch l r) =
     ''the '' @ tick l @ '' job could not be dispatched: '' @ r"
| "error_to_string (PostDispatch l r) = ''the '' @ tick l @ '' job failed after dispatch: '' @ r"
| "error_to_string (Storage r) = ''a runtime cache path could not be used: '' @ r"

end
