(* ===== verification/Pool_Worker.thy ===== *)
theory Pool_Worker
  imports Router_Error
begin

text \<open>
  One warm interpreter child: \<open>crates/tinyruntime/src/pool/\<close> \<open>protocol.rs\<close>,
  \<open>spawner.rs\<close>, \<open>env.rs\<close> and \<open>worker.rs\<close>.  What the operating system, the socket
  and the JSON codec answer is an argument: a \<open>spawn_env\<close> holds the answers one
  \<open>Worker::spawn\<close> gets, a \<open>submit_env\<close> those one \<open>Worker::submit\<close> gets, and the
  codec is a pair of functions.  A protocol stream is the list of what it delivers, each item with
  the instant it becomes readable; the end of the list means nothing more ever arrives.
\<close>

subsection \<open>Protocol frames\<close>

record handshake =
  hs_ready :: bool
  hs_protocol :: "u32 option"
  hs_language :: "string option"
  hs_error :: "string option"
  hs_token :: "string option"

record job_request =
  jr_id :: string
  jr_code :: string
  jr_cwd :: "string option"
  jr_timeout_ms :: "u64 option"

record job_response =
  jo_id :: "string option"
  jo_ok :: bool
  jo_stdout :: string
  jo_stderr :: string
  jo_exit_code :: "32 word option"
  jo_timed_out :: bool
  jo_elapsed_ms :: u64
  jo_error :: "string option"

subsection \<open>The spawner seam\<close>

record spawn_spec =
  sp_program :: string
  sp_args :: "string list"
  sp_env :: "(string \<times> string) list"
  sp_clear_env :: bool

datatype spawn_refused = SpawnRefused string

definition refused_to_string :: "spawn_refused \<Rightarrow> string" where
  "refused_to_string r =
     (case r of SpawnRefused why \<Rightarrow> ''the spawner refused to start the process: '' @ why)"

record spawner =
  spawner_id :: string
  spawner_confine :: "spawn_spec \<Rightarrow> spawn_refused + spawn_spec"

definition confine :: "spawner option \<Rightarrow> spawn_spec \<Rightarrow> spawn_refused + spawn_spec" where
  "confine sp spec = (case sp of Some s \<Rightarrow> spawner_confine s spec | None \<Rightarrow> Inr spec)"

text \<open>
  The command a spec describes, as the program, its arguments and the environment the child gets:
  the inherited one unless it is cleared, then each pair in order, a later one winning.
\<close>

record command =
  cmd_program :: string
  cmd_args :: "string list"
  cmd_env :: "string \<rightharpoonup> string"

definition to_command :: "(string \<rightharpoonup> string) \<Rightarrow> spawn_spec \<Rightarrow> command" where
  "to_command inherited spec =
     \<lparr>cmd_program = sp_program spec, cmd_args = sp_args spec,
      cmd_env = foldl (\<lambda>m (k, v). m(k \<mapsto> v))
                  (if sp_clear_env spec then Map.empty else inherited) (sp_env spec)\<rparr>"

subsection \<open>The allow-listed environment\<close>

definition INHERITED :: "string list" where
  "INHERITED =
     [''HOME'', ''TERM'', ''LANG'', ''LC_ALL'', ''LC_CTYPE'', ''USER'', ''SHELL'', ''TMPDIR'',
      ''SystemRoot'', ''WINDIR'', ''COMSPEC'', ''PATHEXT'', ''TEMP'', ''TMP'', ''USERPROFILE'',
      ''APPDATA'', ''LOCALAPPDATA'', ''ProgramFiles'', ''ProgramFiles(x86)'', ''ProgramW6432'']"

definition env_build ::
  "(string \<rightharpoonup> string) \<Rightarrow> string \<Rightarrow> (string \<times> string) list \<Rightarrow> (string \<times> string) list" where
  "env_build host bin_dir extra =
     (let inherited_path = (case host ''PATH'' of Some p \<Rightarrow> p | None \<Rightarrow> []);
          path = (if inherited_path = [] then bin_dir else bin_dir @ '':'' @ inherited_path)
      in (''PATH'', path)
         # List.map_filter (\<lambda>name. map_option (Pair name) (host name)) INHERITED
         @ extra)"

subsection \<open>Launches\<close>

definition DEFAULT_HANDSHAKE_TIMEOUT :: duration where
  "DEFAULT_HANDSHAKE_TIMEOUT = dur_from_secs 30"

record launch =
  la_language :: language
  la_binary :: string
  la_args :: "string list"
  la_env :: "(string \<times> string) list"
  la_protocol_version :: u32
  la_handshake_timeout :: duration
  la_spawner :: "spawner option"

definition launch_with_spawner :: "spawner \<Rightarrow> launch \<Rightarrow> launch" where
  "launch_with_spawner s l = l\<lparr>la_spawner := Some s\<rparr>"

text \<open>
  \<open>{:?}\<close> of a string depends on the Unicode tables of the standard library, so the rendering of
  one string is an argument; that of a vector and of a pair is written out.
\<close>

definition debug_list :: "('a \<Rightarrow> string) \<Rightarrow> 'a list \<Rightarrow> string" where
  "debug_list dbg xs = ''['' @ join_with '', '' (map dbg xs) @ '']''"

definition debug_pair :: "(string \<Rightarrow> string) \<Rightarrow> string \<times> string \<Rightarrow> string" where
  "debug_pair dbg kv = ''('' @ dbg (fst kv) @ '', '' @ dbg (snd kv) @ '')''"

definition launch_fingerprint :: "(string \<Rightarrow> string) \<Rightarrow> launch \<Rightarrow> string" where
  "launch_fingerprint dbg l =
     as_str (la_language l) @ ''|'' @ la_binary l @ ''|'' @ debug_list dbg (la_args l) @ ''|''
       @ debug_list (debug_pair dbg) (la_env l) @ ''|'' @ dec (unat (la_protocol_version l))
       @ ''|spawner=''
       @ (case la_spawner l of None \<Rightarrow> ''direct'' | Some s \<Rightarrow> spawner_id s)"

subsection \<open>Workers\<close>

record submit_failure =
  sf_reason :: string
  sf_dispatched :: bool

definition failure_pre :: "string \<Rightarrow> submit_failure" where
  "failure_pre r = \<lparr>sf_reason = r, sf_dispatched = False\<rparr>"

definition failure_post :: "string \<Rightarrow> submit_failure" where
  "failure_post r = \<lparr>sf_reason = r, sf_dispatched = True\<rparr>"

text \<open>The child is its process identifier; the streams are arguments of the operations.\<close>

record worker =
  wk_language :: language
  wk_child :: nat
  wk_jobs_done :: u64
  wk_last_used :: instant

text \<open>What \<open>try_wait\<close> answers for a child.\<close>

datatype wait_answer = StillRunning | Exited | WaitFailed

definition has_exited :: "(nat \<Rightarrow> wait_answer) \<Rightarrow> worker \<Rightarrow> bool" where
  "has_exited try_wait w =
     (case try_wait (wk_child w) of Exited \<Rightarrow> True | WaitFailed \<Rightarrow> True | StillRunning \<Rightarrow> False)"

definition should_recycle :: "u64 \<Rightarrow> worker \<Rightarrow> bool" where
  "should_recycle budget w \<longleftrightarrow> 0 < budget \<and> budget \<le> wk_jobs_done w"

definition idle_expired :: "instant \<Rightarrow> duration \<Rightarrow> worker \<Rightarrow> bool" where
  "idle_expired now ttl w \<longleftrightarrow> ttl \<le> elapsed now (wk_last_used w)"

subsection \<open>The handshake\<close>

datatype read_answer = ReadTimeout | ReadError string | ReadEof | ReadLine string
datatype accept_answer = AcceptTimeout | AcceptError string | Accepted

fun read_handshake :: "(string \<Rightarrow> string + handshake) \<Rightarrow> read_answer \<Rightarrow> string + handshake" where
  "read_handshake parse (ReadLine line) =
     (case parse line of
        Inl e \<Rightarrow> Inl (''the worker's handshake could not be read: '' @ e)
      | Inr h \<Rightarrow> Inr h)"
| "read_handshake parse ReadEof = Inl ''the worker exited before its handshake''"
| "read_handshake parse (ReadError e) = Inl (''the worker's handshake could not be read: '' @ e)"
| "read_handshake parse ReadTimeout = Inl ''the worker's handshake timed out''"

definition verify_handshake :: "handshake \<Rightarrow> launch \<Rightarrow> string \<Rightarrow> string + unit" where
  "verify_handshake h l token =
     (if \<not> hs_ready h then
        Inl (''the worker failed to start: ''
             @ (case hs_error h of Some e \<Rightarrow> e | None \<Rightarrow> ''no reason given''))
      else if hs_token h \<noteq> Some token then
        Inl ''the worker did not present the secret it was given''
      else case hs_protocol h of
             Some version \<Rightarrow>
               if version = la_protocol_version l then Inr ()
               else Inl (''the worker speaks protocol '' @ dec (unat version) @ '', not ''
                         @ dec (unat (la_protocol_version l)))
           | None \<Rightarrow> Inl ''the worker did not say which protocol it speaks'')"

text \<open>
  The answers one spawn gets: the listener, its address, the fresh secret, the host's start of the
  confined spec (a process identifier or an error), the connection, the handshake line, and the
  clock when the worker is ready.
\<close>

record spawn_env =
  se_bind :: "string option"
  se_local_addr :: "string + string"
  se_token :: string
  se_start :: "spawn_spec \<Rightarrow> string + nat"
  se_accept :: accept_answer
  se_handshake :: read_answer
  se_now :: instant

definition worker_spec :: "launch \<Rightarrow> string \<Rightarrow> string \<Rightarrow> spawn_spec" where
  "worker_spec l address token =
     \<lparr>sp_program = la_binary l, sp_args = la_args l,
      sp_env = la_env l @ [(''TINYRUNTIME_PROTOCOL_ADDR'', address),
                           (''TINYRUNTIME_PROTOCOL_TOKEN'', token)],
      sp_clear_env = True\<rparr>"

text \<open>The second component is the spec a process was started from, if one was.\<close>

definition worker_spawn ::
  "(string \<Rightarrow> string + handshake) \<Rightarrow> launch \<Rightarrow> spawn_env \<Rightarrow>
   (string + worker) \<times> spawn_spec option" where
  "worker_spawn parse l env =
     (case se_bind env of
        Some e \<Rightarrow> (Inl (''the protocol listener could not be opened: '' @ e), None)
      | None \<Rightarrow>
      case se_local_addr env of
        Inl e \<Rightarrow> (Inl (''the worker protocol address could not be read: '' @ e), None)
      | Inr address \<Rightarrow>
      case confine (la_spawner l) (worker_spec l address (se_token env)) of
        Inl r \<Rightarrow> (Inl (''the worker could not be started: '' @ refused_to_string r), None)
      | Inr spec \<Rightarrow>
      case se_start env spec of
        Inl e \<Rightarrow> (Inl (''the worker could not be started: '' @ e), None)
      | Inr child \<Rightarrow>
      case se_accept env of
        AcceptTimeout \<Rightarrow> (Inl ''the worker did not connect back in time'', Some spec)
      | AcceptError e \<Rightarrow> (Inl (''the worker connection was refused: '' @ e), Some spec)
      | Accepted \<Rightarrow>
      case read_handshake parse (se_handshake env) of
        Inl e \<Rightarrow> (Inl e, Some spec)
      | Inr h \<Rightarrow>
      case verify_handshake h l (se_token env) of
        Inl e \<Rightarrow> (Inl e, Some spec)
      | Inr _ \<Rightarrow>
        (Inr \<lparr>wk_language = la_language l, wk_child = child, wk_jobs_done = 0,
              wk_last_used = se_now env\<rparr>, Some spec))"

subsection \<open>Submitting a job\<close>

datatype stream_event = LineAt instant string | EofAt instant | ErrorAt instant string

fun event_time :: "stream_event \<Rightarrow> instant" where
  "event_time (LineAt t _) = t"
| "event_time (EofAt t) = t"
| "event_time (ErrorAt t _) = t"

definition read_failed :: "string \<Rightarrow> string" where
  "read_failed e = ''the worker's reply could not be read: '' @ e"

definition past :: "instant option \<Rightarrow> instant \<Rightarrow> bool" where
  "past deadline t = (case deadline of Some at \<Rightarrow> at \<le> t | None \<Rightarrow> False)"

text \<open>
  The read loop.  An event's time is the instant it becomes readable, and the deadline is the instant
  the loop finds nothing to read and its time over: tokio's \<open>timeout_at\<close> polls the read before the timer,
  so what is readable by then is taken, however late that poll is.  \<open>None\<close> is a call that never
  returns, which needs a stream that falls silent and no deadline.
\<close>

fun await_response ::
  "(string \<Rightarrow> job_response option) \<Rightarrow> string \<Rightarrow> instant option \<Rightarrow> stream_event list \<Rightarrow> worker \<Rightarrow>
   ((submit_failure + job_response) \<times> worker) option" where
  "await_response parse job_id deadline [] w =
     (case deadline of
        Some _ \<Rightarrow> Some (Inl (failure_post ''the worker stopped answering and was discarded''), w)
      | None \<Rightarrow> None)"
| "await_response parse job_id deadline (ev # evs) w =
     (if past deadline (event_time ev) then
        Some (Inl (failure_post ''the worker stopped answering and was discarded''), w)
      else case ev of
        EofAt _ \<Rightarrow> Some (Inl (failure_post ''the worker closed its protocol stream''), w)
      | ErrorAt _ e \<Rightarrow> Some (Inl (failure_post (read_failed e)), w)
      | LineAt t line \<Rightarrow>
          (case parse line of
             None \<Rightarrow> await_response parse job_id deadline evs w
           | Some response \<Rightarrow>
               if jo_id response \<noteq> Some job_id then await_response parse job_id deadline evs w
               else Some (Inr response,
                          w\<lparr>wk_jobs_done := wk_jobs_done w + 1, wk_last_used := t\<rparr>)))"

record submit_env =
  su_write :: "string option"
  su_flush :: "string option"
  su_now :: instant
  su_lag :: duration
  su_stream :: "stream_event list"

text \<open>
  \<open>su_lag\<close> is how long after the deadline the runtime polls the call again.
  The JSON codec: encoding a request, decoding a reply line.  The second component of a submit is
  the line the worker got whole, if it got one.
\<close>

record codec =
  co_encode :: "job_request \<Rightarrow> string + string"
  co_decode :: "string \<Rightarrow> job_response option"
  co_handshake :: "string \<Rightarrow> string + handshake"

definition worker_submit ::
  "codec \<Rightarrow> job_request \<Rightarrow> duration option \<Rightarrow> submit_env \<Rightarrow> worker \<Rightarrow>
   (((submit_failure + job_response) \<times> worker) \<times> string option) option" where
  "worker_submit co request hard_deadline env w =
     (case co_encode co request of
        Inl e \<Rightarrow> Some ((Inl (failure_pre (''the job could not be encoded: '' @ e)), w), None)
      | Inr body \<Rightarrow>
      case su_write env of
        Some e \<Rightarrow> Some ((Inl (failure_pre (''the job could not be sent: '' @ e)), w), None)
      | None \<Rightarrow>
      case su_flush env of
        Some e \<Rightarrow> Some ((Inl (failure_post (''the job could not be flushed: '' @ e)), w),
                        Some (body @ [CHR 0x0A]))
      | None \<Rightarrow>
        map_option (\<lambda>r. (r, Some (body @ [CHR 0x0A])))
          (await_response (co_decode co) (jr_id request)
             (map_option (\<lambda>budget. su_now env + budget + su_lag env) hard_deadline) (su_stream env) w))"

subsection \<open>The environment a child gets\<close>

lemma foldl_upd_dom:
  "dom (foldl (\<lambda>m (k, v). m(k \<mapsto> v)) m kvs) = dom m \<union> fst ` set kvs"
  by (induction kvs arbitrary: m) auto

lemma dom_to_command:
  "dom (cmd_env (to_command inherited spec)) =
     (if sp_clear_env spec then {} else dom inherited) \<union> fst ` set (sp_env spec)"
  by (simp add: to_command_def foldl_upd_dom)

lemma env_build_names:
  "fst ` set (env_build host bin extra) \<subseteq>
     insert ''PATH'' (set INHERITED \<inter> dom host) \<union> fst ` set extra"
  by (auto simp: env_build_def Let_def map_filter_def)

subsection \<open>Reading replies\<close>

lemma await_response_deadline_returns:
  "await_response parse job_id (Some at) evs w \<noteq> None"
  by (induction evs) (auto split: stream_event.splits option.splits)

lemma await_response_Inr:
  "await_response parse job_id deadline evs w = Some (Inr r, w') \<Longrightarrow>
   jo_id r = Some job_id
   \<and> (\<exists>pre t line post. evs = pre @ LineAt t line # post \<and> parse line = Some r
        \<and> \<not> past deadline t
        \<and> w' = w\<lparr>wk_jobs_done := wk_jobs_done w + 1, wk_last_used := t\<rparr>)"
proof (induction evs)
  case Nil
  then show ?case by (simp split: option.splits)
next
  case (Cons ev evs)
  show ?case
  proof (cases ev)
    case (LineAt t line)
    show ?thesis
    proof (cases "\<exists>r'. parse line = Some r' \<and> jo_id r' = Some job_id")
      case True
      with Cons.prems LineAt show ?thesis
        by (fastforce split: if_splits intro: exI [of _ "[]"])
    next
      case False
      with Cons.prems LineAt have "await_response parse job_id deadline evs w = Some (Inr r, w')"
        by (auto split: if_splits option.splits)
      from Cons.IH [OF this] show ?thesis
        by (metis append_Cons)
    qed
  qed (use Cons.prems in \<open>auto split: if_splits\<close>)
qed

lemma await_response_Inl_post:
  "await_response parse job_id deadline evs w = Some (Inl f, w') \<Longrightarrow> sf_dispatched f \<and> w' = w"
  by (induction evs)
    (auto simp: failure_post_def split: if_splits option.splits stream_event.splits)

text \<open>A failure is tagged dispatched exactly when the whole line reached the worker.\<close>

lemma worker_submit_tag:
  "worker_submit co req hard env w = Some ((Inl f, w'), line) \<Longrightarrow>
   sf_dispatched f \<longleftrightarrow> line \<noteq> None"
  by (auto simp: worker_submit_def failure_pre_def failure_post_def
      split: sum.splits option.splits dest: await_response_Inl_post)

lemma worker_submit_Inr:
  "worker_submit co req hard env w = Some ((Inr r, w'), line) \<Longrightarrow>
   jo_id r = Some (jr_id req) \<and> line \<noteq> None \<and> wk_jobs_done w' = wk_jobs_done w + 1
   \<and> wk_child w' = wk_child w"
  by (auto simp: worker_submit_def split: sum.splits option.splits dest!: await_response_Inr)

lemma worker_submit_returns:
  "worker_submit co req (Some b) env w \<noteq> None"
  using await_response_deadline_returns
      [of "co_decode co" "jr_id req" "su_now env + b + su_lag env" "su_stream env" w]
  by (auto simp: worker_submit_def split: sum.splits option.splits)

end
