(* ===== verification/Lang_Pool.thy ===== *)
theory Lang_Pool
  imports Pool_Worker
begin

text \<open>
  The bounded pool of warm workers for one language,
  \<open>crates/tinyruntime/src/pool/lang_pool.rs\<close>.  First the operations, each a function on the
  pool's state; then \<open>pool_run\<close>, one whole \<open>LangPool::run\<close>; then the same run cut at its
  awaits into atomic steps, so that any number of calls interleave (\<open>pool_step\<close>), with the
  caller dropping a call at any await and the reaper running at any time.

  The idle vector is listed from its end, so that \<open>push\<close> and \<open>pop\<close> work on the head.
  The counters are \<open>u64\<close> and wrap; the semaphore is its number of free permits.
\<close>

subsection \<open>State\<close>

definition WEDGED_GRACE :: duration where "WEDGED_GRACE = dur_from_secs 10"
definition MIN_REAP_INTERVAL :: duration where "MIN_REAP_INTERVAL = dur_from_secs 5"

record lang_pool =
  lp_launch :: launch
  lp_settings :: pool_settings
  lp_runtime_version :: string
  lp_permits :: nat
  lp_idle :: "worker list"
  lp_inflight :: usize
  lp_next_job :: u64
  lp_jobs_total :: u64
  lp_worker_spawns :: u64
  lp_rejected :: u64

definition pool_start :: "launch \<Rightarrow> pool_settings \<Rightarrow> string \<Rightarrow> lang_pool" where
  "pool_start l s v =
     \<lparr>lp_launch = l, lp_settings = s, lp_runtime_version = v,
      lp_permits = unat (effective_max_workers s), lp_idle = [], lp_inflight = 0,
      lp_next_job = 0, lp_jobs_total = 0, lp_worker_spawns = 0, lp_rejected = 0\<rparr>"

text \<open>The reaper's period, when a reaper is started at all.\<close>

definition reap_interval :: "pool_settings \<Rightarrow> duration option" where
  "reap_interval s =
     map_option (\<lambda>ttl. max (dur_from_secs ttl) MIN_REAP_INTERVAL) (idle_ttl_secs s)"

definition pool_language :: "lang_pool \<Rightarrow> language" where
  "pool_language p = la_language (lp_launch p)"

definition pool_stats_of :: "lang_pool \<Rightarrow> pool_stats" where
  "pool_stats_of p =
     with_idle_workers (length (lp_idle p))
       (with_counts (lp_jobs_total p) (lp_worker_spawns p) (lp_rejected p)
         (pool_stats_new (pool_language p) (effective_max_workers (lp_settings p))))"

subsection \<open>Operations\<close>

definition capacity :: "pool_settings \<Rightarrow> usize" where
  "capacity s = effective_max_workers s + effective_max_queue_depth s"

text \<open>The first atomic of \<open>run\<close>: count the call in, and say whether it is over capacity.\<close>

definition enter :: "lang_pool \<Rightarrow> bool \<times> lang_pool" where
  "enter p = (capacity (lp_settings p) < lp_inflight p + 1, p\<lparr>lp_inflight := lp_inflight p + 1\<rparr>)"

definition leave :: "lang_pool \<Rightarrow> lang_pool" where
  "leave p = p\<lparr>lp_inflight := lp_inflight p - 1\<rparr>"

definition count_rejected :: "lang_pool \<Rightarrow> lang_pool" where
  "count_rejected p = p\<lparr>lp_rejected := lp_rejected p + 1\<rparr>"

definition acquire_permit :: "lang_pool \<Rightarrow> lang_pool option" where
  "acquire_permit p =
     (if lp_permits p = 0 then None else Some (p\<lparr>lp_permits := lp_permits p - 1\<rparr>))"

definition release_permit :: "lang_pool \<Rightarrow> lang_pool" where
  "release_permit p = p\<lparr>lp_permits := lp_permits p + 1\<rparr>"

definition next_job_id :: "lang_pool \<Rightarrow> u64 \<times> lang_pool" where
  "next_job_id p = (lp_next_job p, p\<lparr>lp_next_job := lp_next_job p + 1\<rparr>)"

definition make_job ::
  "u64 \<Rightarrow> string \<Rightarrow> string option \<Rightarrow> duration option \<Rightarrow> job_request" where
  "make_job n code cwd timeout =
     \<lparr>jr_id = u64_to_string n, jr_code = code, jr_cwd = cwd,
      jr_timeout_ms = map_option (\<lambda>b. u64_of_nat_sat (dur_as_millis b)) timeout\<rparr>"

definition hard_deadline_of :: "duration option \<Rightarrow> duration option" where
  "hard_deadline_of timeout = map_option (\<lambda>budget. budget + WEDGED_GRACE) timeout"

definition ttl_expired :: "pool_settings \<Rightarrow> instant \<Rightarrow> worker \<Rightarrow> bool" where
  "ttl_expired s now w =
     (case idle_ttl_secs s of Some ttl \<Rightarrow> idle_expired now (dur_from_secs ttl) w | None \<Rightarrow> False)"

text \<open>
  The loop of \<open>take_or_spawn\<close> over the parked workers: the worker taken, what is left parked, and
  the workers shut down on the way.
\<close>

fun take_idle ::
  "pool_settings \<Rightarrow> instant \<Rightarrow> (nat \<Rightarrow> wait_answer) \<Rightarrow> worker list \<Rightarrow>
   worker option \<times> worker list \<times> worker list" where
  "take_idle s now try_wait [] = (None, [], [])"
| "take_idle s now try_wait (w # ws) =
     (if ttl_expired s now w \<or> has_exited try_wait w
      then (case take_idle s now try_wait ws of (r, left, shut) \<Rightarrow> (r, left, w # shut))
      else (Some w, ws, []))"

definition count_spawn :: "lang_pool \<Rightarrow> lang_pool" where
  "count_spawn p = p\<lparr>lp_worker_spawns := lp_worker_spawns p + 1\<rparr>"

definition pool_spawn ::
  "codec \<Rightarrow> spawn_env \<Rightarrow> lang_pool \<Rightarrow> worker result \<times> lang_pool" where
  "pool_spawn co env p =
     (case fst (worker_spawn (co_handshake co) (lp_launch p) env) of
        Inl reason \<Rightarrow> (Inl (PreDispatch (pool_language p) reason), count_spawn p)
      | Inr w \<Rightarrow> (Inr w, count_spawn p))"

definition take_or_spawn ::
  "codec \<Rightarrow> instant \<Rightarrow> (nat \<Rightarrow> wait_answer) \<Rightarrow> spawn_env \<Rightarrow> lang_pool \<Rightarrow>
   worker result \<times> lang_pool" where
  "take_or_spawn co now try_wait env p =
     (case take_idle (lp_settings p) now try_wait (lp_idle p) of
        (Some w, left, _) \<Rightarrow> (Inr w, p\<lparr>lp_idle := left\<rparr>)
      | (None, left, _) \<Rightarrow> pool_spawn co env (p\<lparr>lp_idle := left\<rparr>))"

definition dispatch_error :: "lang_pool \<Rightarrow> submit_failure \<Rightarrow> error" where
  "dispatch_error p f =
     (if sf_dispatched f then PostDispatch (pool_language p) (sf_reason f)
      else PreDispatch (pool_language p) (sf_reason f))"

definition count_job :: "lang_pool \<Rightarrow> lang_pool" where
  "count_job p = p\<lparr>lp_jobs_total := lp_jobs_total p + 1\<rparr>"

definition retire_or_park :: "worker \<Rightarrow> lang_pool \<Rightarrow> lang_pool" where
  "retire_or_park w p =
     (if should_recycle (ps_recycle_after_jobs (lp_settings p)) w then p
      else p\<lparr>lp_idle := w # lp_idle p\<rparr>)"

definition pool_outcome :: "lang_pool \<Rightarrow> job_response \<Rightarrow> duration \<Rightarrow> duration \<Rightarrow> exec_response" where
  "pool_outcome p r el qw =
     with_timings (u64_of_nat_sat (dur_as_millis el)) (u64_of_nat_sat (dur_as_millis qw))
       (with_timed_out (jo_timed_out r)
         (exec_response_new (jo_stdout r) (jo_stderr r) (jo_exit_code r) (lp_runtime_version p)))"

text \<open>The end of \<open>run\<close>: a failure the harness reports itself is terminal.\<close>

definition conclude ::
  "lang_pool \<Rightarrow> job_response \<Rightarrow> duration \<Rightarrow> duration \<Rightarrow> exec_response result" where
  "conclude p r el qw =
     (case jo_error r of
        Some e \<Rightarrow> Inl (PostDispatch (pool_language p) e)
      | None \<Rightarrow> Inr (pool_outcome p r el qw))"

definition reap :: "instant \<Rightarrow> lang_pool \<Rightarrow> lang_pool" where
  "reap now p =
     (case idle_ttl_secs (lp_settings p) of
        None \<Rightarrow> p
      | Some ttl \<Rightarrow>
          p\<lparr>lp_idle := filter (\<lambda>w. \<not> idle_expired now (dur_from_secs ttl) w) (lp_idle p)\<rparr>)"

text \<open>
  One round of the reaper task after its sleep: it holds the pool weakly, and a pool nobody holds any
  more ends it.
\<close>

definition reaper_round :: "instant \<Rightarrow> lang_pool option \<Rightarrow> lang_pool option" where
  "reaper_round now upgraded = map_option (reap now) upgraded"

subsection \<open>One call, start to end\<close>

text \<open>
  What one call meets: when it was queued, got its permit, looked at the parked workers, started
  its dispatch and finished it; what \<open>try_wait\<close> says of a parked child; and what a spawn and the
  submit get.
\<close>

record run_env =
  re_queued_at :: instant
  re_acquired_at :: instant
  re_take_at :: instant
  re_started_at :: instant
  re_finished_at :: instant
  re_try_wait :: "nat \<Rightarrow> wait_answer"
  re_spawn :: spawn_env
  re_submit :: submit_env

text \<open>
  \<open>dispatch\<close>: the reply and the worker that gave it, or the classified failure; the worker of a
  failed submit is shut down.  The last component is the line the worker got whole.
\<close>

definition pool_dispatch ::
  "codec \<Rightarrow> job_request \<Rightarrow> duration option \<Rightarrow> run_env \<Rightarrow> lang_pool \<Rightarrow>
   ((job_response \<times> worker) result \<times> lang_pool \<times> string option) option" where
  "pool_dispatch co job hard env p =
     (case take_or_spawn co (re_take_at env) (re_try_wait env) (re_spawn env) p of
        (Inl e, p1) \<Rightarrow> Some (Inl e, p1, None)
      | (Inr w, p1) \<Rightarrow>
          (case worker_submit co job hard (re_submit env) w of
             None \<Rightarrow> None
           | Some ((Inl f, _), line) \<Rightarrow> Some (Inl (dispatch_error p1 f), p1, line)
           | Some ((Inr r, w'), line) \<Rightarrow> Some (Inr (r, w'), p1, line)))"

text \<open>
  \<open>LangPool::run\<close>.  \<open>None\<close>: the call does not return, because no permit is free and nobody
  else is there to return one, or because a worker without a deadline falls silent.
\<close>

definition pool_run ::
  "codec \<Rightarrow> string \<Rightarrow> string option \<Rightarrow> duration option \<Rightarrow> run_env \<Rightarrow> lang_pool \<Rightarrow>
   (exec_response result \<times> lang_pool \<times> string option) option" where
  "pool_run co code cwd timeout env p =
     (case enter p of
        (True, p1) \<Rightarrow>
          Some (Inl (PoolSaturated (pool_language p)), count_rejected (leave p1), None)
      | (False, p1) \<Rightarrow>
      case acquire_permit p1 of
        None \<Rightarrow> None
      | Some p2 \<Rightarrow>
      case next_job_id p2 of (n, p3) \<Rightarrow>
      case pool_dispatch co (make_job n code cwd timeout) (hard_deadline_of timeout) env p3 of
        None \<Rightarrow> None
      | Some (Inl e, p4, line) \<Rightarrow> Some (Inl e, leave (release_permit p4), line)
      | Some (Inr (r, w), p4, line) \<Rightarrow>
          (let p5 = retire_or_park w (count_job p4)
           in Some (conclude p5 r (elapsed (re_finished_at env) (re_started_at env))
                      (elapsed (re_acquired_at env) (re_queued_at env)),
                    leave (release_permit p5), line)))"

subsection \<open>Interleaved calls\<close>

text \<open>
  Where one call is.  \<open>Waiting\<close> is counted in and has no permit; from \<open>Holding\<close> on it has a
  permit and a job number; \<open>Spawning\<close> has seen no usable parked worker and is starting one;
  \<open>Ready\<close> has a worker it has not written to; \<open>InFlight\<close> has written the whole job;
  \<open>Answered\<close> has the reply and still owns the worker; \<open>Unwinding\<close> owns no worker and still
  has permit and count; \<open>Released\<close> has only the count.  The result of a call whose caller
  dropped it is \<open>None\<close>.
\<close>

datatype task =
    Rejecting
  | Waiting
  | Holding u64
  | Spawning u64
  | Ready u64 worker
  | InFlight u64 worker
  | Answered u64 job_response worker
  | Unwinding u64 "exec_response result option"
  | Released "u64 option" "exec_response result option"
  | Done "u64 option" "exec_response result option"

fun job_of :: "task \<Rightarrow> u64 option" where
  "job_of Rejecting = None"
| "job_of Waiting = None"
| "job_of (Holding n) = Some n"
| "job_of (Spawning n) = Some n"
| "job_of (Ready n w) = Some n"
| "job_of (InFlight n w) = Some n"
| "job_of (Answered n r w) = Some n"
| "job_of (Unwinding n r) = Some n"
| "job_of (Released n r) = n"
| "job_of (Done n r) = n"

fun holds_permit :: "task \<Rightarrow> bool" where
  "holds_permit Rejecting = False"
| "holds_permit Waiting = False"
| "holds_permit (Released _ _) = False"
| "holds_permit (Done _ _) = False"
| "holds_permit _ = True"

text \<open>Calls the capacity check let in and that have not left.\<close>

fun admitted :: "task \<Rightarrow> bool" where
  "admitted Rejecting = False"
| "admitted (Done _ _) = False"
| "admitted _ = True"

definition counted :: "task \<Rightarrow> bool" where
  "counted t \<longleftrightarrow> t = Rejecting \<or> admitted t"

text \<open>Calls that own a worker process or are starting one.\<close>

fun owns_worker :: "task \<Rightarrow> bool" where
  "owns_worker (Spawning _) = True"
| "owns_worker (Ready _ _) = True"
| "owns_worker (InFlight _ _) = True"
| "owns_worker (Answered _ _ _) = True"
| "owns_worker _ = False"

text \<open>
  One atomic move of one call: the pool and the call before, the pool and the call after, and the
  job numbers whose whole line a worker got in this move.
\<close>

inductive move :: "lang_pool \<Rightarrow> task \<Rightarrow> lang_pool \<Rightarrow> task \<Rightarrow> u64 list \<Rightarrow> bool" where
  refuse:
    "move p Rejecting (count_rejected (leave p))
       (Done None (Some (Inl (PoolSaturated (pool_language p))))) []"
| acquire:
    "acquire_permit p = Some p1 \<Longrightarrow> next_job_id p1 = (n, p2) \<Longrightarrow> move p Waiting p2 (Holding n) []"
| take_parked:
    "take_idle (lp_settings p) now try_wait (lp_idle p) = (Some w, left, shut) \<Longrightarrow>
     move p (Holding n) (p\<lparr>lp_idle := left\<rparr>) (Ready n w) []"
| take_none:
    "take_idle (lp_settings p) now try_wait (lp_idle p) = (None, left, shut) \<Longrightarrow>
     move p (Holding n) (count_spawn (p\<lparr>lp_idle := left\<rparr>)) (Spawning n) []"
| spawn_ok:
    "fst (worker_spawn (co_handshake (co :: codec)) (lp_launch p) env) = Inr w \<Longrightarrow>
     move p (Spawning n) p (Ready n w) []"
| spawn_failed:
    "fst (worker_spawn (co_handshake (co :: codec)) (lp_launch p) env) = Inl reason \<Longrightarrow>
     move p (Spawning n) p (Unwinding n (Some (Inl (PreDispatch (pool_language p) reason)))) []"
| write_failed:
    "\<not> sf_dispatched f \<Longrightarrow>
     move p (Ready n w) p (Unwinding n (Some (Inl (dispatch_error p f)))) []"
| write_ok:
    "move p (Ready n w) p (InFlight n w) [n]"
| lost:
    "sf_dispatched f \<Longrightarrow>
     move p (InFlight n w) p (Unwinding n (Some (Inl (dispatch_error p f)))) []"
| reply:
    "jo_id r = Some (u64_to_string n) \<Longrightarrow>
     move p (InFlight n w) (count_job p)
       (Answered n r (w\<lparr>wk_jobs_done := wk_jobs_done w + 1, wk_last_used := now\<rparr>)) []"
| park:
    "p' = retire_or_park w p \<Longrightarrow>
     move p (Answered n r w) p' (Unwinding n (Some (conclude p' r el qw))) []"
| drop_permit:
    "move p (Unwinding n r) (release_permit p) (Released (Some n) r) []"
| drop_count:
    "move p (Released n r) (leave p) (Done n r) []"
| cancel_waiting:
    "move p Waiting p (Released None None) []"
| cancel_holding:
    "t \<in> {Holding n, Spawning n, Ready n w, InFlight n w, Answered n r w} \<Longrightarrow>
     move p t p (Unwinding n None) []"

record pool_sys =
  sys_pool :: lang_pool
  sys_tasks :: "task list"
  sys_sent :: "u64 list"

definition pool_init :: "launch \<Rightarrow> pool_settings \<Rightarrow> string \<Rightarrow> pool_sys" where
  "pool_init l s v = \<lparr>sys_pool = pool_start l s v, sys_tasks = [], sys_sent = []\<rparr>"

inductive pool_step :: "pool_sys \<Rightarrow> pool_sys \<Rightarrow> bool" where
  call_in:
    "enter (sys_pool s) = (False, p) \<Longrightarrow>
     pool_step s (s\<lparr>sys_pool := p, sys_tasks := sys_tasks s @ [Waiting]\<rparr>)"
| call_over:
    "enter (sys_pool s) = (True, p) \<Longrightarrow>
     pool_step s (s\<lparr>sys_pool := p, sys_tasks := sys_tasks s @ [Rejecting]\<rparr>)"
| advance:
    "i < length (sys_tasks s) \<Longrightarrow> move (sys_pool s) (sys_tasks s ! i) p t sent \<Longrightarrow>
     pool_step s
       (s\<lparr>sys_pool := p, sys_tasks := (sys_tasks s)[i := t], sys_sent := sys_sent s @ sent\<rparr>)"
| reap_idle:
    "pool_step s (s\<lparr>sys_pool := reap now (sys_pool s)\<rparr>)"

abbreviation pool_reachable :: "launch \<Rightarrow> pool_settings \<Rightarrow> string \<Rightarrow> pool_sys \<Rightarrow> bool" where
  "pool_reachable l ps v \<equiv> reach (\<lambda>s. s = pool_init l ps v) pool_step"

subsection \<open>Single moves\<close>

named_theorems pool_op_defs \<open>the pool operations, unfolded\<close>

lemmas [pool_op_defs] =
  leave_def count_rejected_def acquire_permit_def release_permit_def next_job_id_def
  count_spawn_def count_job_def retire_or_park_def reap_def enter_def

lemma take_idle_length:
  "take_idle s now tw ws = (r, left, shut) \<Longrightarrow>
   length left + length shut + b2n (r \<noteq> None) = length ws \<and> (r = None \<longrightarrow> left = [])"
  by (induction ws arbitrary: r left shut)
    (auto simp: b2n_def split: if_splits prod.splits)

lemma take_idle_usable:
  "take_idle s now tw ws = (Some w, left, shut) \<Longrightarrow>
   \<not> ttl_expired s now w \<and> \<not> has_exited tw w \<and> ws = shut @ w # left"
  by (induction ws arbitrary: left shut) (auto split: if_splits prod.splits)

lemma take_idle_discards:
  "take_idle s now tw ws = (r, left, shut) \<Longrightarrow>
   v \<in> set shut \<Longrightarrow> ttl_expired s now v \<or> has_exited tw v"
  by (induction ws arbitrary: r left shut) (auto split: if_splits prod.splits)

lemma move_frame:
  "move p t p' t' sent \<Longrightarrow> lp_launch p' = lp_launch p \<and> lp_settings p' = lp_settings p"
  by (induction rule: move.induct) (auto simp: pool_op_defs split: if_splits)

lemma move_permit:
  "move p t p' t' sent \<Longrightarrow>
   lp_permits p' + b2n (holds_permit t') = lp_permits p + b2n (holds_permit t)"
  by (induction rule: move.induct) (auto simp: pool_op_defs b2n_def split: if_splits)

lemma move_inflight:
  "move p t p' t' sent \<Longrightarrow>
   lp_inflight p' + of_nat (b2n (counted t)) = lp_inflight p + of_nat (b2n (counted t'))"
  by (induction rule: move.induct) (auto simp: pool_op_defs b2n_def counted_def split: if_splits)

lemma move_admitted: "move p t p' t' sent \<Longrightarrow> admitted t' \<Longrightarrow> admitted t"
  by (induction rule: move.induct) auto

text \<open>
  Only a call that holds a permit and sees no parked worker adds to the processes in existence.
\<close>

lemma move_memory:
  "move p t p' t' sent \<Longrightarrow>
   length (lp_idle p') + b2n (owns_worker t') \<le> length (lp_idle p) + b2n (owns_worker t)
   \<or> (lp_idle p' = [] \<and> holds_permit t \<and> \<not> owns_worker t)"
  by (induction rule: move.induct)
    (auto simp: pool_op_defs b2n_def dest: take_idle_length split: if_splits)

subsection \<open>Invariants of the interleaved calls\<close>

definition permit_inv :: "pool_settings \<Rightarrow> pool_sys \<Rightarrow> bool" where
  "permit_inv ps s \<longleftrightarrow>
     lp_settings (sys_pool s) = ps
     \<and> lp_permits (sys_pool s) + count_if holds_permit (sys_tasks s)
         = unat (effective_max_workers ps)"

definition memory_inv :: "pool_settings \<Rightarrow> pool_sys \<Rightarrow> bool" where
  "memory_inv ps s \<longleftrightarrow>
     permit_inv ps s
     \<and> length (lp_idle (sys_pool s)) + count_if owns_worker (sys_tasks s)
         \<le> unat (effective_max_workers ps)"

definition admission_inv :: "pool_settings \<Rightarrow> pool_sys \<Rightarrow> bool" where
  "admission_inv ps s \<longleftrightarrow>
     lp_settings (sys_pool s) = ps
     \<and> lp_inflight (sys_pool s) = of_nat (count_if counted (sys_tasks s))
     \<and> (length (sys_tasks s) < 2 ^ 64 \<longrightarrow>
          count_if admitted (sys_tasks s) \<le> unat (capacity ps))"

lemma owns_holds: "owns_worker t \<Longrightarrow> holds_permit t"
  by (cases t) auto

lemma admitted_counted: "admitted t \<Longrightarrow> counted t"
  by (simp add: counted_def)

lemma permit_inv_init: "s = pool_init l ps v \<Longrightarrow> permit_inv ps s"
  by (simp add: permit_inv_def pool_init_def pool_start_def)

lemma permit_inv_step: "pool_step s s' \<Longrightarrow> permit_inv ps s \<Longrightarrow> permit_inv ps s'"
proof (induction rule: pool_step.induct)
  case (advance i s p t sent)
  have "count_if holds_permit ((sys_tasks s)[i := t]) + b2n (holds_permit (sys_tasks s ! i))
      = count_if holds_permit (sys_tasks s) + b2n (holds_permit t)"
    using advance.hyps(1) by (rule count_if_move)
  with move_permit [OF advance.hyps(2)] move_frame [OF advance.hyps(2)] advance.prems
  show ?case by (simp add: permit_inv_def)
qed (auto simp: permit_inv_def pool_op_defs split: option.splits)

lemma memory_inv_step: "pool_step s s' \<Longrightarrow> memory_inv ps s \<Longrightarrow> memory_inv ps s'"
proof (induction rule: pool_step.induct)
  case (advance i s p t sent)
  let ?s' = "s\<lparr>sys_pool := p, sys_tasks := (sys_tasks s)[i := t], sys_sent := sys_sent s @ sent\<rparr>"
  have step: "pool_step s ?s'" using advance.hyps by (rule pool_step.advance)
  with advance.prems have perm: "permit_inv ps ?s'"
    using permit_inv_step by (auto simp: memory_inv_def)
  have cnt: "count_if owns_worker ((sys_tasks s)[i := t]) + b2n (owns_worker (sys_tasks s ! i))
      = count_if owns_worker (sys_tasks s) + b2n (owns_worker t)"
    using advance.hyps(1) by (rule count_if_move)
  have "count_if owns_worker ((sys_tasks s)[i := t])
      \<le> count_if holds_permit ((sys_tasks s)[i := t])"
    by (rule count_if_mono) (rule owns_holds)
  then have below: "count_if owns_worker ((sys_tasks s)[i := t]) \<le> unat (effective_max_workers ps)"
    using perm by (simp add: permit_inv_def)
  show ?case
    using move_memory [OF advance.hyps(2)] cnt below perm advance.prems
    by (auto simp: memory_inv_def)
next
  case (reap_idle s now)
  then show ?case
    by (auto simp: memory_inv_def permit_inv_def reap_def intro: le_trans
        [OF add_right_mono [OF length_filter_le]] split: option.splits)
qed (auto simp: memory_inv_def permit_inv_def pool_op_defs)

lemma enter_within_capacity:
  assumes adm: "admission_inv ps s" and ent: "enter (sys_pool s) = (False, p)"
    and few: "length (sys_tasks s) + 1 < 2 ^ 64"
  shows "count_if admitted (sys_tasks s) + 1 \<le> unat (capacity ps)"
proof -
  let ?c = "count_if counted (sys_tasks s)"
  have "?c \<le> length (sys_tasks s)" by (rule count_if_le_length)
  with few have lt: "?c + 1 < 2 ^ 64" by simp
  have "lp_inflight (sys_pool s) + 1 = (of_nat (?c + 1) :: usize)"
    using adm by (simp add: admission_inv_def)
  then have "unat (lp_inflight (sys_pool s) + 1) = ?c + 1"
    using lt by (simp add: unat_of_nat take_bit_nat_eq_self del: of_nat_Suc of_nat_add)
  moreover have "\<not> capacity ps < lp_inflight (sys_pool s) + 1"
    using ent adm by (simp add: enter_def admission_inv_def)
  ultimately have "?c + 1 \<le> unat (capacity ps)"
    by (simp add: word_less_nat_alt)
  moreover have "count_if admitted (sys_tasks s) \<le> ?c"
    by (rule count_if_mono) (rule admitted_counted)
  ultimately show ?thesis by simp
qed

lemma admission_inv_step: "pool_step s s' \<Longrightarrow> admission_inv ps s \<Longrightarrow> admission_inv ps s'"
proof (induction rule: pool_step.induct)
  case (call_in s p)
  then show ?case
    using enter_within_capacity [of ps s p]
    by (auto simp: admission_inv_def enter_def counted_def)
next
  case (call_over s p)
  then show ?case by (auto simp: admission_inv_def enter_def counted_def)
next
  case (advance i s p t sent)
  have c: "count_if counted ((sys_tasks s)[i := t]) + b2n (counted (sys_tasks s ! i))
      = count_if counted (sys_tasks s) + b2n (counted t)"
    and a: "count_if admitted ((sys_tasks s)[i := t]) + b2n (admitted (sys_tasks s ! i))
      = count_if admitted (sys_tasks s) + b2n (admitted t)"
    using advance.hyps(1) by (auto intro: count_if_move)
  have "lp_inflight p + of_nat (b2n (counted (sys_tasks s ! i)))
      = of_nat (count_if counted (sys_tasks s)) + of_nat (b2n (counted t))"
    using move_inflight [OF advance.hyps(2)] advance.prems by (simp add: admission_inv_def)
  also have "\<dots> = of_nat (count_if counted ((sys_tasks s)[i := t]))
      + of_nat (b2n (counted (sys_tasks s ! i)))"
    using c by (metis of_nat_add)
  finally have "lp_inflight p = of_nat (count_if counted ((sys_tasks s)[i := t]))"
    by simp
  moreover have "b2n (admitted t) \<le> b2n (admitted (sys_tasks s ! i))"
    using move_admitted [OF advance.hyps(2)] by (auto simp: b2n_def)
  ultimately show ?case
    using a advance.prems move_frame [OF advance.hyps(2)] by (auto simp: admission_inv_def)
next
  case (reap_idle s now)
  then show ?case by (auto simp: admission_inv_def reap_def split: option.splits)
qed

lemma memory_inv_init: "s = pool_init l ps v \<Longrightarrow> memory_inv ps s"
  by (simp add: memory_inv_def permit_inv_init) (simp add: pool_init_def pool_start_def)

lemma admission_inv_init: "s = pool_init l ps v \<Longrightarrow> admission_inv ps s"
  by (simp add: admission_inv_def pool_init_def pool_start_def)

interpretation pool_memory: invariant_of "\<lambda>s. s = pool_init l ps v" pool_step "memory_inv ps"
  for l ps v
  by unfold_locales (erule memory_inv_init, erule memory_inv_step)

interpretation pool_admission:
  invariant_of "\<lambda>s. s = pool_init l ps v" pool_step "admission_inv ps" for l ps v
  by unfold_locales (erule admission_inv_init, erule admission_inv_step)

subsection \<open>Job numbers and what was sent\<close>

text \<open>
  What a call's place says about its job: surely not written, or surely written whole.  A result of
  \<open>PreDispatch\<close> says the former, a reply or a \<open>PostDispatch\<close> the latter.
\<close>

fun result_unsent :: "exec_response result option \<Rightarrow> bool" where
  "result_unsent (Some (Inl (PreDispatch _ _))) = True"
| "result_unsent _ = False"

fun result_sent :: "exec_response result option \<Rightarrow> bool" where
  "result_sent (Some (Inl (PostDispatch _ _))) = True"
| "result_sent (Some (Inr _)) = True"
| "result_sent _ = False"

fun surely_unsent :: "task \<Rightarrow> bool" where
  "surely_unsent (Holding _) = True"
| "surely_unsent (Spawning _) = True"
| "surely_unsent (Ready _ _) = True"
| "surely_unsent (Unwinding _ r) = result_unsent r"
| "surely_unsent (Released _ r) = result_unsent r"
| "surely_unsent (Done _ r) = result_unsent r"
| "surely_unsent _ = False"

fun surely_sent :: "task \<Rightarrow> bool" where
  "surely_sent (InFlight _ _) = True"
| "surely_sent (Answered _ _ _) = True"
| "surely_sent (Unwinding _ r) = result_sent r"
| "surely_sent (Released _ r) = result_sent r"
| "surely_sent (Done _ r) = result_sent r"
| "surely_sent _ = False"

definition jobs_unique :: "task list \<Rightarrow> bool" where
  "jobs_unique ts \<longleftrightarrow>
     (\<forall>i < length ts. \<forall>j < length ts. job_of (ts ! i) \<noteq> None \<longrightarrow> job_of (ts ! i) = job_of (ts ! j) \<longrightarrow> i = j)"

definition job_inv :: "pool_sys \<Rightarrow> bool" where
  "job_inv s \<longleftrightarrow>
     (length (sys_tasks s) < 2 ^ 64 \<longrightarrow>
        unat (lp_next_job (sys_pool s)) = count_if (\<lambda>t. job_of t \<noteq> None) (sys_tasks s)
        \<and> (\<forall>t \<in> set (sys_tasks s). \<forall>n. job_of t = Some n \<longrightarrow> n < lp_next_job (sys_pool s))
        \<and> (\<forall>n \<in> set (sys_sent s). n < lp_next_job (sys_pool s))
        \<and> jobs_unique (sys_tasks s)
        \<and> distinct (sys_sent s)
        \<and> (\<forall>t \<in> set (sys_tasks s). \<forall>n. job_of t = Some n \<longrightarrow>
              (surely_unsent t \<longrightarrow> n \<notin> set (sys_sent s)) \<and> (surely_sent t \<longrightarrow> n \<in> set (sys_sent s))))"

text \<open>One move either numbers a waiting call, or keeps the number, and writes it at most once.\<close>

lemma move_job:
  "move p t p' t' sent \<Longrightarrow>
   (t = Waiting \<and> t' = Holding (lp_next_job p) \<and> lp_next_job p' = lp_next_job p + 1 \<and> sent = [])
   \<or> (job_of t' = job_of t \<and> lp_next_job p' = lp_next_job p
      \<and> (sent = [] \<and> (surely_unsent t' \<longrightarrow> job_of t \<noteq> None \<longrightarrow> surely_unsent t)
                    \<and> (surely_sent t' \<longrightarrow> job_of t \<noteq> None \<longrightarrow> surely_sent t)
         \<or> (\<exists>n w. t = Ready n w \<and> t' = InFlight n w \<and> sent = [n])))"
  by (induction rule: move.induct)
    (auto simp: pool_op_defs dispatch_error_def conclude_def split: if_splits option.splits)

lemma jobs_unique_keep:
  "jobs_unique ts \<Longrightarrow> i < length ts \<Longrightarrow> job_of t = job_of (ts ! i) \<Longrightarrow> jobs_unique (ts[i := t])"
  unfolding jobs_unique_def by (metis length_list_update nth_list_update)

lemma jobs_unique_fresh:
  assumes "jobs_unique ts" "i < length ts" "\<forall>t \<in> set ts. job_of t \<noteq> Some n" "job_of t = Some n"
  shows "jobs_unique (ts[i := t])"
  using assms unfolding jobs_unique_def
  by (auto simp: nth_list_update)

lemma jobs_unique_other:
  "jobs_unique ts \<Longrightarrow> i < length ts \<Longrightarrow> job_of (ts ! i) = Some n \<Longrightarrow> t \<in> set (ts[i := u]) \<Longrightarrow>
   job_of t = Some n \<Longrightarrow> t = u"
  unfolding jobs_unique_def in_set_conv_nth
  by (metis length_list_update nth_list_update_eq nth_list_update_neq option.distinct(1))

lemma job_inv_number:
  assumes inv: "job_inv s" and i: "i < length (sys_tasks s)" "sys_tasks s ! i = Waiting"
    and p: "lp_next_job p = lp_next_job (sys_pool s) + 1"
  shows "job_inv (s\<lparr>sys_pool := p,
    sys_tasks := (sys_tasks s)[i := Holding (lp_next_job (sys_pool s))]\<rparr>)"
  (is "job_inv (s\<lparr>sys_pool := p, sys_tasks := ?ts\<rparr>)")
proof (cases "length (sys_tasks s) < 2 ^ 64")
  case True
  let ?n = "lp_next_job (sys_pool s)"
  have cnt: "count_if (\<lambda>t. job_of t \<noteq> None) ?ts = unat ?n + 1"
    using count_if_move [OF i(1), of "\<lambda>t. job_of t \<noteq> None" "Holding ?n"] i(2) inv True
    by (simp add: job_inv_def b2n_def)
  have "count_if (\<lambda>t. job_of t \<noteq> None) ?ts \<le> length (sys_tasks s)"
    using count_if_le_length [of _ ?ts] by simp
  then have "unat ?n + 1 < 2 ^ 64" using cnt True by simp
  then have nxt: "unat (?n + 1) = unat ?n + 1" by (simp add: unat_word_ariths)
  have lt: "m < ?n + 1" if "m < ?n \<or> m = ?n" for m
    using that nxt by (auto simp: word_less_nat_alt)
  have fresh: "\<forall>t \<in> set (sys_tasks s). job_of t \<noteq> Some ?n" "?n \<notin> set (sys_sent s)"
    using inv True by (auto simp: job_inv_def)
  have uniq: "jobs_unique ?ts"
    using inv True i(1) fresh(1) by (intro jobs_unique_fresh) (auto simp: job_inv_def)
  have mem: "t \<in> set ?ts \<Longrightarrow> t = Holding ?n \<or> t \<in> set (sys_tasks s)" for t
    using set_update_subset_insert [of "sys_tasks s" i "Holding ?n"] by auto
  show ?thesis
    unfolding job_inv_def
  proof (intro impI conjI)
    show "\<forall>t\<in>set (sys_tasks (s\<lparr>sys_pool := p, sys_tasks := ?ts\<rparr>)). \<forall>n. job_of t = Some n \<longrightarrow>
       n < lp_next_job (sys_pool (s\<lparr>sys_pool := p, sys_tasks := ?ts\<rparr>))"
      using inv True p mem lt by (fastforce simp: job_inv_def)
    show "\<forall>t\<in>set (sys_tasks (s\<lparr>sys_pool := p, sys_tasks := ?ts\<rparr>)). \<forall>n. job_of t = Some n \<longrightarrow>
       (surely_unsent t \<longrightarrow> n \<notin> set (sys_sent (s\<lparr>sys_pool := p, sys_tasks := ?ts\<rparr>)))
       \<and> (surely_sent t \<longrightarrow> n \<in> set (sys_sent (s\<lparr>sys_pool := p, sys_tasks := ?ts\<rparr>)))"
      using inv True fresh mem by (fastforce simp: job_inv_def)
  qed (use inv True p cnt nxt uniq lt in \<open>auto simp: job_inv_def\<close>)
qed (simp add: job_inv_def)

lemma job_inv_keep:
  assumes inv: "job_inv s" and i: "i < length (sys_tasks s)"
    and job: "job_of t = job_of (sys_tasks s ! i)"
    and p: "lp_next_job p = lp_next_job (sys_pool s)"
    and u: "surely_unsent t \<Longrightarrow> job_of t \<noteq> None \<Longrightarrow> surely_unsent (sys_tasks s ! i)"
    and v: "surely_sent t \<Longrightarrow> job_of t \<noteq> None \<Longrightarrow> surely_sent (sys_tasks s ! i)"
  shows "job_inv (s\<lparr>sys_pool := p, sys_tasks := (sys_tasks s)[i := t]\<rparr>)"
proof -
  have mem: "t' \<in> set ((sys_tasks s)[i := t]) \<Longrightarrow> t' = t \<or> t' \<in> set (sys_tasks s)" for t'
    using set_update_subset_insert [of "sys_tasks s" i t] by auto
  have "count_if (\<lambda>t. job_of t \<noteq> None) ((sys_tasks s)[i := t])
      = count_if (\<lambda>t. job_of t \<noteq> None) (sys_tasks s)"
    using count_if_move [OF i, of "\<lambda>t. job_of t \<noteq> None" t] job by simp
  then have cnt: "count_if (\<lambda>t. \<exists>y. job_of t = Some y) ((sys_tasks s)[i := t])
      = count_if (\<lambda>t. \<exists>y. job_of t = Some y) (sys_tasks s)" by simp
  have here: "sys_tasks s ! i \<in> set (sys_tasks s)" using i by simp
  have each: "\<forall>t' \<in> set ((sys_tasks s)[i := t]). P t'"
    if "\<forall>t' \<in> set (sys_tasks s). P t'" "P (sys_tasks s ! i) \<Longrightarrow> P t" for P
    using that here mem by blast
  show ?thesis
    unfolding job_inv_def
    using inv [unfolded job_inv_def] p jobs_unique_keep [OF _ i job] u v
    by (simp add: cnt, intro impI conjI each) (auto simp: job)
qed

lemma job_inv_write:
  assumes inv: "job_inv s" and i: "i < length (sys_tasks s)" "sys_tasks s ! i = Ready n w"
    and p: "lp_next_job p = lp_next_job (sys_pool s)"
  shows "job_inv (s\<lparr>sys_pool := p, sys_tasks := (sys_tasks s)[i := InFlight n w],
    sys_sent := sys_sent s @ [n]\<rparr>)"
proof (cases "length (sys_tasks s) < 2 ^ 64")
  case True
  have here: "Ready n w \<in> set (sys_tasks s)" using i by (metis nth_mem)
  have other: "t \<in> set ((sys_tasks s)[i := InFlight n w]) \<Longrightarrow> job_of t = Some n \<Longrightarrow> t = InFlight n w"
    for t using jobs_unique_other [of "sys_tasks s" i n t "InFlight n w"] inv True i
    by (simp add: job_inv_def)
  have mem: "t \<in> set ((sys_tasks s)[i := InFlight n w]) \<Longrightarrow>
      t = InFlight n w \<or> (t \<in> set (sys_tasks s) \<and> job_of t \<noteq> Some n)" for t
    using set_update_subset_insert [of "sys_tasks s" i "InFlight n w"] other [of t] by auto
  have "count_if (\<lambda>t. job_of t \<noteq> None) ((sys_tasks s)[i := InFlight n w])
      = count_if (\<lambda>t. job_of t \<noteq> None) (sys_tasks s)"
    using count_if_move [OF i(1), of "\<lambda>t. job_of t \<noteq> None" "InFlight n w"] i by simp
  moreover have "jobs_unique ((sys_tasks s)[i := InFlight n w])"
    using inv True i by (intro jobs_unique_keep) (auto simp: job_inv_def)
  moreover have "n \<notin> set (sys_sent s)" "n < lp_next_job (sys_pool s)"
    using inv True here by (fastforce simp: job_inv_def)+
  ultimately show ?thesis
    using inv True p unfolding job_inv_def by (auto dest!: mem)
qed (simp add: job_inv_def)

lemma jobs_unique_snoc:
  "jobs_unique ts \<Longrightarrow> job_of t = None \<Longrightarrow> jobs_unique (ts @ [t])"
  unfolding jobs_unique_def by (auto simp: nth_append less_Suc_eq)

lemma job_inv_call:
  "job_inv s \<Longrightarrow> enter (sys_pool s) = (b, p) \<Longrightarrow> job_of t = None \<Longrightarrow>
   \<not> surely_unsent t \<Longrightarrow> \<not> surely_sent t \<Longrightarrow>
   job_inv (s\<lparr>sys_pool := p, sys_tasks := sys_tasks s @ [t]\<rparr>)"
  by (auto simp: job_inv_def enter_def jobs_unique_snoc)

lemma job_inv_step: "pool_step s s' \<Longrightarrow> job_inv s \<Longrightarrow> job_inv s'"
proof (induction rule: pool_step.induct)
  case (advance i s p t sent)
  from move_job [OF advance.hyps(2)] show ?case
  proof (elim disjE conjE exE)
    fix n w
    assume "sys_tasks s ! i = Ready n w" "t = InFlight n w" "sent = [n]"
      "lp_next_job p = lp_next_job (sys_pool s)"
    with advance show ?thesis by (simp add: job_inv_write)
  qed (use advance in \<open>auto intro: job_inv_number job_inv_keep\<close>)
next
  case (reap_idle s now)
  then show ?case by (auto simp: job_inv_def reap_def split: option.splits)
qed (auto intro: job_inv_call)

lemma job_inv_init: "s = pool_init l ps v \<Longrightarrow> job_inv s"
  by (simp add: job_inv_def pool_init_def pool_start_def jobs_unique_def)

interpretation pool_jobs: invariant_of "\<lambda>s. s = pool_init l ps v" pool_step job_inv for l ps v
  by unfold_locales (erule job_inv_init, erule job_inv_step)

subsection \<open>Which failures a call can end with\<close>

text \<open>
  A call that got a job number ends dropped, with a reply, or with a dispatch failure; a call that
  got none ends dropped or refused.
\<close>

fun result_ok :: "task \<Rightarrow> bool" where
  "result_ok (Unwinding n r) \<longleftrightarrow> r = None \<or> result_unsent r \<or> result_sent r"
| "result_ok (Released (Some n) r) \<longleftrightarrow> r = None \<or> result_unsent r \<or> result_sent r"
| "result_ok (Done (Some n) r) \<longleftrightarrow> r = None \<or> result_unsent r \<or> result_sent r"
| "result_ok (Released None r) \<longleftrightarrow> r = None"
| "result_ok (Done None r) \<longleftrightarrow> r = None \<or> (\<exists>l. r = Some (Inl (PoolSaturated l)))"
| "result_ok _ \<longleftrightarrow> True"

definition result_inv :: "pool_sys \<Rightarrow> bool" where
  "result_inv s \<longleftrightarrow> (\<forall>t \<in> set (sys_tasks s). result_ok t)"

lemma move_result: "move p t p' t' sent \<Longrightarrow> result_ok t \<Longrightarrow> result_ok t'"
proof (induction rule: move.induct)
  case (drop_count p n r)
  then show ?case by (cases n) auto
qed (auto simp: dispatch_error_def conclude_def split: option.splits)

lemma result_inv_step: "pool_step s s' \<Longrightarrow> result_inv s \<Longrightarrow> result_inv s'"
proof (induction rule: pool_step.induct)
  case (advance i s p t sent)
  then have "result_ok t" using move_result by (auto simp: result_inv_def)
  with advance.prems show ?case
    using set_update_subset_insert [of "sys_tasks s" i t] by (auto simp: result_inv_def)
qed (auto simp: result_inv_def)

interpretation pool_results: invariant_of "\<lambda>s. s = pool_init l ps v" pool_step result_inv for l ps v
proof
  show "s = pool_init l ps v \<Longrightarrow> result_inv s" for s by (simp add: result_inv_def pool_init_def)
qed (erule result_inv_step)

subsection \<open>The whole run is one of the interleavings\<close>

text \<open>A run of moves of one call, with the job numbers written on the way.\<close>

inductive moves :: "lang_pool \<Rightarrow> task \<Rightarrow> lang_pool \<Rightarrow> task \<Rightarrow> u64 list \<Rightarrow> bool" where
  moves_refl: "moves p t p t []"
| moves_step: "move p t p1 t1 sent1 \<Longrightarrow> moves p1 t1 p2 t2 sent2 \<Longrightarrow> moves p t p2 t2 (sent1 @ sent2)"

lemma moves_trans:
  "moves p t p1 t1 sent1 \<Longrightarrow> moves p1 t1 p2 t2 sent2 \<Longrightarrow> moves p t p2 t2 (sent1 @ sent2)"
  by (induction rule: moves.induct) (auto intro: moves.intros)

lemma moves_one: "move p t p1 t1 sent \<Longrightarrow> moves p t p1 t1 sent"
  using moves_step [OF _ moves_refl] by fastforce

lemma moves_silent: "move p t p1 t1 [] \<Longrightarrow> moves p1 t1 p2 t2 sent \<Longrightarrow> moves p t p2 t2 sent"
  using moves_step by fastforce

lemma moves_steps:
  "moves p t p' t' sent \<Longrightarrow>
   pool_step\<^sup>*\<^sup>* \<lparr>sys_pool = p, sys_tasks = ts @ [t], sys_sent = st\<rparr>
     \<lparr>sys_pool = p', sys_tasks = ts @ [t'], sys_sent = st @ sent\<rparr>"
proof (induction arbitrary: st rule: moves.induct)
  case (moves_step p t p1 t1 sent1 p2 t2 sent2)
  have "pool_step \<lparr>sys_pool = p, sys_tasks = ts @ [t], sys_sent = st\<rparr>
      \<lparr>sys_pool = p1, sys_tasks = ts @ [t1], sys_sent = st @ sent1\<rparr>"
    using pool_step.advance [of "length ts" "\<lparr>sys_pool = p, sys_tasks = ts @ [t], sys_sent = st\<rparr>"]
      moves_step.hyps(1) by simp
  then show ?case
    using moves_step.IH [of "st @ sent1"] by (simp add: converse_rtranclp_into_rtranclp)
qed simp

lemma worker_submit_reply:
  "worker_submit co req hard env w = Some ((Inr r, w'), line) \<Longrightarrow>
   \<exists>t. w' = w\<lparr>wk_jobs_done := wk_jobs_done w + 1, wk_last_used := t\<rparr>"
  by (auto simp: worker_submit_def split: sum.splits option.splits dest!: await_response_Inr)

text \<open>Getting a worker, by either route.\<close>

lemma take_or_spawn_moves:
  assumes "take_or_spawn co now tw env p = (r, p')"
  shows "case r of
      Inl e \<Rightarrow> moves p (Holding n) p' (Unwinding n (Some (Inl e))) [] \<and> (\<exists>m. e = PreDispatch (pool_language p) m)
    | Inr w \<Rightarrow> moves p (Holding n) p' (Ready n w) []"
proof -
  obtain got left shut where t: "take_idle (lp_settings p) now tw (lp_idle p) = (got, left, shut)"
    by (metis prod_cases3)
  show ?thesis
  proof (cases got)
    case (Some w)
    then show ?thesis
      using assms t by (auto simp: take_or_spawn_def intro!: moves_one move.take_parked)
  next
    case None
    let ?q = "count_spawn (p\<lparr>lp_idle := left\<rparr>)"
    have q: "lp_launch ?q = lp_launch p" "pool_language ?q = pool_language p"
      by (simp_all add: count_spawn_def pool_language_def)
    have taken: "move p (Holding n) ?q (Spawning n) []"
      using t None by (auto intro: move.take_none)
    show ?thesis
    proof (cases "fst (worker_spawn (co_handshake co) (lp_launch p) env)")
      case (Inl reason)
      then have "move ?q (Spawning n) ?q
          (Unwinding n (Some (Inl (PreDispatch (pool_language p) reason)))) []"
        using move.spawn_failed [of co ?q env reason n] by (simp add: q)
      then show ?thesis
        using assms t None Inl moves_silent [OF taken moves_one]
        by (auto simp: take_or_spawn_def pool_spawn_def pool_language_def)
    next
      case (Inr w)
      then have "move ?q (Spawning n) ?q (Ready n w) []"
        using move.spawn_ok [of co ?q env w n] by (simp add: q)
      then show ?thesis
        using assms t None Inr moves_silent [OF taken moves_one]
        by (auto simp: take_or_spawn_def pool_spawn_def)
    qed
  qed
qed

lemma dispatch_moves:
  assumes run: "pool_dispatch co (make_job n code cwd timeout) hard env p = Some (r, p', line)"
  shows "case r of
      Inl e \<Rightarrow> moves p (Holding n) p' (Unwinding n (Some (Inl e))) (if line = None then [] else [n])
    | Inr (q, w) \<Rightarrow> moves p (Holding n) (count_job p') (Answered n q w) [n] \<and> line \<noteq> None"
proof -
  obtain got p1 where t: "take_or_spawn co (re_take_at env) (re_try_wait env) (re_spawn env) p = (got, p1)"
    by (metis surj_pair)
  note got = take_or_spawn_moves [OF t, of n]
  show ?thesis
  proof (cases got)
    case (Inl e)
    then show ?thesis using run t got by (auto simp: pool_dispatch_def)
  next
    case (Inr w)
    then have ready: "moves p (Holding n) p1 (Ready n w) []" using got by simp
    obtain q w' l where sub:
      "worker_submit co (make_job n code cwd timeout) hard (re_submit env) w = Some ((q, w'), l)"
      using run t Inr by (auto simp: pool_dispatch_def split: option.splits)
    have sent: "moves p (Holding n) p1 (InFlight n w) [n]"
      using moves_trans [OF ready moves_one [OF move.write_ok]] by simp
    show ?thesis
    proof (cases q)
      case (Inl f)
      note tag = worker_submit_tag [OF sub [unfolded Inl]]
      have "moves p (Holding n) p1 (Unwinding n (Some (Inl (dispatch_error p1 f))))
          (if sf_dispatched f then [n] else [])"
        using moves_trans [OF sent moves_one [OF move.lost]]
          moves_trans [OF ready moves_one [OF move.write_failed]] by auto
      then show ?thesis
        using run t Inr sub Inl tag by (auto simp: pool_dispatch_def split: if_splits)
    next
      case (Inr x)
      obtain at where w': "w' = w\<lparr>wk_jobs_done := wk_jobs_done w + 1, wk_last_used := at\<rparr>"
        using worker_submit_reply sub Inr by blast
      have id: "jo_id x = Some (u64_to_string n)" and l: "l \<noteq> None"
        using worker_submit_Inr [OF sub [unfolded Inr]] by (auto simp: make_job_def)
      have "moves p (Holding n) (count_job p1) (Answered n x w') [n]"
        using moves_trans [OF sent moves_one [OF move.reply [OF id]]] w' by simp
      then show ?thesis
        using run t \<open>got = Inr w\<close> sub Inr l by (auto simp: pool_dispatch_def)
    qed
  qed
qed

lemma pool_dispatch_returns: "pool_dispatch co job (Some b) env p \<noteq> None"
proof (cases "take_or_spawn co (re_take_at env) (re_try_wait env) (re_spawn env) p")
  case (Pair got p1)
  show ?thesis
  proof (cases got)
    case (Inl e)
    with Pair show ?thesis by (simp add: pool_dispatch_def)
  next
    case (Inr w)
    with Pair worker_submit_returns [of co job b "re_submit env" w] show ?thesis
      by (auto simp: pool_dispatch_def split: sum.splits)
  qed
qed

lemma pool_run_total:
  "0 < lp_permits p \<Longrightarrow> pool_run co code cwd (Some t) env p \<noteq> None"
proof -
  assume "0 < lp_permits p"
  then obtain p2 where acq: "acquire_permit (p\<lparr>lp_inflight := lp_inflight p + 1\<rparr>) = Some p2"
    by (simp add: acquire_permit_def)
  obtain n p3 where nx: "next_job_id p2 = (n, p3)" by (metis surj_pair)
  obtain d where "pool_dispatch co (make_job n code cwd (Some t)) (Some (t + WEDGED_GRACE)) env p3 = Some d"
    using pool_dispatch_returns by fastforce
  then show ?thesis
    using acq nx
    by (cases "capacity (lp_settings p) < lp_inflight p + 1"; cases d; cases "fst d")
      (auto simp: pool_run_def enter_def hard_deadline_of_def Let_def)
qed

lemma unwind_moves:
  "moves p (Unwinding n r) (leave (release_permit p)) (Done (Some n) r) []"
  by (rule moves_silent [OF move.drop_permit moves_one [OF move.drop_count]])

lemma pool_run_moves:
  assumes run: "pool_run co code cwd timeout env p = Some (r, p', line)" and ent: "enter p = (False, p1)"
  shows "moves p1 Waiting p' (Done (Some (lp_next_job p)) (Some r))
           (if line = None then [] else [lp_next_job p])"
proof -
  obtain p2 where acq: "acquire_permit p1 = Some p2"
    using run ent by (auto simp: pool_run_def split: option.splits)
  let ?n = "lp_next_job p" and ?p3 = "p2\<lparr>lp_next_job := lp_next_job p + 1\<rparr>"
  have nx: "next_job_id p2 = (?n, ?p3)"
    using ent acq by (auto simp: next_job_id_def enter_def acquire_permit_def split: if_splits)
  obtain d p4 where dis: "pool_dispatch co (make_job ?n code cwd timeout) (hard_deadline_of timeout)
      env ?p3 = Some (d, p4, line)"
    using run ent acq nx
    by (auto simp: pool_run_def Let_def split: option.splits sum.splits)
  have hold: "moves p1 Waiting ?p3 (Holding ?n) []"
    using acq nx by (intro moves_one move.acquire)
  show ?thesis
  proof (cases d)
    case (Inl e)
    then show ?thesis
      using moves_trans [OF hold moves_trans [OF dispatch_moves [OF dis, unfolded Inl sum.case]
            unwind_moves]] run ent acq nx dis
      by (simp add: pool_run_def)
  next
    case (Inr ow)
    obtain q w where ow: "ow = (q, w)" by (cases ow)
    define p5 where "p5 = retire_or_park w (count_job p4)"
    have ans: "moves ?p3 (Holding ?n) (count_job p4) (Answered ?n q w) [?n]" and l: "line \<noteq> None"
      using dispatch_moves [OF dis] Inr ow by auto
    have "move (count_job p4) (Answered ?n q w) p5 (Unwinding ?n (Some r)) []"
      and p': "p' = leave (release_permit p5)"
      using run ent acq nx dis Inr ow
      by (auto simp: pool_run_def Let_def p5_def intro: move.park)
    then show ?thesis
      using moves_trans [OF hold moves_trans [OF ans moves_silent [OF _ unwind_moves]]] l by auto
  qed
qed

end
