(* ===== verification/Pools.thy ===== *)
theory Pools
  imports Lang_Pool "HOL-Library.AList"
begin

text \<open>
  The registry of live pools, \<open>crates/tinyruntime/src/pool/mod.rs\<close>: one entry per language,
  rebuilt whenever the launch or the tuning changes.  A pool is shared by every caller that got it
  (\<open>Arc<LangPool>\<close>), so the registry is an explicit store: an entry holds the address of its
  pool, and the store keeps the pool with the calls that run in it.
\<close>

subsection \<open>State and operations\<close>

record pool_entry =
  pe_fingerprint :: string
  pe_pool :: nat

record pools =
  po_live :: "(language \<times> pool_entry) list"
  po_store :: "pool_sys list"

definition pools_new :: pools where
  "pools_new = \<lparr>po_live = [], po_store = []\<rparr>"

definition pool_fingerprint :: "(string \<Rightarrow> string) \<Rightarrow> launch \<Rightarrow> pool_settings \<Rightarrow> string" where
  "pool_fingerprint dbg l s =
     launch_fingerprint dbg l @ ''|workers='' @ u64_to_string (effective_max_workers s)
       @ ''|ttl='' @ u64_to_string (ps_idle_ttl_secs s)
       @ ''|recycle='' @ u64_to_string (ps_recycle_after_jobs s)
       @ ''|queue='' @ u64_to_string (ps_max_queue_depth s)"

definition ensure ::
  "(string \<Rightarrow> string) \<Rightarrow> launch \<Rightarrow> pool_settings \<Rightarrow> string \<Rightarrow> pools \<Rightarrow> nat \<times> pools" where
  "ensure dbg l s v ps =
     (let fingerprint = pool_fingerprint dbg l s;
          fresh = length (po_store ps);
          rebuilt = \<lparr>po_live = AList.update (la_language l)
                                \<lparr>pe_fingerprint = fingerprint, pe_pool = fresh\<rparr> (po_live ps),
                     po_store = po_store ps @ [pool_init l s v]\<rparr>
      in case map_of (po_live ps) (la_language l) of
           Some entry \<Rightarrow>
             if pe_fingerprint entry = fingerprint then (pe_pool entry, ps) else (fresh, rebuilt)
         | None \<Rightarrow> (fresh, rebuilt))"

definition pool_at :: "pools \<Rightarrow> nat \<Rightarrow> lang_pool" where
  "pool_at ps a = sys_pool (po_store ps ! a)"

text \<open>The map is iterated in an unspecified order and then sorted by language.\<close>

definition pools_stats :: "pools \<Rightarrow> pool_stats list" where
  "pools_stats ps =
     map (\<lambda>e. pool_stats_of (pool_at ps (pe_pool e)))
       (sort_key (\<lambda>e. pool_language (pool_at ps (pe_pool e))) (map snd (po_live ps)))"

subsection \<open>The registry in use\<close>

text \<open>Callers ask for pools, and the calls inside any pool ever handed out go on.\<close>

inductive pools_step :: "(string \<Rightarrow> string) \<Rightarrow> pools \<Rightarrow> pools \<Rightarrow> bool" for dbg where
  ask: "ensure dbg l s v ps = (a, ps') \<Longrightarrow> pools_step dbg ps ps'"
| work: "a < length (po_store ps) \<Longrightarrow> pool_step (po_store ps ! a) y \<Longrightarrow>
    pools_step dbg ps (ps\<lparr>po_store := (po_store ps)[a := y]\<rparr>)"

abbreviation pools_reachable :: "(string \<Rightarrow> string) \<Rightarrow> pools \<Rightarrow> bool" where
  "pools_reachable dbg \<equiv> reach (\<lambda>ps. ps = pools_new) (pools_step dbg)"

definition entry_ok :: "(string \<Rightarrow> string) \<Rightarrow> pools \<Rightarrow> language \<times> pool_entry \<Rightarrow> bool" where
  "entry_ok dbg ps le \<longleftrightarrow>
     pe_pool (snd le) < length (po_store ps)
     \<and> pool_language (pool_at ps (pe_pool (snd le))) = fst le
     \<and> pe_fingerprint (snd le)
         = pool_fingerprint dbg (lp_launch (pool_at ps (pe_pool (snd le))))
             (lp_settings (pool_at ps (pe_pool (snd le))))"

definition pools_inv :: "(string \<Rightarrow> string) \<Rightarrow> pools \<Rightarrow> bool" where
  "pools_inv dbg ps \<longleftrightarrow>
     distinct (map fst (po_live ps))
     \<and> (\<forall>le \<in> set (po_live ps). entry_ok dbg ps le)
     \<and> (\<forall>y \<in> set (po_store ps). memory_inv (lp_settings (sys_pool y)) y)"

lemma pool_step_frame:
  "pool_step s s' \<Longrightarrow>
   lp_launch (sys_pool s') = lp_launch (sys_pool s)
   \<and> lp_settings (sys_pool s') = lp_settings (sys_pool s)"
  by (induction rule: pool_step.induct)
    (auto simp: enter_def reap_def dest: move_frame split: option.splits)

lemma entry_ok_store:
  "entry_ok dbg ps le \<Longrightarrow> length (po_store ps) \<le> length (po_store ps') \<Longrightarrow>
   (\<And>a. a < length (po_store ps) \<Longrightarrow>
      lp_launch (pool_at ps' a) = lp_launch (pool_at ps a)
      \<and> lp_settings (pool_at ps' a) = lp_settings (pool_at ps a)) \<Longrightarrow>
   entry_ok dbg ps' le"
  by (auto simp: entry_ok_def pool_language_def)

lemma set_AList_update: "set (AList.update k v xs) \<subseteq> insert (k, v) (set xs)"
  by (induction xs) auto

lemma pools_inv_ensure:
  assumes inv: "pools_inv dbg ps"
  shows "pools_inv dbg (snd (ensure dbg l s v ps))"
proof -
  let ?fresh = "\<lparr>pe_fingerprint = pool_fingerprint dbg l s, pe_pool = length (po_store ps)\<rparr>"
  let ?ps' = "\<lparr>po_live = AList.update (la_language l) ?fresh (po_live ps),
               po_store = po_store ps @ [pool_init l s v]\<rparr>"
  have old: "entry_ok dbg ps le \<Longrightarrow> entry_ok dbg ?ps' le" for le
    by (rule entry_ok_store) (auto simp: pool_at_def nth_append)
  have new: "entry_ok dbg ?ps' (la_language l, ?fresh)"
    by (simp add: entry_ok_def pool_at_def pool_init_def pool_start_def pool_language_def)
  have "pools_inv dbg ?ps'"
    using inv old new set_AList_update [of "la_language l" ?fresh "po_live ps"]
      memory_inv_init [of "pool_init l s v" l s v]
    by (auto simp: pools_inv_def distinct_update pool_init_def pool_start_def)
  then show ?thesis
    using inv by (auto simp: ensure_def Let_def split: option.splits)
qed

lemma pools_inv_step: "pools_step dbg ps ps' \<Longrightarrow> pools_inv dbg ps \<Longrightarrow> pools_inv dbg ps'"
proof (induction rule: pools_step.induct)
  case (ask l s v ps a ps')
  then show ?case using pools_inv_ensure [of dbg ps l s v] by simp
next
  case (work a ps y)
  let ?ps' = "ps\<lparr>po_store := (po_store ps)[a := y]\<rparr>"
  note frame = pool_step_frame [OF work.hyps(2)]
  have "entry_ok dbg ps le \<Longrightarrow> entry_ok dbg ?ps' le" for le
    by (rule entry_ok_store) (use frame work.hyps(1) in \<open>auto simp: pool_at_def nth_list_update\<close>)
  moreover have "memory_inv (lp_settings (sys_pool y)) y"
    using memory_inv_step [OF work.hyps(2)] work.hyps(1) work.prems frame
    by (auto simp: pools_inv_def)
  ultimately show ?case
    using work.prems set_update_subset_insert [of "po_store ps" a y]
    by (auto simp: pools_inv_def)
qed

lemma pools_inv_init: "ps = pools_new \<Longrightarrow> pools_inv dbg ps"
  by (simp add: pools_inv_def pools_new_def)

interpretation registry: invariant_of "\<lambda>ps. ps = pools_new" "pools_step dbg" "pools_inv dbg" for dbg
  by unfold_locales (erule pools_inv_init, erule pools_inv_step)

lemma ensure_entry_ok:
  assumes "pools_inv dbg ps" "ensure dbg l s v ps = (a, ps')"
  shows "a < length (po_store ps')"
    and "pool_fingerprint dbg (lp_launch (pool_at ps' a)) (lp_settings (pool_at ps' a))
           = pool_fingerprint dbg l s"
    and "pool_language (pool_at ps' a) = la_language l"
    and "memory_inv (lp_settings (pool_at ps' a)) (po_store ps' ! a)"
proof -
  have inv': "pools_inv dbg ps'" using pools_inv_ensure [OF assms(1), of l s v] assms(2) by simp
  let ?fresh = "\<lparr>pe_fingerprint = pool_fingerprint dbg l s, pe_pool = length (po_store ps)\<rparr>"
  have "(a, ps') = (length (po_store ps), \<lparr>po_live = AList.update (la_language l) ?fresh (po_live ps),
               po_store = po_store ps @ [pool_init l s v]\<rparr>)
      \<or> (\<exists>e. map_of (po_live ps) (la_language l) = Some e \<and> ps' = ps \<and> pe_pool e = a
           \<and> pe_fingerprint e = pool_fingerprint dbg l s)"
    using assms(2) by (auto simp: ensure_def Let_def split: option.splits if_splits)
  then obtain e where e: "map_of (po_live ps') (la_language l) = Some e" "pe_pool e = a"
      "pe_fingerprint e = pool_fingerprint dbg l s"
  proof (elim disjE exE)
    assume "(a, ps') = (length (po_store ps), \<lparr>po_live = AList.update (la_language l) ?fresh (po_live ps),
               po_store = po_store ps @ [pool_init l s v]\<rparr>)"
    then show thesis by (intro that [of ?fresh]) (auto simp: update_conv')
  qed (use that in blast)
  then have "entry_ok dbg ps' (la_language l, e)"
    using inv' by (auto simp: pools_inv_def dest: map_of_SomeD)
  with e show "a < length (po_store ps')"
    and "pool_fingerprint dbg (lp_launch (pool_at ps' a)) (lp_settings (pool_at ps' a))
           = pool_fingerprint dbg l s"
    and "pool_language (pool_at ps' a) = la_language l"
    by (auto simp: entry_ok_def)
  then show "memory_inv (lp_settings (pool_at ps' a)) (po_store ps' ! a)"
    using inv' by (auto simp: pools_inv_def pool_at_def)
qed

subsection \<open>The fingerprint tells launches apart\<close>

text \<open>
  What \<open>{:?}\<close> of a string promises: a quoted form that shows where it ends.
\<close>

definition quotes :: "(string \<Rightarrow> string) \<Rightarrow> bool" where
  "quotes dbg \<longleftrightarrow>
     (\<forall>s. \<exists>r. dbg s = CHR 0x22 # r)
     \<and> (\<forall>a b x y. dbg a @ x = dbg b @ y \<longrightarrow> a = b \<and> x = y)"

lemma sep_left:
  "d \<notin> set a \<Longrightarrow> d \<notin> set b \<Longrightarrow> a @ d # x = b @ d # y \<Longrightarrow> a = b \<and> x = y"
proof (induction a arbitrary: b)
  case Nil
  then show ?case by (cases b) auto
next
  case (Cons c a)
  then show ?case by (cases b) auto
qed

lemma sep_right:
  assumes "d \<notin> set x" "d \<notin> set y" "a @ d # x = b @ d # y"
  shows "a = b \<and> x = y"
proof -
  have "rev x @ d # rev a = rev y @ d # rev b"
    using arg_cong [OF assms(3), of rev] by simp
  then have "rev x = rev y \<and> rev a = rev b"
    using assms(1,2) by (intro sep_left) auto
  then show ?thesis by simp
qed

lemma join_with_start:
  "f z = c # r \<Longrightarrow> \<exists>r. join_with '', '' (map f (z # zs)) @ '']'' @ w = c # r"
  by (cases zs) auto

lemma debug_list_items:
  assumes delim: "\<And>a b x y. f a @ x = f b @ y \<Longrightarrow> a = b \<and> x = y"
    and start: "\<And>a. \<exists>r. f a = c # r" and c: "c \<noteq> CHR '']''"
  shows "join_with '', '' (map f xs) @ '']'' @ u = join_with '', '' (map f ys) @ '']'' @ v
    \<Longrightarrow> xs = ys \<and> u = v"
proof (induction xs arbitrary: ys)
  case Nil
  then show ?case
    using start [of "hd ys"] join_with_start [of f "hd ys" c _ "tl ys" v] c by (cases ys) force+
next
  case (Cons x xs)
  then obtain y ys' where ys: "ys = y # ys'"
    using start [of x] join_with_start [of f x c _ xs u] c by (cases ys) force+
  show ?case
  proof (cases xs; cases ys')
    assume "xs = []" "ys' = []"
    then show ?thesis using Cons.prems ys by (auto dest: delim)
  next
    fix b bs assume "xs = []" "ys' = b # bs"
    then show ?thesis using Cons.prems ys by (auto dest: delim)
  next
    fix b bs assume "xs = b # bs" "ys' = []"
    then show ?thesis using Cons.prems ys by (auto dest: delim)
  next
    fix b bs d ds assume "xs = b # bs" "ys' = d # ds"
    then show ?thesis using Cons.prems ys Cons.IH [of ys'] by (auto dest!: delim)
  qed
qed

lemma debug_list_delim:
  assumes "\<And>a b x y. f a @ x = f b @ y \<Longrightarrow> a = b \<and> x = y" "\<And>a. \<exists>r. f a = c # r"
    "c \<noteq> CHR '']''" "debug_list f xs @ u = debug_list f ys @ v"
  shows "xs = ys \<and> u = v"
  using debug_list_items [of f c xs u ys v] assms by (simp add: debug_list_def)

lemma quotes_delim: "quotes dbg \<Longrightarrow> dbg a @ x = dbg b @ y \<Longrightarrow> a = b \<and> x = y"
  unfolding quotes_def by blast

lemma quotes_start: "quotes dbg \<Longrightarrow> \<exists>r. dbg a = CHR 0x22 # r"
  unfolding quotes_def by blast

lemma debug_pair_delim:
  assumes "quotes dbg" "debug_pair dbg a @ x = debug_pair dbg b @ y"
  shows "a = b \<and> x = y"
proof -
  have "dbg (fst a) @ '', '' @ dbg (snd a) @ '')'' @ x = dbg (fst b) @ '', '' @ dbg (snd b) @ '')'' @ y"
    using assms(2) by (simp add: debug_pair_def)
  then have "fst a = fst b \<and> '', '' @ dbg (snd a) @ '')'' @ x = '', '' @ dbg (snd b) @ '')'' @ y"
    using quotes_delim [OF assms(1)] by blast
  moreover from this have "dbg (snd a) @ '')'' @ x = dbg (snd b) @ '')'' @ y" by simp
  then have "snd a = snd b \<and> '')'' @ x = '')'' @ y"
    using quotes_delim [OF assms(1)] by blast
  ultimately show ?thesis by (simp add: prod_eq_iff)
qed

lemma args_delim:
  "quotes dbg \<Longrightarrow> debug_list dbg xs @ u = debug_list dbg ys @ v \<Longrightarrow> xs = ys \<and> u = v"
  by (rule debug_list_delim [of dbg "CHR 0x22", OF quotes_delim [of dbg] quotes_start [of dbg]])
    (assumption, assumption, assumption, simp, assumption)

lemma env_delim:
  "quotes dbg \<Longrightarrow> debug_list (debug_pair dbg) xs @ u = debug_list (debug_pair dbg) ys @ v \<Longrightarrow>
   xs = ys \<and> u = v"
  by (rule debug_list_delim [of "debug_pair dbg" "CHR ''(''", OF debug_pair_delim [of dbg]])
    (assumption, assumption, simp add: debug_pair_def, simp, assumption)

lemma bar_free_dec: "CHR ''|'' \<notin> set (dec n)"
  using dec_digits [of "CHR ''|''" n] by (auto simp: is_ascii_digit_def byte_def)

text \<open>Peel one numbered field off the right end.\<close>

lemma field_right:
  assumes "a @ CHR ''|'' # k @ dec m = b @ CHR ''|'' # k @ dec n" "CHR ''|'' \<notin> set k"
  shows "a = b \<and> m = n"
proof -
  have "a = b \<and> k @ dec m = k @ dec n"
    using assms by (intro sep_right) (auto simp: bar_free_dec)
  then show ?thesis by (auto dest: dec_inj)
qed

lemma word_field: "u64_to_string w = dec (unat w)"
  by (rule u64_to_string_def)

definition spawner_label :: "launch \<Rightarrow> string" where
  "spawner_label l = (case la_spawner l of None \<Rightarrow> ''direct'' | Some s \<Rightarrow> spawner_id s)"

lemma tuning_fields:
  assumes "a @ ''|workers='' @ dec w @ ''|ttl='' @ dec t @ ''|recycle='' @ dec r @ ''|queue='' @ dec q
    = b @ ''|workers='' @ dec w' @ ''|ttl='' @ dec t' @ ''|recycle='' @ dec r' @ ''|queue='' @ dec q'"
  shows "a = b \<and> w = w' \<and> t = t' \<and> r = r' \<and> q = q'"
proof -
  let ?f = "\<lambda>k n. CHR ''|'' # k @ dec n"
  have 1: "(((a @ ?f ''workers='' w) @ ?f ''ttl='' t) @ ?f ''recycle='' r) @ ?f ''queue='' q
      = (((b @ ?f ''workers='' w') @ ?f ''ttl='' t') @ ?f ''recycle='' r') @ ?f ''queue='' q'"
    using assms by simp
  have 2: "((a @ ?f ''workers='' w) @ ?f ''ttl='' t) @ ?f ''recycle='' r
      = ((b @ ?f ''workers='' w') @ ?f ''ttl='' t') @ ?f ''recycle='' r'" "q = q'"
    using field_right [OF 1] by auto
  have 3: "(a @ ?f ''workers='' w) @ ?f ''ttl='' t = (b @ ?f ''workers='' w') @ ?f ''ttl='' t'" "r = r'"
    using field_right [OF 2(1)] by auto
  have 4: "a @ ?f ''workers='' w = b @ ?f ''workers='' w'" "t = t'"
    using field_right [OF 3(1)] by auto
  show ?thesis using field_right [OF 4(1)] 2 3 4 by auto
qed

lemma launch_fingerprint_inj:
  assumes q: "quotes dbg" and eq: "launch_fingerprint dbg l = launch_fingerprint dbg l'"
    and free: "CHR ''|'' \<notin> set (as_str (la_language l)) \<union> set (la_binary l)"
      "CHR ''|'' \<notin> set (as_str (la_language l')) \<union> set (la_binary l')"
  shows "la_language l = la_language l' \<and> la_binary l = la_binary l' \<and> la_args l = la_args l'
    \<and> la_env l = la_env l' \<and> la_protocol_version l = la_protocol_version l'
    \<and> spawner_label l = spawner_label l'"
proof -
  let ?B = "CHR ''|''"
  define tail5 where "tail5 k = dec (unat (la_protocol_version k)) @ ?B # ''spawner='' @ spawner_label k" for k
  define tail4 where "tail4 k = debug_list (debug_pair dbg) (la_env k) @ ?B # tail5 k" for k
  define tail3 where "tail3 k = debug_list dbg (la_args k) @ ?B # tail4 k" for k
  have fp: "launch_fingerprint dbg k = as_str (la_language k) @ ?B # la_binary k @ ?B # tail3 k" for k
    by (simp add: launch_fingerprint_def tail3_def tail4_def tail5_def spawner_label_def)
  have 1: "as_str (la_language l) = as_str (la_language l')" "la_binary l @ ?B # tail3 l = la_binary l' @ ?B # tail3 l'"
    using sep_left [OF _ _ eq [unfolded fp]] free by auto
  have 2: "la_binary l = la_binary l'" "tail3 l = tail3 l'"
    using sep_left [OF _ _ 1(2)] free by auto
  have 3: "la_args l = la_args l'" "tail4 l = tail4 l'"
    using args_delim [OF q 2(2) [unfolded tail3_def]] by auto
  have 4: "la_env l = la_env l'" "tail5 l = tail5 l'"
    using env_delim [OF q 3(2) [unfolded tail4_def]] by auto
  have 5: "dec (unat (la_protocol_version l)) = dec (unat (la_protocol_version l'))"
    "spawner_label l = spawner_label l'"
    using sep_left [OF bar_free_dec bar_free_dec 4(2) [unfolded tail5_def]] by auto
  show ?thesis
    using 1(1) 2(1) 3(1) 4(1) 5 by (auto dest!: dec_inj simp: language.expand word_unat_eq_iff)
qed

lemma pool_fingerprint_inj:
  assumes "quotes dbg" "pool_fingerprint dbg l s = pool_fingerprint dbg l' s'"
    and "CHR ''|'' \<notin> set (as_str (la_language l)) \<union> set (la_binary l)"
      "CHR ''|'' \<notin> set (as_str (la_language l')) \<union> set (la_binary l')"
  shows "la_language l = la_language l' \<and> la_binary l = la_binary l' \<and> la_args l = la_args l'
    \<and> la_env l = la_env l' \<and> la_protocol_version l = la_protocol_version l'
    \<and> spawner_label l = spawner_label l'
    \<and> effective_max_workers s = effective_max_workers s' \<and> ps_idle_ttl_secs s = ps_idle_ttl_secs s'
    \<and> ps_recycle_after_jobs s = ps_recycle_after_jobs s' \<and> ps_max_queue_depth s = ps_max_queue_depth s'"
  using tuning_fields [OF assms(2) [unfolded pool_fingerprint_def word_field]]
    launch_fingerprint_inj [OF assms(1) _ assms(3,4)]
  by (simp add: word_unat_eq_iff)

subsection \<open>A quoting function\<close>

text \<open>Double quotes around the string, with quote and backslash escaped.\<close>

definition quote :: "string \<Rightarrow> string" where
  "quote s =
     CHR 0x22 # concat (map (\<lambda>c. if c = CHR 0x22 \<or> c = CHR 0x5C then [CHR 0x5C, c] else [c]) s) @ [CHR 0x22]"

lemma quotes_quote: "quotes quote"
proof -
  let ?e = "\<lambda>s. concat (map (\<lambda>c. if c = CHR 0x22 \<or> c = CHR 0x5C then [CHR 0x5C, c] else [c]) s)"
  have inner: "?e a @ CHR 0x22 # x = ?e b @ CHR 0x22 # y \<Longrightarrow> a = b \<and> x = y" for a b x y
  proof (induction a arbitrary: b)
    case Nil
    then show ?case by (cases b) (auto split: if_splits)
  next
    case (Cons c a)
    then show ?case by (cases b) (auto split: if_splits)
  qed
  have "quote a @ x = quote b @ y \<Longrightarrow> a = b \<and> x = y" for a b x y
    using inner [of a x b y] by (simp add: quote_def)
  moreover have "\<exists>r. quote a = CHR 0x22 # r" for a by (simp add: quote_def)
  ultimately show ?thesis unfolding quotes_def by blast
qed

end
