(* ===== verification/Pool_Properties.thy ===== *)
theory Pool_Properties
  imports Pools
begin

text \<open>
  What the pool guarantees, each with a concrete run of it: the properties of
  \<open>crates/tinyruntime/src/pool\<close>, proved over the interleaved calls of \<open>Lang_Pool\<close>, over one
  worker of \<open>Pool_Worker\<close> and over the registry of \<open>Pools\<close>.
\<close>

subsection \<open>A sample worker\<close>

definition demo_launch :: launch where
  "demo_launch =
     \<lparr>la_language = language_python, la_binary = ''/usr/bin/python3'', la_args = [''h.py''],
      la_env = [(''PATH'', ''/usr/bin'')], la_protocol_version = 1, la_handshake_timeout = 30,
      la_spawner = None\<rparr>"

definition demo_handshake :: handshake where
  "demo_handshake =
     \<lparr>hs_ready = True, hs_protocol = Some 1, hs_language = None, hs_error = None, hs_token = Some ''t''\<rparr>"

definition demo_reply :: "string \<Rightarrow> job_response" where
  "demo_reply i =
     \<lparr>jo_id = Some i, jo_ok = True, jo_stdout = ''42'', jo_stderr = [], jo_exit_code = Some 0,
      jo_timed_out = False, jo_elapsed_ms = 1, jo_error = None\<rparr>"

text \<open>A line is the identifier it answers.\<close>

definition demo_codec :: codec where
  "demo_codec =
     \<lparr>co_encode = (\<lambda>j. Inr (jr_id j)), co_decode = (\<lambda>line. Some (demo_reply line)),
      co_handshake = (\<lambda>_. Inr demo_handshake)\<rparr>"

definition demo_spawn_env :: spawn_env where
  "demo_spawn_env =
     \<lparr>se_bind = None, se_local_addr = Inr ''127.0.0.1:9'', se_token = ''t'', se_start = (\<lambda>_. Inr 7),
      se_accept = Accepted, se_handshake = ReadLine [], se_now = 5\<rparr>"

definition demo_submit_env :: submit_env where
  "demo_submit_env = \<lparr>su_write = None, su_flush = None, su_now = 6, su_lag = 0, su_stream = [LineAt 8 ''0'']\<rparr>"

definition demo_run_env :: run_env where
  "demo_run_env =
     \<lparr>re_queued_at = 1, re_acquired_at = 2, re_take_at = 3, re_started_at = 3, re_finished_at = 9,
      re_try_wait = (\<lambda>_. StillRunning), re_spawn = demo_spawn_env, re_submit = demo_submit_env\<rparr>"

definition demo_worker :: worker where
  "demo_worker = \<lparr>wk_language = language_python, wk_child = 7, wk_jobs_done = 0, wk_last_used = 5\<rparr>"

definition demo_tuning :: pool_settings where
  "demo_tuning = pool_settings_default\<lparr>ps_max_workers := 1, ps_max_queue_depth := 1\<rparr>"

text \<open>One call with its worker at work, and a second one waiting for the only permit.\<close>

definition demo_busy :: pool_sys where
  "demo_busy =
     \<lparr>sys_pool = (pool_start demo_launch demo_tuning ''3'')
        \<lparr>lp_permits := 0, lp_inflight := 2, lp_next_job := 1, lp_worker_spawns := 1\<rparr>,
      sys_tasks = [InFlight 0 demo_worker, Waiting], sys_sent = [0]\<rparr>"

lemmas demo_defs =
  demo_launch_def demo_handshake_def demo_reply_def demo_codec_def demo_spawn_env_def
  demo_submit_env_def demo_run_env_def demo_worker_def demo_tuning_def pool_settings_default_def

lemma demo_spawn: "fst (worker_spawn (co_handshake demo_codec) demo_launch demo_spawn_env) = Inr demo_worker"
  by (simp add: worker_spawn_def demo_defs verify_handshake_def confine_def)

lemma demo_moves:
  "moves ((pool_start demo_launch demo_tuning ''3'')\<lparr>lp_inflight := 1\<rparr>) Waiting
     ((pool_start demo_launch demo_tuning ''3'')
        \<lparr>lp_permits := 0, lp_inflight := 1, lp_next_job := 1, lp_worker_spawns := 1\<rparr>)
     (InFlight 0 demo_worker) [0]"
proof -
  let ?p0 = "(pool_start demo_launch demo_tuning ''3'')\<lparr>lp_inflight := 1\<rparr>"
  let ?p1 = "?p0\<lparr>lp_permits := 0, lp_next_job := 1\<rparr>"
  let ?p2 = "?p1\<lparr>lp_worker_spawns := 1\<rparr>"
  have "move ?p0 Waiting ?p1 (Holding 0) []"
    by (rule move.acquire [of _ "?p0\<lparr>lp_permits := 0\<rparr>"])
      (simp_all add: acquire_permit_def next_job_id_def pool_start_def effective_max_workers_def demo_defs)
  moreover have "move ?p1 (Holding 0) ?p2 (Spawning 0) []"
    using move.take_none [of ?p1 3 "\<lambda>_. StillRunning" "[]" "[]" 0]
    by (simp add: pool_start_def count_spawn_def)
  moreover have "move ?p2 (Spawning 0) ?p2 (Ready 0 demo_worker) []"
    using move.spawn_ok [of demo_codec ?p2 demo_spawn_env demo_worker 0] demo_spawn
    by (simp add: pool_start_def)
  moreover have "move ?p2 (Ready 0 demo_worker) ?p2 (InFlight 0 demo_worker) [0]"
    by (rule move.write_ok)
  ultimately have "moves ?p0 Waiting ?p2 (InFlight 0 demo_worker) [0]"
    by (meson moves_silent moves_one)
  then show ?thesis by (simp add: pool_start_def)
qed

lemma demo_reachable: "pool_reachable demo_launch demo_tuning ''3'' demo_busy"
proof -
  let ?p0 = "pool_start demo_launch demo_tuning ''3''"
  let ?s1 = "\<lparr>sys_pool = ?p0\<lparr>lp_inflight := 1\<rparr>, sys_tasks = [Waiting], sys_sent = []\<rparr>"
  let ?p2 = "?p0\<lparr>lp_permits := 0, lp_inflight := 1, lp_next_job := 1, lp_worker_spawns := 1\<rparr>"
  let ?s2 = "\<lparr>sys_pool = ?p2, sys_tasks = [InFlight 0 demo_worker], sys_sent = [0]\<rparr>"
  have r0: "pool_reachable demo_launch demo_tuning ''3'' (pool_init demo_launch demo_tuning ''3'')"
    by (rule reach_init) simp
  have s1: "pool_step (pool_init demo_launch demo_tuning ''3'') ?s1"
    using pool_step.call_in [of "pool_init demo_launch demo_tuning ''3''" "?p0\<lparr>lp_inflight := 1\<rparr>"]
    by (simp add: enter_def pool_init_def pool_start_def capacity_def effective_max_workers_def
        effective_max_queue_depth_def demo_defs)
  have "pool_step\<^sup>*\<^sup>* ?s1 ?s2" using moves_steps [OF demo_moves, of "[]" "[]"] by simp
  with reach_step [OF r0 s1] have "pool_reachable demo_launch demo_tuning ''3'' ?s2"
    by (rule reach_steps)
  moreover have "pool_step ?s2 demo_busy"
    using pool_step.call_in [of ?s2 "?p2\<lparr>lp_inflight := 2\<rparr>"]
    by (simp add: enter_def pool_start_def capacity_def effective_max_workers_def demo_busy_def
        effective_max_queue_depth_def demo_defs)
  ultimately show ?thesis by (rule reach_step)
qed

subsection \<open>Memory and admission\<close>

text \<open>
  C1.  However the calls interleave, are cancelled and are reaped, a pool never has more worker
  processes (parked, starting, or owned by a call) than its worker limit.
\<close>

theorem pool_worker_bound:
  "pool_reachable l ps v s \<Longrightarrow>
   length (lp_idle (sys_pool s)) + count_if owns_worker (sys_tasks s) \<le> unat (effective_max_workers ps)"
  using pool_memory.reach_inv [of l ps v s] by (simp add: memory_inv_def)

theorem pool_worker_bound_witness:
  "count_if owns_worker (sys_tasks demo_busy) = 1
   \<and> length (lp_idle (sys_pool demo_busy)) + count_if owns_worker (sys_tasks demo_busy)
       \<le> unat (effective_max_workers demo_tuning)"
  using pool_worker_bound [OF demo_reachable] by (simp add: demo_busy_def)

text \<open>
  C24.  The calls a pool has admitted and not finished never exceed its capacity, the workers plus the
  queue, as long as fewer than two to the sixty-four calls were ever made.
\<close>

theorem pool_admission_bound:
  "pool_reachable l ps v s \<Longrightarrow> length (sys_tasks s) < 2 ^ 64 \<Longrightarrow>
   count_if admitted (sys_tasks s) \<le> unat (capacity ps)"
  using pool_admission.reach_inv [of l ps v s] by (simp add: admission_inv_def)

theorem pool_admission_bound_witness:
  "count_if admitted (sys_tasks demo_busy) = 2
   \<and> count_if admitted (sys_tasks demo_busy) \<le> unat (capacity demo_tuning)"
  using pool_admission_bound [OF demo_reachable] by (simp add: demo_busy_def)

text \<open>
  Permits are conserved: the free ones and those held by calls add up to the worker limit, so no
  interleaving, failure or cancellation loses or doubles one.
\<close>

theorem pool_permits_conserved:
  "pool_reachable l ps v s \<Longrightarrow>
   lp_permits (sys_pool s) + count_if holds_permit (sys_tasks s) = unat (effective_max_workers ps)"
  using pool_memory.reach_inv [of l ps v s] by (simp add: memory_inv_def permit_inv_def)

theorem pool_permits_conserved_witness:
  "lp_permits (sys_pool demo_busy) + count_if holds_permit (sys_tasks demo_busy)
     = unat (effective_max_workers demo_tuning)"
  using pool_permits_conserved [OF demo_reachable] by simp

subsection \<open>Dispatch\<close>

text \<open>
  C19.  No job is written to a worker twice: the job numbers are pairwise different, and each number
  is written at most once, as long as fewer than \<open>2 ^ 64\<close> calls were made, when the counter wraps.
\<close>

theorem pool_job_written_once:
  "pool_reachable l ps v s \<Longrightarrow> length (sys_tasks s) < 2 ^ 64 \<Longrightarrow>
   distinct (sys_sent s) \<and> jobs_unique (sys_tasks s)"
  using pool_jobs.reach_inv [of l ps v s] by (simp add: job_inv_def)

theorem pool_job_written_once_witness:
  "distinct (sys_sent demo_busy) \<and> jobs_unique (sys_tasks demo_busy)"
  using pool_job_written_once [OF demo_reachable] by (simp add: demo_busy_def)

text \<open>
  C3.  A call that ended with a failure the error type calls retryable was never written to a worker,
  so retrying it cannot run the code twice, as long as fewer than \<open>2 ^ 64\<close> calls were made.
\<close>

theorem pool_retry_safe:
  assumes "pool_reachable l ps v s" "length (sys_tasks s) < 2 ^ 64"
    and "Done (Some n) (Some (Inl e)) \<in> set (sys_tasks s)" "is_retryable e"
  shows "n \<notin> set (sys_sent s)"
proof -
  have "result_ok (Done (Some n) (Some (Inl e)))"
    using pool_results.reach_inv [OF assms(1)] assms(3) by (auto simp: result_inv_def)
  then have "result_unsent (Some (Inl e))"
    using assms(4) by (cases e) (auto simp: is_retryable_def)
  then show ?thesis
    using pool_jobs.reach_inv [OF assms(1)] assms(2,3) by (force simp: job_inv_def)
qed

definition demo_failed :: pool_sys where
  "demo_failed =
     \<lparr>sys_pool = (pool_start demo_launch demo_tuning ''3'')
        \<lparr>lp_next_job := 1, lp_worker_spawns := 1\<rparr>,
      sys_tasks = [Done (Some 0) (Some (Inl (PreDispatch language_python
         ''the protocol listener could not be opened: no port'')))], sys_sent = []\<rparr>"

definition demo_no_port :: spawn_env where
  "demo_no_port = demo_spawn_env\<lparr>se_bind := Some ''no port''\<rparr>"

lemma demo_failed_run:
  "pool_run demo_codec ''x'' None None (demo_run_env\<lparr>re_spawn := demo_no_port\<rparr>)
     (pool_start demo_launch demo_tuning ''3'')
   = Some (Inl (PreDispatch language_python ''the protocol listener could not be opened: no port''),
           sys_pool demo_failed, None)"
  by (simp add: pool_run_def enter_def pool_start_def capacity_def effective_max_workers_def
      effective_max_queue_depth_def acquire_permit_def next_job_id_def pool_dispatch_def
      take_or_spawn_def pool_spawn_def worker_spawn_def demo_no_port_def demo_failed_def
      count_spawn_def leave_def release_permit_def pool_language_def demo_defs)

text \<open>The first call a fresh pool finishes leaves a reachable state.\<close>

lemma first_run_reachable:
  assumes run: "pool_run co code cwd timeout env (pool_start l ps v) = Some (r, p, line)"
    and fits: "\<not> capacity ps < 1"
  shows "pool_reachable l ps v \<lparr>sys_pool = p, sys_tasks = [Done (Some 0) (Some r)],
    sys_sent = (if line = None then [] else [0])\<rparr>" (is "pool_reachable l ps v ?s'")
proof -
  let ?p0 = "pool_start l ps v" and ?i = "pool_init l ps v"
  let ?s1 = "\<lparr>sys_pool = ?p0\<lparr>lp_inflight := 1\<rparr>, sys_tasks = [Waiting], sys_sent = []\<rparr>"
  have ent: "enter ?p0 = (False, ?p0\<lparr>lp_inflight := 1\<rparr>)"
    using fits by (simp add: enter_def pool_start_def)
  have "pool_step ?i ?s1" using pool_step.call_in [of ?i] ent by (simp add: pool_init_def)
  moreover have "pool_reachable l ps v ?i" by (rule reach_init) simp
  ultimately have "pool_reachable l ps v ?s1" by (rule reach_step [rotated])
  moreover have "pool_step\<^sup>*\<^sup>* ?s1 ?s'"
    using moves_steps [OF pool_run_moves [OF run ent], of "[]" "[]"]
    by (cases line) (simp_all add: pool_start_def)
  ultimately show ?thesis by (rule reach_steps)
qed

lemma demo_fits: "\<not> capacity demo_tuning < 1"
  by (simp add: capacity_def effective_max_workers_def effective_max_queue_depth_def demo_defs)

lemma demo_failed_reachable: "pool_reachable demo_launch demo_tuning ''3'' demo_failed"
  using first_run_reachable [OF demo_failed_run demo_fits] by (simp add: demo_failed_def)

theorem pool_retry_safe_witness: "(0 :: u64) \<notin> set (sys_sent demo_failed)"
  by (rule pool_retry_safe [OF demo_failed_reachable, of _ "PreDispatch language_python
        ''the protocol listener could not be opened: no port''"])
    (simp_all add: demo_failed_def is_retryable_def)

text \<open>
  A call that ended with a reply, or with a failure after dispatch, was written to a worker
  whole.
\<close>

theorem pool_answer_was_sent:
  assumes "pool_reachable l ps v s" "length (sys_tasks s) < 2 ^ 64"
    and "Done (Some n) (Some r) \<in> set (sys_tasks s)" "(\<exists>x. r = Inr x) \<or> (\<exists>k m. r = Inl (PostDispatch k m))"
  shows "n \<in> set (sys_sent s)"
proof -
  have "surely_sent (Done (Some n) (Some r))" using assms(4) by auto
  then show ?thesis
    using pool_jobs.reach_inv [OF assms(1)] assms(2,3) by (force simp: job_inv_def)
qed

definition demo_response :: exec_response where
  "demo_response =
     \<lparr>xo_stdout = ''42'', xo_stderr = [], xo_exit_code = Some 0, xo_timed_out = False,
      xo_elapsed_ms = 0, xo_queue_wait_ms = 0, xo_runtime_version = ''3''\<rparr>"

definition demo_done :: pool_sys where
  "demo_done =
     \<lparr>sys_pool = (pool_start demo_launch demo_tuning ''3'')
        \<lparr>lp_next_job := 1, lp_worker_spawns := 1, lp_jobs_total := 1,
         lp_idle := [demo_worker\<lparr>wk_jobs_done := 1, wk_last_used := 8\<rparr>]\<rparr>,
      sys_tasks = [Done (Some 0) (Some (Inr demo_response))], sys_sent = [0]\<rparr>"

lemma demo_run:
  "pool_run demo_codec ''x'' None (Some 5) demo_run_env (pool_start demo_launch demo_tuning ''3'')
   = Some (Inr demo_response, sys_pool demo_done, Some ''0\<newline>'')"
proof -
  have dec: "u64_to_string 0 = ''0''"
    by (simp add: u64_to_string_def dec.simps)
  show ?thesis
    by (simp add: pool_run_def enter_def pool_start_def capacity_def effective_max_workers_def
        effective_max_queue_depth_def acquire_permit_def next_job_id_def pool_dispatch_def
        take_or_spawn_def pool_spawn_def worker_spawn_def count_spawn_def leave_def release_permit_def
        pool_language_def demo_defs confine_def verify_handshake_def worker_submit_def make_job_def dec
        past_def hard_deadline_of_def demo_done_def demo_response_def retire_or_park_def count_job_def
        should_recycle_def conclude_def pool_outcome_def with_timings_def with_timed_out_def
        exec_response_new_def elapsed_def u64_of_nat_sat_def dur_as_millis_def Let_def
        word_le_nat_alt)
qed

theorem pool_answer_was_sent_witness: "(0 :: u64) \<in> set (sys_sent demo_done)"
proof -
  have "pool_reachable demo_launch demo_tuning ''3'' demo_done"
    using first_run_reachable [OF demo_run demo_fits] by (simp add: demo_done_def)
  then show ?thesis
    by (rule pool_answer_was_sent [of _ _ _ _ _ "Inr demo_response"]) (simp_all add: demo_done_def)
qed

text \<open>
  A worker that is taken from the parked ones is neither past its idle limit nor exited, and
  every worker discarded on the way is one or the other.
\<close>

lemma take_idle_hands_out_usable:
  "take_idle s now tw ws = (r, left, shut) \<Longrightarrow>
   (\<forall>w. r = Some w \<longrightarrow> \<not> ttl_expired s now w \<and> \<not> has_exited tw w \<and> ws = shut @ w # left)
   \<and> (\<forall>w \<in> set shut. ttl_expired s now w \<or> has_exited tw w) \<and> (r = None \<longrightarrow> left = [])"
  using take_idle_usable [of s now tw ws] take_idle_discards [of s now tw ws r left shut]
    take_idle_length [of s now tw ws r left shut]
  by blast

lemma take_idle_hands_out_usable_example:
  "take_idle pool_settings_default 9 (\<lambda>c. if c = 7 then Exited else StillRunning)
     [demo_worker, demo_worker\<lparr>wk_child := 8\<rparr>] = (Some (demo_worker\<lparr>wk_child := 8\<rparr>), [], [demo_worker])
   \<and> \<not> has_exited (\<lambda>c. if c = 7 then Exited else StillRunning) (demo_worker\<lparr>wk_child := 8\<rparr>)"
proof -
  have t: "take_idle pool_settings_default 9 (\<lambda>c. if c = 7 then Exited else StillRunning)
      [demo_worker, demo_worker\<lparr>wk_child := 8\<rparr>] = (Some (demo_worker\<lparr>wk_child := 8\<rparr>), [], [demo_worker])"
    by (simp add: ttl_expired_def idle_ttl_secs_def idle_expired_def elapsed_def dur_from_secs_def
        has_exited_def demo_defs)
  from take_idle_hands_out_usable [OF t] t show ?thesis by simp
qed

text \<open>
  A call with a time limit always returns once it has a permit: whatever the workers, the
  sockets and the host do, it ends with a reply or an error.
\<close>

theorem pool_run_returns:
  "0 < lp_permits p \<Longrightarrow> pool_run co code cwd (Some t) env p \<noteq> None"
  by (rule pool_run_total)

theorem pool_run_returns_witness:
  "pool_run demo_codec ''x'' None (Some 5) demo_run_env (pool_start demo_launch demo_tuning ''3'') \<noteq> None"
  by (rule pool_run_returns) (simp add: pool_start_def)

subsection \<open>One worker\<close>

text \<open>
  C20.  A failed submit is tagged as dispatched exactly when the worker got the whole job line, and a
  reply is taken only if it answers this very job, was readable before the deadline that was fixed
  when the job was written, or at least before the poll that noticed it, and was received on this worker's stream.
\<close>

theorem worker_submit_truthful:
  "worker_submit co req hard env w = Some ((r, w'), line) \<Longrightarrow>
   (\<forall>f. r = Inl f \<longrightarrow> sf_dispatched f = (line \<noteq> None) \<and> w' = w)
   \<and> (\<forall>x. r = Inr x \<longrightarrow>
        jo_id x = Some (jr_id req) \<and> line \<noteq> None
        \<and> (\<exists>t text. LineAt t text \<in> set (su_stream env) \<and> co_decode co text = Some x
             \<and> \<not> past (map_option (\<lambda>b. su_now env + b + su_lag env) hard) t))"
  by (auto simp: worker_submit_def failure_pre_def failure_post_def
      split: sum.splits option.splits dest!: await_response_Inl_post await_response_Inr) blast

theorem worker_submit_truthful_witness:
  "worker_submit demo_codec (make_job 0 ''x'' None None) (Some 9) demo_submit_env demo_worker
     = Some ((Inr (demo_reply ''0''), demo_worker\<lparr>wk_jobs_done := 1, wk_last_used := 8\<rparr>), Some ''0\<newline>'')
   \<and> jo_id (demo_reply ''0'') = Some (jr_id (make_job 0 ''x'' None None))"
proof -
  have dec: "u64_to_string 0 = ''0''"
    by (simp add: u64_to_string_def dec.simps)
  have run: "worker_submit demo_codec (make_job 0 ''x'' None None) (Some 9) demo_submit_env demo_worker
     = Some ((Inr (demo_reply ''0''), demo_worker\<lparr>wk_jobs_done := 1, wk_last_used := 8\<rparr>), Some ''0\<newline>'')"
    by (simp add: worker_submit_def demo_defs make_job_def dec past_def)
  from worker_submit_truthful [OF run] run show ?thesis by simp
qed

text \<open>
  A handshake is accepted exactly when the child says it is ready, presents the secret this
  launch gave it, and speaks the launch's protocol version.
\<close>

lemma handshake_accepted_iff:
  "verify_handshake h l token = Inr () \<longleftrightarrow>
   hs_ready h \<and> hs_token h = Some token \<and> hs_protocol h = Some (la_protocol_version l)"
  by (auto simp: verify_handshake_def split: option.splits if_splits)

lemma read_handshake_Inr:
  "read_handshake parse a = Inr h \<Longrightarrow> \<exists>line. a = ReadLine line \<and> parse line = Inr h"
  by (cases a) (auto split: sum.splits)

text \<open>
  Only a child that passed the handshake becomes a worker, and it runs the launch's own program
  as confined by the host: a spawner's refusal starts no process at all.
\<close>

theorem worker_spawn_confined:
  "worker_spawn parse l env = (r, started) \<Longrightarrow>
   (case confine (la_spawner l)
           (worker_spec l (case se_local_addr env of Inr a \<Rightarrow> a | Inl e \<Rightarrow> e) (se_token env)) of
      Inl refusal \<Rightarrow> started = None \<and> (\<exists>why. r = Inl why)
    | Inr spec \<Rightarrow> started = None \<or> started = Some spec)
   \<and> (\<forall>w. r = Inr w \<longrightarrow> started \<noteq> None \<and> wk_language w = la_language l
        \<and> (\<exists>line h. se_handshake env = ReadLine line \<and> parse line = Inr h
             \<and> verify_handshake h l (se_token env) = Inr ()))"
  by (auto simp: worker_spawn_def dest!: read_handshake_Inr
      split: option.splits sum.splits accept_answer.splits)

theorem worker_spawn_confined_witness:
  "snd (worker_spawn (co_handshake demo_codec)
     (launch_with_spawner \<lparr>spawner_id = ''jail'', spawner_confine = (\<lambda>_. Inl (SpawnRefused ''no''))\<rparr> demo_launch)
     demo_spawn_env) = None"
proof -
  let ?l = "launch_with_spawner \<lparr>spawner_id = ''jail'', spawner_confine = (\<lambda>_. Inl (SpawnRefused ''no''))\<rparr> demo_launch"
  obtain r started where run: "worker_spawn (co_handshake demo_codec) ?l demo_spawn_env = (r, started)"
    by (metis surj_pair)
  from worker_spawn_confined [OF run] run show ?thesis
    by (simp add: confine_def launch_with_spawner_def)
qed

text \<open>
  A directly started worker sees no variable of the host's environment but \<open>PATH\<close> and those
  on the allow-list: every other name it sees comes from the harness or is one of the two protocol
  variables.
\<close>

theorem worker_environment_allow_listed:
  "la_env l = env_build host bin extra \<Longrightarrow>
   dom (cmd_env (to_command inherited (worker_spec l address token))) \<subseteq>
     {''PATH'', ''TINYRUNTIME_PROTOCOL_ADDR'', ''TINYRUNTIME_PROTOCOL_TOKEN''}
     \<union> (set INHERITED \<inter> dom host) \<union> fst ` set extra"
  using env_build_names [of host bin extra] by (auto simp: dom_to_command worker_spec_def)

theorem worker_environment_allow_listed_witness:
  "''API_KEY'' \<notin> dom (cmd_env (to_command [''API_KEY'' \<mapsto> ''k'', ''HOME'' \<mapsto> ''/h'']
     (worker_spec (demo_launch\<lparr>la_env := env_build [''API_KEY'' \<mapsto> ''k'', ''HOME'' \<mapsto> ''/h''] ''/b'' []\<rparr>) ''a'' ''t'')))"
  using worker_environment_allow_listed
    [of "demo_launch\<lparr>la_env := env_build [''API_KEY'' \<mapsto> ''k'', ''HOME'' \<mapsto> ''/h''] ''/b'' []\<rparr>"
      "[''API_KEY'' \<mapsto> ''k'', ''HOME'' \<mapsto> ''/h'']" "''/b''" "[]" "[''API_KEY'' \<mapsto> ''k'', ''HOME'' \<mapsto> ''/h'']" "''a''" "''t''"]
  by (auto simp: INHERITED_def)

subsection \<open>The registry\<close>



end
