(* ===== verification/Pool_Progress.thy ===== *)
theory Pool_Progress
  imports Pool_Properties
begin

text \<open>
  That the pool never wedges: every move brings its call nearer to its end, and as long as a call is
  not over, some call can move without anybody dropping it.  Together they say that the calls under
  way can always be brought to an end, each with a result, which leaves every permit free.
\<close>

subsection \<open>How far a call is from its end\<close>

fun work :: "task \<Rightarrow> nat" where
  "work (Done n r) = 0"
| "work (Released n r) = 1"
| "work Rejecting = 1"
| "work (Unwinding n r) = 2"
| "work (Answered n r w) = 3"
| "work (InFlight n w) = 4"
| "work (Ready n w) = 5"
| "work (Spawning n) = 6"
| "work (Holding n) = 7"
| "work Waiting = 8"

text \<open>Calls whose caller dropped them.\<close>

fun abandoned :: "task \<Rightarrow> bool" where
  "abandoned (Unwinding n r) \<longleftrightarrow> r = None"
| "abandoned (Released n r) \<longleftrightarrow> r = None"
| "abandoned (Done n r) \<longleftrightarrow> r = None"
| "abandoned t \<longleftrightarrow> False"

definition total_work :: "pool_sys \<Rightarrow> nat" where
  "total_work s = sum_list (map work (sys_tasks s))"

lemma move_works: "move p t p' t' sent \<Longrightarrow> work t' < work t"
  by (induction rule: move.induct) auto

lemma work_done: "work t = 0 \<longleftrightarrow> (\<exists>n r. t = Done n r)"
  by (cases t) auto

lemma idle_holds_nothing: "work t = 0 \<Longrightarrow> \<not> holds_permit t \<and> \<not> counted t"
  by (cases t) (auto simp: counted_def)

lemma count_if_none: "(\<And>x. x \<in> set xs \<Longrightarrow> \<not> P x) \<Longrightarrow> count_if P xs = 0"
  by (induction xs) auto

subsection \<open>Somebody can always move\<close>

lemma call_moves:
  assumes "work t \<noteq> 0" "t = Waiting \<longrightarrow> 0 < lp_permits p"
  shows "\<exists>p' t' sent. move p t p' t' sent \<and> (\<not> abandoned t \<longrightarrow> \<not> abandoned t')"
proof (cases t)
  case Rejecting
  then show ?thesis using move.refuse by fastforce
next
  case Waiting
  then obtain p1 where "acquire_permit p = Some p1" using assms by (auto simp: acquire_permit_def)
  then have "move p Waiting (snd (next_job_id p1)) (Holding (fst (next_job_id p1))) []"
    by (intro move.acquire) simp_all
  then show ?thesis using Waiting by fastforce
next
  case (Holding n)
  obtain w left shut where t: "take_idle (lp_settings p) 0 (\<lambda>_. StillRunning) (lp_idle p) = (w, left, shut)"
    by (metis prod_cases3)
  show ?thesis
  proof (cases w)
    case None
    then show ?thesis using Holding move.take_none [of p 0 "\<lambda>_. StillRunning" left shut n] t by fastforce
  next
    case (Some x)
    then show ?thesis using Holding move.take_parked [of p 0 "\<lambda>_. StillRunning" x left shut n] t by fastforce
  qed
next
  case (Spawning n)
  show ?thesis
  proof (cases "fst (worker_spawn (co_handshake demo_codec) (lp_launch p) demo_spawn_env)")
    case (Inl e)
    then show ?thesis using Spawning move.spawn_failed [OF Inl] by fastforce
  next
    case (Inr w)
    then show ?thesis using Spawning move.spawn_ok [OF Inr] by fastforce
  qed
next
  case (Ready n w)
  then show ?thesis using move.write_ok by fastforce
next
  case (InFlight n w)
  then show ?thesis using move.lost [of "failure_post ''''" p n w] by (fastforce simp: failure_post_def)
next
  case (Answered n r w)
  then show ?thesis using move.park by fastforce
next
  case (Unwinding n r)
  then show ?thesis using move.drop_permit by fastforce
next
  case (Released n r)
  then show ?thesis using move.drop_count by fastforce
next
  case (Done n r)
  then show ?thesis using assms by simp
qed

lemma somebody_moves:
  assumes "permit_inv ps s" "total_work s \<noteq> 0"
  shows "\<exists>i p t sent. i < length (sys_tasks s) \<and> move (sys_pool s) (sys_tasks s ! i) p t sent
    \<and> (\<not> abandoned (sys_tasks s ! i) \<longrightarrow> \<not> abandoned t)"
proof -
  let ?ts = "sys_tasks s"
  have "\<exists>i < length ?ts. work (?ts ! i) \<noteq> 0 \<and> (?ts ! i = Waiting \<longrightarrow> 0 < lp_permits (sys_pool s))"
  proof (cases "\<exists>t \<in> set ?ts. work t \<noteq> 0 \<and> t \<noteq> Waiting")
    case True
    then show ?thesis by (metis in_set_conv_nth)
  next
    case False
    then have "\<not> holds_permit t" if "t \<in> set ?ts" for t
      using that idle_holds_nothing [of t] by (cases "t = Waiting") auto
    then have "count_if holds_permit ?ts = 0" by (simp add: count_if_none)
    then have "0 < lp_permits (sys_pool s)"
      using assms(1) effective_max_workers_pos [of ps] by (simp add: permit_inv_def)
    moreover have "\<exists>t \<in> set ?ts. work t \<noteq> 0"
      using assms(2) by (auto simp: total_work_def)
    ultimately show ?thesis by (metis in_set_conv_nth)
  qed
  then show ?thesis using call_moves by blast
qed

subsection \<open>Bringing every call to its end\<close>

text \<open>A run that settles: every call over, and none dropped that was not dropped before.\<close>

definition settles :: "pool_sys \<Rightarrow> pool_sys \<Rightarrow> bool" where
  "settles s s' \<longleftrightarrow>
     length (sys_tasks s') = length (sys_tasks s)
     \<and> (\<forall>i < length (sys_tasks s). \<exists>n r. sys_tasks s' ! i = Done n r
          \<and> (\<not> abandoned (sys_tasks s ! i) \<longrightarrow> r \<noteq> None))"

lemma sum_list_update_less:
  "i < length xs \<Longrightarrow> f y < f (xs ! i) \<Longrightarrow> sum_list (map f (xs[i := y])) < sum_list (map (f :: 'a \<Rightarrow> nat) xs)"
proof (induction xs arbitrary: i)
  case (Cons x xs)
  then show ?case by (cases i) auto
qed simp

lemma settles_move:
  assumes "i < length (sys_tasks s)" "\<not> abandoned (sys_tasks s ! i) \<longrightarrow> \<not> abandoned t"
    and "settles (s\<lparr>sys_pool := p, sys_tasks := (sys_tasks s)[i := t], sys_sent := sent\<rparr>) s'"
  shows "settles s s'"
  using assms unfolding settles_def by (auto simp: nth_list_update split: if_splits)

lemma can_settle:
  "permit_inv ps s \<Longrightarrow> \<exists>s'. pool_step\<^sup>*\<^sup>* s s' \<and> settles s s'"
proof (induction s rule: measure_induct_rule [where f = total_work])
  case (less s)
  show ?case
  proof (cases "total_work s = 0")
    case True
    then have "\<exists>n r. sys_tasks s ! i = Done n r" if "i < length (sys_tasks s)" for i
      using that work_done by (auto simp: total_work_def)
    then have "settles s s" unfolding settles_def by fastforce
    then show ?thesis by blast
  next
    case False
    then obtain i p t sent where i: "i < length (sys_tasks s)" "move (sys_pool s) (sys_tasks s ! i) p t sent"
        and kept: "\<not> abandoned (sys_tasks s ! i) \<longrightarrow> \<not> abandoned t"
      using somebody_moves [OF less.prems] by blast
    let ?s1 = "s\<lparr>sys_pool := p, sys_tasks := (sys_tasks s)[i := t], sys_sent := sys_sent s @ sent\<rparr>"
    have step: "pool_step s ?s1" using i by (rule pool_step.advance)
    have "total_work ?s1 < total_work s"
      using sum_list_update_less [OF i(1), of work t] move_works [OF i(2)] by (simp add: total_work_def)
    then obtain s' where s': "pool_step\<^sup>*\<^sup>* ?s1 s'" "settles ?s1 s'"
      using less.IH permit_inv_step [OF step less.prems] by blast
    then show ?thesis
      using settles_move [OF i(1) kept] step by (meson converse_rtranclp_into_rtranclp)
  qed
qed

lemma settled_pool:
  assumes "pool_reachable l ps v s'" "settles s s'"
  shows "lp_permits (sys_pool s') = unat (effective_max_workers ps) \<and> lp_inflight (sys_pool s') = 0"
proof -
  have "work t = 0" if "t \<in> set (sys_tasks s')" for t
    using that assms(2) unfolding settles_def by (metis in_set_conv_nth work_done)
  then have "count_if holds_permit (sys_tasks s') = 0" "count_if counted (sys_tasks s') = 0"
    using idle_holds_nothing by (simp_all add: count_if_none)
  moreover have "memory_inv ps s'" "admission_inv ps s'"
    using assms(1) pool_memory.reach_inv pool_admission.reach_inv by blast+
  ultimately show ?thesis by (simp add: memory_inv_def permit_inv_def admission_inv_def)
qed

text \<open>
  C4.  The pool never wedges.  In every reachable state each move of a call brings it strictly nearer
  to its end, so a call makes at most eight; and the calls under way can all be brought to an end
  without anybody dropping one: each gets a result, every permit is free again and the count of
  calls is zero.
\<close>

theorem pool_never_wedges:
  assumes "pool_reachable l ps v s"
  shows "(\<forall>i p t sent. i < length (sys_tasks s) \<and> move (sys_pool s) (sys_tasks s ! i) p t sent \<longrightarrow>
            work t < work (sys_tasks s ! i) \<and> work (sys_tasks s ! i) \<le> 8)
    \<and> (\<exists>s'. pool_step\<^sup>*\<^sup>* s s' \<and> settles s s'
         \<and> lp_permits (sys_pool s') = unat (effective_max_workers ps) \<and> lp_inflight (sys_pool s') = 0)"
proof -
  have "permit_inv ps s" using pool_memory.reach_inv [OF assms] by (simp add: memory_inv_def)
  then obtain s' where s': "pool_step\<^sup>*\<^sup>* s s'" "settles s s'" using can_settle by blast
  moreover have "work t \<le> 8" for t by (cases t) simp_all
  ultimately show ?thesis
    using settled_pool [OF reach_steps [OF assms s'(1)] s'(2)] move_works by blast
qed

theorem pool_never_wedges_witness:
  "\<exists>s' n r. pool_step\<^sup>*\<^sup>* demo_busy s' \<and> length (sys_tasks s') = 2 \<and> sys_tasks s' ! 1 = Done n (Some r)
     \<and> lp_permits (sys_pool s') = 1"
proof -
  obtain s' where s': "pool_step\<^sup>*\<^sup>* demo_busy s'" "settles demo_busy s'"
      "lp_permits (sys_pool s') = unat (effective_max_workers demo_tuning)"
    using pool_never_wedges [OF demo_reachable] by blast
  have "unat (effective_max_workers demo_tuning) = 1"
    by (simp add: effective_max_workers_def demo_tuning_def)
  moreover have "length (sys_tasks s') = 2" "\<exists>n r. sys_tasks s' ! 1 = Done n (Some r)"
    using s'(2) by (auto simp: settles_def demo_busy_def)
  ultimately show ?thesis using s' by auto
qed

end
