(* ===== verification/Filesystem.thy ===== *)
theory Filesystem
  imports Rust_Prelude
begin

text \<open>
  Paths and the filesystem, as \<open>std::path\<close> and \<open>std::fs\<close> present them to the store, the
  resolver and the worker caches.  A path is its string; its view is whether it is absolute and its
  components.  The filesystem is an association list from absolute locations (component names from
  the root) to nodes; resolving a path follows symbolic links, forty at most, as Linux does.  Every
  operation returns the error it raises, if any, with the filesystem after it.  A refusal by the
  host (permissions, a full disk, a device error) is an argument of the operation.
\<close>

subsection \<open>Paths\<close>

datatype component = CurDir | ParentDir | Normal string

type_synonym vpath = "bool \<times> component list"

definition is_absolute :: "string \<Rightarrow> bool" where
  "is_absolute p \<longleftrightarrow> starts_with ''/'' p"

definition component_of :: "string \<Rightarrow> component" where
  "component_of s = (if s = ''.'' then CurDir else if s = ''..'' then ParentDir else Normal s)"

text \<open>Empty pieces vanish, and a dot is kept only in front of a relative path.\<close>

definition components :: "string \<Rightarrow> component list" where
  "components p =
     (let cs = map component_of (filter (\<lambda>s. s \<noteq> []) (split_on (CHR ''/'') p))
      in if is_absolute p then filter (\<lambda>c. c \<noteq> CurDir) cs
         else (case cs of [] \<Rightarrow> [] | c # rest \<Rightarrow> c # filter (\<lambda>c. c \<noteq> CurDir) rest))"

definition view :: "string \<Rightarrow> vpath" where
  "view p = (is_absolute p, components p)"

definition path_join :: "string \<Rightarrow> string \<Rightarrow> string" where
  "path_join base p =
     (if is_absolute p then p
      else if base = [] \<or> ends_with ''/'' base then base @ p
      else base @ ''/'' @ p)"

definition file_name_of :: "vpath \<Rightarrow> string option" where
  "file_name_of v =
     (case rev (snd v) of Normal n # _ \<Rightarrow> Some n | _ \<Rightarrow> None)"

definition parent_of :: "vpath \<Rightarrow> vpath option" where
  "parent_of v = (if snd v = [] then None else Some (fst v, butlast (snd v)))"

text \<open>The name up to its last dot, unless that dot is the first character.\<close>

definition file_stem :: "string \<Rightarrow> string" where
  "file_stem n =
     (let before = dropWhile (\<lambda>c. c \<noteq> CHR ''.'') (rev n)
      in case before of
           [] \<Rightarrow> n
         | _ # stem \<Rightarrow> if stem = [] then n else rev stem)"

definition with_extension :: "string \<Rightarrow> vpath \<Rightarrow> vpath" where
  "with_extension ext v =
     (case file_name_of v of
        None \<Rightarrow> v
      | Some n \<Rightarrow> (fst v, butlast (snd v) @ [Normal (file_stem n @ (if ext = [] then [] else ''.'' @ ext))]))"

definition vpath_starts_with :: "vpath \<Rightarrow> vpath \<Rightarrow> bool" where
  "vpath_starts_with v base \<longleftrightarrow> fst v = fst base \<and> prefix (snd base) (snd v)"

subsection \<open>Nodes and errors\<close>

type_synonym loc = "string list"

datatype node = Dir | File string | Link string

type_synonym fs = "(loc \<times> node) list"

datatype io_error =
    NotFound | AlreadyExists | NotADirectory | IsADirectory | DirectoryNotEmpty
  | InvalidInput | TooManyLinks | HostError string

fun io_to_string :: "io_error \<Rightarrow> string" where
  "io_to_string NotFound = ''No such file or directory (os error 2)''"
| "io_to_string AlreadyExists = ''File exists (os error 17)''"
| "io_to_string NotADirectory = ''Not a directory (os error 20)''"
| "io_to_string IsADirectory = ''Is a directory (os error 21)''"
| "io_to_string DirectoryNotEmpty = ''Directory not empty (os error 39)''"
| "io_to_string InvalidInput = ''Invalid argument (os error 22)''"
| "io_to_string TooManyLinks = ''Too many levels of symbolic links (os error 40)''"
| "io_to_string (HostError e) = e"

definition node_at :: "fs \<Rightarrow> loc \<Rightarrow> node option" where
  "node_at fs l = (if l = [] then Some Dir else map_of fs l)"

subsection \<open>Resolving a path\<close>

function walk :: "nat \<Rightarrow> fs \<Rightarrow> bool \<Rightarrow> loc \<Rightarrow> component list \<Rightarrow> io_error + loc" where
  "walk links fs follow cur [] = Inr cur"
| "walk links fs follow cur (CurDir # cs) = walk links fs follow cur cs"
| "walk links fs follow cur (ParentDir # cs) = walk links fs follow (butlast cur) cs"
| "walk links fs follow cur (Normal n # cs) =
     (case node_at fs (cur @ [n]) of
        None \<Rightarrow> if cs = [] then Inr (cur @ [n]) else Inl NotFound
      | Some Dir \<Rightarrow> walk links fs follow (cur @ [n]) cs
      | Some (File _) \<Rightarrow> if cs = [] then Inr (cur @ [n]) else Inl NotADirectory
      | Some (Link target) \<Rightarrow>
          if cs = [] \<and> \<not> follow then Inr (cur @ [n])
          else case links of
                 0 \<Rightarrow> Inl TooManyLinks
               | Suc left \<Rightarrow>
                   walk left fs follow (if is_absolute target then [] else cur)
                     (components target @ cs))"
  by pat_completeness auto
termination
  by (relation "measures [\<lambda>(links, _). links, \<lambda>(_, _, _, _, cs). length cs]") auto

definition MAX_LINKS :: nat where "MAX_LINKS = 40"

definition locate :: "fs \<Rightarrow> loc \<Rightarrow> bool \<Rightarrow> vpath \<Rightarrow> io_error + loc" where
  "locate fs cwd follow v = walk MAX_LINKS fs follow (if fst v then [] else cwd) (snd v)"

definition canonicalize :: "fs \<Rightarrow> loc \<Rightarrow> vpath \<Rightarrow> io_error + loc" where
  "canonicalize fs cwd v =
     (case locate fs cwd True v of
        Inl e \<Rightarrow> Inl e
      | Inr l \<Rightarrow> if node_at fs l = None then Inl NotFound else Inr l)"

definition path_exists :: "fs \<Rightarrow> loc \<Rightarrow> vpath \<Rightarrow> bool" where
  "path_exists fs cwd v = (case canonicalize fs cwd v of Inl _ \<Rightarrow> False | Inr _ \<Rightarrow> True)"

definition is_dir :: "fs \<Rightarrow> loc \<Rightarrow> vpath \<Rightarrow> bool" where
  "is_dir fs cwd v =
     (case canonicalize fs cwd v of Inl _ \<Rightarrow> False | Inr l \<Rightarrow> node_at fs l = Some Dir)"

text \<open>\<open>symlink_metadata\<close>: the node itself, links not followed at the end.\<close>

definition lstat :: "fs \<Rightarrow> loc \<Rightarrow> vpath \<Rightarrow> io_error + node" where
  "lstat fs cwd v =
     (case locate fs cwd False v of
        Inl e \<Rightarrow> Inl e
      | Inr l \<Rightarrow> (case node_at fs l of None \<Rightarrow> Inl NotFound | Some n \<Rightarrow> Inr n))"

definition children :: "fs \<Rightarrow> loc \<Rightarrow> (string \<times> node) list" where
  "children fs d =
     map (\<lambda>(l, n). (last l, n)) (filter (\<lambda>(l, _). l \<noteq> [] \<and> butlast l = d) fs)"

definition read_dir :: "fs \<Rightarrow> loc \<Rightarrow> vpath \<Rightarrow> io_error + (string \<times> node) list" where
  "read_dir fs cwd v =
     (case canonicalize fs cwd v of
        Inl e \<Rightarrow> Inl e
      | Inr l \<Rightarrow> if node_at fs l = Some Dir then Inr (children fs l) else Inl NotADirectory)"

subsection \<open>Changing the tree\<close>

definition mkdir :: "fs \<Rightarrow> loc \<Rightarrow> vpath \<Rightarrow> io_error option \<times> fs" where
  "mkdir fs cwd v =
     (case locate fs cwd False v of
        Inl e \<Rightarrow> (Some e, fs)
      | Inr l \<Rightarrow> if node_at fs l \<noteq> None then (Some AlreadyExists, fs) else (None, (l, Dir) # fs))"

text \<open>The components are given from the last one back.\<close>

fun mkdirs :: "loc \<Rightarrow> bool \<Rightarrow> component list \<Rightarrow> fs \<Rightarrow> io_error option \<times> fs" where
  "mkdirs cwd ab [] fs = (None, fs)"
| "mkdirs cwd ab (c # rcs) fs =
     (let v = (ab, rev (c # rcs))
      in case mkdir fs cwd v of
           (None, fs1) \<Rightarrow> (None, fs1)
         | (Some NotFound, _) \<Rightarrow>
             (case mkdirs cwd ab rcs fs of
                (Some e, fs1) \<Rightarrow> (Some e, fs1)
              | (None, fs1) \<Rightarrow>
                  (case mkdir fs1 cwd v of
                     (None, fs2) \<Rightarrow> (None, fs2)
                   | (Some e, _) \<Rightarrow> (if is_dir fs1 cwd v then None else Some e, fs1)))
         | (Some e, _) \<Rightarrow> (if is_dir fs cwd v then None else Some e, fs))"

definition create_dir_all :: "io_error option \<Rightarrow> loc \<Rightarrow> vpath \<Rightarrow> fs \<Rightarrow> io_error option \<times> fs" where
  "create_dir_all refused cwd v fs =
     (case refused of Some e \<Rightarrow> (Some e, fs) | None \<Rightarrow> mkdirs cwd (fst v) (rev (snd v)) fs)"

definition relocate :: "loc \<Rightarrow> loc \<Rightarrow> fs \<Rightarrow> fs" where
  "relocate f t fs =
     map (\<lambda>(l, n). (if prefix f l then t @ drop (length f) l else l, n))
       (filter (\<lambda>(l, _). \<not> prefix t l) fs)"

definition rename :: "io_error option \<Rightarrow> loc \<Rightarrow> vpath \<Rightarrow> vpath \<Rightarrow> fs \<Rightarrow> io_error option \<times> fs" where
  "rename refused cwd from to fs =
     (case refused of Some e \<Rightarrow> (Some e, fs) | None \<Rightarrow>
      case locate fs cwd False from of Inl e \<Rightarrow> (Some e, fs) | Inr f \<Rightarrow>
      case node_at fs f of None \<Rightarrow> (Some NotFound, fs) | Some moved \<Rightarrow>
      case locate fs cwd False to of Inl e \<Rightarrow> (Some e, fs) | Inr t \<Rightarrow>
      if f = t then (None, fs)
      else if prefix f t then (Some InvalidInput, fs)
      else if prefix t f then (Some DirectoryNotEmpty, fs)
      else case node_at fs t of
             None \<Rightarrow> (None, relocate f t fs)
           | Some Dir \<Rightarrow>
               if moved \<noteq> Dir then (Some IsADirectory, fs)
               else if children fs t \<noteq> [] then (Some DirectoryNotEmpty, fs)
               else (None, relocate f t fs)
           | Some _ \<Rightarrow>
               if moved = Dir then (Some NotADirectory, fs) else (None, relocate f t fs))"

text \<open>
  \<open>remove_dir_all\<close>: a link is removed itself, a directory with all below it.  When the host
  refuses part of the way, \<open>stays\<close> says which locations are still there.
\<close>

record removal =
  rm_refused :: "io_error option"
  rm_stays :: "loc \<Rightarrow> bool"

definition remove_dir_all :: "removal \<Rightarrow> loc \<Rightarrow> vpath \<Rightarrow> fs \<Rightarrow> io_error option \<times> fs" where
  "remove_dir_all rm cwd v fs =
     (case locate fs cwd False v of
        Inl e \<Rightarrow> (Some e, fs)
      | Inr l \<Rightarrow>
          (case node_at fs l of
             None \<Rightarrow> (Some NotFound, fs)
           | Some (File _) \<Rightarrow> (Some NotADirectory, fs)
           | Some _ \<Rightarrow>
               (case rm_refused rm of
                  Some e \<Rightarrow> (Some e, filter (\<lambda>(k, _). prefix l k \<longrightarrow> rm_stays rm k) fs)
                | None \<Rightarrow> (None, filter (\<lambda>(k, _). \<not> prefix l k) fs))))"

definition remove_file :: "io_error option \<Rightarrow> loc \<Rightarrow> vpath \<Rightarrow> fs \<Rightarrow> io_error option \<times> fs" where
  "remove_file refused cwd v fs =
     (case refused of Some e \<Rightarrow> (Some e, fs) | None \<Rightarrow>
      case locate fs cwd False v of Inl e \<Rightarrow> (Some e, fs) | Inr l \<Rightarrow>
      case node_at fs l of
        None \<Rightarrow> (Some NotFound, fs)
      | Some Dir \<Rightarrow> (Some IsADirectory, fs)
      | Some _ \<Rightarrow> (None, filter (\<lambda>(k, _). k \<noteq> l) fs))"

text \<open>Creating or truncating a file and writing it: the bytes that got there.\<close>

definition write_file :: "string \<Rightarrow> loc \<Rightarrow> vpath \<Rightarrow> fs \<Rightarrow> io_error option \<times> fs" where
  "write_file content cwd v fs =
     (case locate fs cwd True v of
        Inl e \<Rightarrow> (Some e, fs)
      | Inr l \<Rightarrow>
          (case node_at fs l of
             Some Dir \<Rightarrow> (Some IsADirectory, fs)
           | _ \<Rightarrow> (None, (l, File content) # filter (\<lambda>(k, _). k \<noteq> l) fs)))"

subsection \<open>Lemmas on the tree\<close>

lemma map_of_filter_key: "map_of (filter (\<lambda>(k, _). P k) fs) l = (if P l then map_of fs l else None)"
  by (induction fs) auto

lemma map_of_relocate:
  assumes "\<not> prefix t f" "\<not> prefix f t"
  shows "map_of (relocate f t fs) l =
    (if prefix t l then map_of fs (f @ drop (length t) l)
     else if prefix f l then None else map_of fs l)"
proof (induction fs)
  case Nil
  then show ?case by (simp add: relocate_def)
next
  case (Cons e fs)
  obtain k n where e: "e = (k, n)" by (cases e)
  show ?case
  proof (cases "prefix t k")
    case True
    then have "relocate f t (e # fs) = relocate f t fs" by (simp add: relocate_def e)
    moreover have "prefix t l \<Longrightarrow> f @ drop (length t) l \<noteq> k"
      using True assms by (metis prefix_def prefix_same_cases prefixI)
    moreover have "\<not> prefix t l \<Longrightarrow> k \<noteq> l" using True by auto
    ultimately show ?thesis using Cons by (auto simp: e)
  next
    case False
    then have r: "relocate f t (e # fs) = (if prefix f k then t @ drop (length f) k else k, n) # relocate f t fs"
      by (simp add: relocate_def e)
    show ?thesis
    proof (cases "prefix f k")
      case True
      then obtain z where z: "k = f @ z" by (auto simp: prefix_def)
      show ?thesis
        using Cons r False assms by (auto simp: e z prefix_def)
    next
      case notf: False
      then show ?thesis
        using Cons r False by (auto simp: e)
    qed
  qed
qed

lemma node_at_relocate:
  assumes "\<not> prefix t f" "\<not> prefix f t"
  shows "node_at (relocate f t fs) l =
    (if prefix t l then node_at fs (f @ drop (length t) l)
     else if prefix f l then None else node_at fs l)"
  using assms by (auto simp: node_at_def map_of_relocate)

lemma node_at_filter:
  "(\<And>k. k = [] \<Longrightarrow> P k) \<Longrightarrow>
   node_at (filter (\<lambda>(k, _). P k) fs) l = (if P l then node_at fs l else None)"
  by (auto simp: node_at_def map_of_filter_key)

text \<open>
  A plain location: every step on the way to it is a directory, so resolving it needs no link.
\<close>

definition plain :: "fs \<Rightarrow> loc \<Rightarrow> bool" where
  "plain fs l \<longleftrightarrow> l \<noteq> [] \<and> (\<forall>k. strict_prefix k l \<longrightarrow> node_at fs k = Some Dir)"

lemma strict_prefix_take: "strict_prefix k l \<longleftrightarrow> (\<exists>n < length l. k = take n l)"
proof
  assume "strict_prefix k l"
  then have "k = take (length k) l" "length k < length l"
    by (auto simp: strict_prefix_def prefix_def)
  then show "\<exists>n < length l. k = take n l" by blast
next
  assume "\<exists>n < length l. k = take n l"
  then show "strict_prefix k l" by (auto simp: strict_prefix_def take_is_prefix)
qed

lemma plain_check:
  "plain fs l \<longleftrightarrow> l \<noteq> [] \<and> list_all (\<lambda>n. node_at fs (take n l) = Some Dir) [0..<length l]"
  unfolding plain_def strict_prefix_take list_all_iff by auto blast

definition path_to :: "loc \<Rightarrow> vpath" where
  "path_to l = (True, map Normal l)"

lemma walk_dirs:
  "(\<And>k. strict_prefix k (cur @ rest) \<Longrightarrow> node_at fs k = Some Dir) \<Longrightarrow>
   (follow \<Longrightarrow> \<forall>t. node_at fs (cur @ rest) \<noteq> Some (Link t)) \<Longrightarrow>
   walk links fs follow cur (map Normal rest) = Inr (cur @ rest)"
proof (induction rest arbitrary: cur)
  case Nil
  then show ?case by simp
next
  case (Cons n rest)
  show ?case
  proof (cases rest)
    case Nil
    then show ?thesis using Cons.prems
      by (auto split: option.splits node.splits nat.splits)
  next
    case (Cons m ms)
    then have "node_at fs (cur @ [n]) = Some Dir"
      using Cons.prems(1) [of "cur @ [n]"] by (auto simp: strict_prefix_def prefix_def)
    then show ?thesis
      using Cons.IH [of "cur @ [n]"] Cons.prems by simp
  qed
qed

lemma locate_plain: "plain fs l \<Longrightarrow> locate fs cwd False (path_to l) = Inr l"
  using walk_dirs [of "[]" l fs False MAX_LINKS] by (simp add: locate_def path_to_def plain_def)

lemma locate_plain_follow:
  "plain fs l \<Longrightarrow> \<forall>t. node_at fs l \<noteq> Some (Link t) \<Longrightarrow> locate fs cwd True (path_to l) = Inr l"
  using walk_dirs [of "[]" l fs True MAX_LINKS] by (simp add: locate_def path_to_def plain_def)

end
