(* ===== verification/Store.thy ===== *)
theory Store
  imports Filesystem Router_Error
begin

text \<open>
  Where managed toolchains live and how one lands there: \<open>crates/tinyruntime/src/store\<close> and the
  blocking runner of \<open>crates/tinyruntime/src/blocking\<close>.  Each operation takes the host's
  refusals as arguments and threads the filesystem.  The lemmas show that a promotion either
  installs the whole staged tree or leaves the previous install as it was.
\<close>

subsection \<open>The blocking runner\<close>

datatype 'a join = Finished 'a | DidNotFinish string

definition blocking_run :: "language \<Rightarrow> 'a result join \<Rightarrow> 'a result" where
  "blocking_run l j =
     (case j of
        Finished r \<Rightarrow> r
      | DidNotFinish e \<Rightarrow> Inl (Install l (''the task did not finish: '' @ e)))"

subsection \<open>Locations\<close>

definition cache_root_under :: "string option \<Rightarrow> string option \<Rightarrow> language \<Rightarrow> string" where
  "cache_root_under platform_cache configured l =
     (case configured of
        Some c \<Rightarrow> c
      | None \<Rightarrow>
          (case platform_cache of
             Some p \<Rightarrow> path_join (path_join p ''tinyruntime'') (as_str l)
           | None \<Rightarrow> path_join ''.tinyruntime'' (as_str l)))"

definition cache_root :: "string option \<Rightarrow> string option \<Rightarrow> language \<Rightarrow> string" where
  "cache_root dirs_cache_dir configured l = cache_root_under dirs_cache_dir configured l"

definition ensure_root ::
  "io_error option \<Rightarrow> loc \<Rightarrow> string \<Rightarrow> fs \<Rightarrow> unit result \<times> fs" where
  "ensure_root refused cwd root fs =
     (case create_dir_all refused cwd (view root) fs of
        (Some e, fs1) \<Rightarrow> (Inl (Storage (io_to_string e)), fs1)
      | (None, fs1) \<Rightarrow> (Inr (), fs1))"

definition STAGING_PREFIX :: string where "STAGING_PREFIX = ''.stage-''"

definition staging_dir :: "u32 \<Rightarrow> string \<Rightarrow> string \<Rightarrow> string" where
  "staging_dir pid uuid root = path_join root (STAGING_PREFIX @ dec (unat pid) @ ''-'' @ uuid)"

definition is_staging :: "string \<Rightarrow> bool" where
  "is_staging p =
     (case file_name_of (view p) of None \<Rightarrow> False | Some n \<Rightarrow> starts_with STAGING_PREFIX n)"

definition is_inside :: "fs \<Rightarrow> loc \<Rightarrow> string \<Rightarrow> string \<Rightarrow> bool" where
  "is_inside fs cwd root candidate =
     (case (canonicalize fs cwd (view root), canonicalize fs cwd (view candidate)) of
        (Inr r, Inr c) \<Rightarrow> prefix r c
      | _ \<Rightarrow> False)"

subsection \<open>Promotion\<close>

text \<open>What the host refuses during one promotion, call by call.\<close>

record promote_env =
  pv_pid :: u32
  pv_mkdir :: "io_error option"
  pv_clear :: removal
  pv_aside :: "io_error option"
  pv_place :: "io_error option"
  pv_restore :: "io_error option"
  pv_cleanup :: removal

definition install_failed :: "language \<Rightarrow> string \<Rightarrow> io_error \<Rightarrow> error" where
  "install_failed l what e = Install l (what @ '': '' @ io_to_string e)"

definition aside_of :: "u32 \<Rightarrow> vpath \<Rightarrow> vpath" where
  "aside_of pid destination = with_extension (''replaced-'' @ dec (unat pid)) destination"

definition prepare_parent ::
  "promote_env \<Rightarrow> loc \<Rightarrow> vpath \<Rightarrow> fs \<Rightarrow> io_error option \<times> fs" where
  "prepare_parent env cwd destination fs =
     (case parent_of destination of
        None \<Rightarrow> (None, fs)
      | Some parent \<Rightarrow> create_dir_all (pv_mkdir env) cwd parent fs)"

definition promote_blocking ::
  "promote_env \<Rightarrow> loc \<Rightarrow> vpath \<Rightarrow> vpath \<Rightarrow> language \<Rightarrow> fs \<Rightarrow> unit result \<times> fs" where
  "promote_blocking env cwd staged destination l fs =
     (case prepare_parent env cwd destination fs of
        (Some e, fs1) \<Rightarrow> (Inl (install_failed l ''the cache root could not be created'' e), fs1)
      | (None, fs1) \<Rightarrow>
      if path_exists fs1 cwd destination then
        (let aside = aside_of (pv_pid env) destination;
             fs2 = snd (remove_dir_all (pv_clear env) cwd aside fs1)
         in case rename (pv_aside env) cwd destination aside fs2 of
              (Some e, fs3) \<Rightarrow>
                (Inl (install_failed l ''the existing install could not be moved aside'' e), fs3)
            | (None, fs3) \<Rightarrow>
            case rename (pv_place env) cwd staged destination fs3 of
              (Some e, fs4) \<Rightarrow>
                (case rename (pv_restore env) cwd aside destination fs4 of
                   (Some r, fs5) \<Rightarrow>
                     (Inl (Install l
                        (''the toolchain could not be installed ('' @ io_to_string e
                         @ '') and the previous one could not be restored ('' @ io_to_string r
                         @ '')'')), fs5)
                 | (None, fs5) \<Rightarrow>
                     (Inl (install_failed l
                        ''the unpacked toolchain could not be moved into place'' e), fs5))
            | (None, fs4) \<Rightarrow>
                (Inr (), snd (remove_dir_all (pv_cleanup env) cwd aside fs4)))
      else case rename (pv_place env) cwd staged destination fs1 of
             (Some e, fs2) \<Rightarrow>
               (Inl (install_failed l
                  ''the unpacked toolchain could not be moved into place'' e), fs2)
           | (None, fs2) \<Rightarrow> (Inr (), fs2))"

text \<open>A blocking task that does not finish has changed nothing in this model.\<close>

definition promote ::
  "string option \<Rightarrow> promote_env \<Rightarrow> loc \<Rightarrow> vpath \<Rightarrow> vpath \<Rightarrow> language \<Rightarrow> fs \<Rightarrow> unit result \<times> fs" where
  "promote panics env cwd staged destination l fs =
     (case panics of
        Some e \<Rightarrow> (blocking_run l (DidNotFinish e), fs)
      | None \<Rightarrow>
          (case promote_blocking env cwd staged destination l fs of
             (r, fs1) \<Rightarrow> (blocking_run l (Finished r), fs1)))"

definition discard :: "removal \<Rightarrow> loc \<Rightarrow> vpath \<Rightarrow> fs \<Rightarrow> fs" where
  "discard rm cwd v fs = snd (remove_dir_all rm cwd v fs)"

subsection \<open>The install lock\<close>

definition lock_path :: "vpath \<Rightarrow> vpath" where
  "lock_path install_dir = with_extension ''lock'' install_dir"

record lock_env =
  lk_mkdir :: "io_error option"
  lk_open :: "io_error option"
  lk_lock :: "io_error option"
  lk_panics :: "string option"

text \<open>Opening creates the file when it is absent and truncates nothing.\<close>

definition open_lock_file :: "io_error option \<Rightarrow> loc \<Rightarrow> vpath \<Rightarrow> fs \<Rightarrow> (io_error + loc) \<times> fs" where
  "open_lock_file refused cwd v fs =
     (case refused of Some e \<Rightarrow> (Inl e, fs) | None \<Rightarrow>
      case locate fs cwd True v of Inl e \<Rightarrow> (Inl e, fs) | Inr l \<Rightarrow>
      case node_at fs l of
        Some Dir \<Rightarrow> (Inl IsADirectory, fs)
      | Some _ \<Rightarrow> (Inr l, fs)
      | None \<Rightarrow> (Inr l, (l, File []) # fs))"

text \<open>
  \<open>InstallLock::acquire\<close>: the lock is the location of the locked file.  Waiting for another
  holder is the scheduler's; this is the call that is let through.
\<close>

definition lock_acquire ::
  "lock_env \<Rightarrow> loc \<Rightarrow> vpath \<Rightarrow> language \<Rightarrow> fs \<Rightarrow> loc result \<times> fs" where
  "lock_acquire env cwd install_dir l fs =
     (case (case parent_of (lock_path install_dir) of
              None \<Rightarrow> (None, fs)
            | Some parent \<Rightarrow> create_dir_all (lk_mkdir env) cwd parent fs) of
        (Some e, fs1) \<Rightarrow> (Inl (Storage (io_to_string e)), fs1)
      | (None, fs1) \<Rightarrow>
      case lk_panics env of
        Some e \<Rightarrow> (blocking_run l (DidNotFinish e), fs1)
      | None \<Rightarrow>
      case open_lock_file (lk_open env) cwd (lock_path install_dir) fs1 of
        (Inl e, fs2) \<Rightarrow> (Inl (install_failed l ''the install lock could not be opened'' e), fs2)
      | (Inr file, fs2) \<Rightarrow>
          (case lk_lock env of
             Some e \<Rightarrow> (Inl (install_failed l ''the install lock could not be taken'' e), fs2)
           | None \<Rightarrow> (Inr file, fs2)))"

subsection \<open>Directories that are there already\<close>

lemma canonicalize_plain_dir:
  "plain fs l \<Longrightarrow> node_at fs l = Some Dir \<Longrightarrow> canonicalize fs cwd (path_to l) = Inr l"
  by (simp add: canonicalize_def locate_plain_follow)

lemma plain_parent:
  assumes "plain fs l"
  shows "node_at fs (butlast l) = Some Dir" "butlast l = [] \<or> plain fs (butlast l)"
proof -
  have l: "l \<noteq> []" and up: "\<And>k. strict_prefix k l \<Longrightarrow> node_at fs k = Some Dir"
    using assms by (auto simp: plain_def)
  have "strict_prefix (butlast l) l"
    using l by (metis append_butlast_last_id prefixI strict_prefix_def butlast_snoc not_Cons_self2 append_self_conv)
  then show "node_at fs (butlast l) = Some Dir" and "butlast l = [] \<or> plain fs (butlast l)"
    using up by (auto simp: plain_def)
qed

lemma create_dir_all_there:
  assumes "d = [] \<or> plain fs d" "node_at fs d = Some Dir"
  shows "create_dir_all None cwd (path_to d) fs = (None, fs)"
proof (cases d rule: rev_cases)
  case Nil
  then show ?thesis by (simp add: create_dir_all_def path_to_def)
next
  case (snoc up c)
  then have plain: "plain fs d" using assms by simp
  have "mkdir fs cwd (path_to d) = (Some AlreadyExists, fs)"
    using locate_plain [OF plain, of cwd] assms(2) by (simp add: mkdir_def)
  moreover have "is_dir fs cwd (path_to d)"
    using canonicalize_plain_dir [OF plain assms(2), of cwd] assms(2) by (simp add: is_dir_def)
  ultimately show ?thesis
    using snoc by (simp add: create_dir_all_def path_to_def)
qed

lemma prepare_parent_there:
  assumes "plain fs d" "pv_mkdir env = None"
  shows "prepare_parent env cwd (path_to d) fs = (None, fs)"
proof -
  have "parent_of (path_to d) = Some (path_to (butlast d))"
    using assms(1) by (simp add: parent_of_def path_to_def plain_def map_butlast)
  then show ?thesis
    using create_dir_all_there [of "butlast d" fs cwd] plain_parent [OF assms(1)] assms(2)
    by (simp add: prepare_parent_def)
qed

subsection \<open>Renames and removals of plain locations\<close>

definition apart :: "loc \<Rightarrow> loc \<Rightarrow> bool" where
  "apart a b \<longleftrightarrow> \<not> prefix a b \<and> \<not> prefix b a"

lemma apart_sym: "apart a b \<Longrightarrow> apart b a"
  by (simp add: apart_def)

lemma apart_below: "apart a b \<Longrightarrow> \<not> prefix a (b @ x)"
  unfolding apart_def by (metis prefix_same_cases prefixI)

lemma apart_above: "apart a b \<Longrightarrow> prefix k b \<Longrightarrow> \<not> prefix a k"
  unfolding apart_def by (meson prefix_order.trans)

lemma strict_prefix_snoc: "strict_prefix k (xs @ [x]) \<longleftrightarrow> prefix k xs"
  by (auto simp: strict_prefix_def)

lemma plain_cong:
  "plain fs l \<Longrightarrow> (\<And>k. strict_prefix k l \<Longrightarrow> node_at fs' k = node_at fs k) \<Longrightarrow> plain fs' l"
  by (simp add: plain_def)

lemma rename_failed: "rename r cwd f t fs = (Some e, fs') \<Longrightarrow> fs' = fs"
  by (auto simp: rename_def split: option.splits sum.splits if_splits node.splits)

lemma rename_done:
  assumes "rename r cwd (path_to f) (path_to t) fs = (None, fs')" "plain fs f" "plain fs t" "f \<noteq> t"
  shows "fs' = relocate f t fs \<and> apart f t"
  using assms
  by (auto simp: rename_def locate_plain apart_def split: option.splits sum.splits if_splits node.splits)

lemma rename_free:
  assumes "plain fs f" "plain fs t" "apart f t" "node_at fs f \<noteq> None" "node_at fs t = None"
  shows "rename None cwd (path_to f) (path_to t) fs = (None, relocate f t fs)"
  using assms by (auto simp: rename_def locate_plain apart_def)

lemma relocate_to [simp]: "apart f t \<Longrightarrow> node_at (relocate f t fs) (t @ x) = node_at fs (f @ x)"
  by (simp add: node_at_relocate apart_def)

lemma relocate_from [simp]: "apart f t \<Longrightarrow> node_at (relocate f t fs) (f @ x) = None"
  by (simp add: node_at_relocate apart_def apart_below [unfolded apart_def])

lemma relocate_else:
  "apart f t \<Longrightarrow> \<not> prefix f l \<Longrightarrow> \<not> prefix t l \<Longrightarrow> node_at (relocate f t fs) l = node_at fs l"
  by (simp add: node_at_relocate apart_def)

lemma plain_relocate:
  assumes "plain fs l" "apart f t" "apart f l \<or> f = l" "apart t l \<or> t = l"
  shows "plain (relocate f t fs) l"
proof (rule plain_cong [OF assms(1)])
  fix k assume k: "strict_prefix k l"
  have "\<not> prefix f k" "\<not> prefix t k"
    using k assms(3,4) by (auto simp: apart_def dest: prefix_order.trans prefix_order.less_le_trans
        prefix_order.le_less_trans prefix_order.less_imp_le)
  then show "node_at (relocate f t fs) k = node_at fs k"
    using assms(2) by (rule relocate_else [rotated 1])
qed

lemma remove_dir_all_other:
  assumes "plain fs a" "\<not> prefix a l"
  shows "node_at (snd (remove_dir_all rm cwd (path_to a) fs)) l = node_at fs l"
proof -
  have a: "a \<noteq> []" using assms(1) by (simp add: plain_def)
  have "node_at (filter (\<lambda>(k, _). prefix a k \<longrightarrow> rm_stays rm k) fs) l = node_at fs l"
    using a assms(2) by (subst node_at_filter) auto
  moreover have "node_at (filter (\<lambda>(k, _). \<not> prefix a k) fs) l = node_at fs l"
    using a assms(2) by (subst node_at_filter) auto
  ultimately show ?thesis
    using locate_plain [OF assms(1), of cwd]
    by (auto simp: remove_dir_all_def split: option.splits node.splits)
qed

lemma plain_remove:
  assumes "plain fs l" "plain fs a" "\<not> strict_prefix a l"
  shows "plain (snd (remove_dir_all rm cwd (path_to a) fs)) l"
proof (rule plain_cong [OF assms(1)])
  fix k assume k: "strict_prefix k l"
  then have "\<not> prefix a k" using assms(3) by (meson prefix_order.le_less_trans)
  then show "node_at (snd (remove_dir_all rm cwd (path_to a) fs)) k = node_at fs k"
    using assms(2) by (simp add: remove_dir_all_other)
qed

lemma remove_dir_all_gone:
  assumes "plain fs a" "rm_refused rm = None" "\<forall>c. node_at fs a \<noteq> Some (File c)"
  shows "node_at (snd (remove_dir_all rm cwd (path_to a) fs)) a = None"
proof -
  have a: "a \<noteq> []" using assms(1) by (simp add: plain_def)
  have "node_at (filter (\<lambda>(k, _). \<not> prefix a k) fs) a = None"
    using a by (subst node_at_filter) auto
  then show ?thesis
    using locate_plain [OF assms(1), of cwd] assms(2,3)
    by (auto simp: remove_dir_all_def split: option.splits node.splits)
qed

lemma path_exists_node: "plain fs d \<Longrightarrow> path_exists fs cwd (path_to d) \<Longrightarrow> node_at fs d \<noteq> None"
  using locate_plain_follow [of fs d cwd]
  by (auto simp: path_exists_def canonicalize_def split: sum.splits if_splits)

text \<open>The sibling a previous install waits in.\<close>

definition aside_loc :: "u32 \<Rightarrow> loc \<Rightarrow> loc" where
  "aside_loc pid d = butlast d @ [file_stem (last d) @ ''.replaced-'' @ dec (unat pid)]"

lemma aside_of_path_to: "d \<noteq> [] \<Longrightarrow> aside_of pid (path_to d) = path_to (aside_loc pid d)"
  by (cases d rule: rev_cases)
    (auto simp: aside_of_def with_extension_def file_name_of_def path_to_def aside_loc_def)

lemma aside_plain: "plain fs d \<Longrightarrow> plain fs (aside_loc pid d)"
  by (cases d rule: rev_cases) (simp_all add: plain_def aside_loc_def strict_prefix_snoc)

lemma aside_apart: "d \<noteq> [] \<Longrightarrow> aside_loc pid d \<noteq> d \<Longrightarrow> apart d (aside_loc pid d)"
  by (cases d rule: rev_cases) (auto simp: apart_def aside_loc_def)

subsection \<open>Promotion is all or nothing\<close>

text \<open>The filesystem once the previous install, if any, is out of the way.\<close>

lemma cleared:
  fixes rm :: removal and cwd :: loc
  assumes d: "plain fs d" and ne: "aside_loc pid d \<noteq> d"
  defines "fs2 \<equiv> snd (remove_dir_all rm cwd (aside_of pid (path_to d)) fs)"
  shows "plain fs2 d" "plain fs2 (aside_loc pid d)" "aside_of pid (path_to d) = path_to (aside_loc pid d)"
    "apart d (aside_loc pid d)"
    "\<And>l. \<not> prefix (aside_loc pid d) l \<Longrightarrow> node_at fs2 l = node_at fs l"
proof -
  let ?a = "aside_loc pid d"
  have dn: "d \<noteq> []" using d by (simp add: plain_def)
  show ap: "apart d ?a" using dn ne by (rule aside_apart)
  show eq: "aside_of pid (path_to d) = path_to ?a" using dn by (rule aside_of_path_to)
  have pa: "plain fs ?a" using d by (rule aside_plain)
  show "plain fs2 d" "plain fs2 ?a"
    using ap d pa unfolding fs2_def eq by (auto intro!: plain_remove simp: apart_def)
  show "\<And>l. \<not> prefix ?a l \<Longrightarrow> node_at fs2 l = node_at fs l"
    using pa unfolding fs2_def eq by (rule remove_dir_all_other)
qed

lemma moved_aside:
  assumes d: "plain fs d" and ne: "aside_loc pid d \<noteq> d"
    and r: "rename r cwd (path_to d) (aside_of pid (path_to d))
              (snd (remove_dir_all rm cwd (aside_of pid (path_to d)) fs)) = (None, fs3)"
  shows "plain fs3 d" "plain fs3 (aside_loc pid d)"
    "\<And>x. node_at fs3 (aside_loc pid d @ x) = node_at fs (d @ x)"
    "\<And>x. node_at fs3 (d @ x) = None"
    "\<And>l. \<not> prefix d l \<Longrightarrow> \<not> prefix (aside_loc pid d) l \<Longrightarrow> node_at fs3 l = node_at fs l"
proof -
  let ?a = "aside_loc pid d"
  note c = cleared [OF d ne]
  have ap: "apart d ?a" by (rule c(4))
  have fs3: "fs3 = relocate d ?a (snd (remove_dir_all rm cwd (path_to ?a) fs))"
    using rename_done [OF r [unfolded c(3)]] c(1,2) ne by (auto simp: c(3))
  show "plain fs3 d" "plain fs3 ?a"
    unfolding fs3 using c(1,2) ap apart_sym [OF ap]
    by (auto simp: c(3) intro: plain_relocate)
  show "\<And>x. node_at fs3 (?a @ x) = node_at fs (d @ x)"
    using ap c(5) apart_below [OF apart_sym [OF ap]] by (simp add: fs3 c(3))
  show "\<And>x. node_at fs3 (d @ x) = None" using ap by (simp add: fs3)
  show "\<And>l. \<not> prefix d l \<Longrightarrow> \<not> prefix ?a l \<Longrightarrow> node_at fs3 l = node_at fs l"
    using ap c(5) by (simp add: fs3 c(3) relocate_else)
qed

lemma restore_aside:
  assumes "plain fs3 d" "plain fs3 a" "apart d a" "node_at fs3 a \<noteq> None" "node_at fs3 d = None"
  shows "\<exists>fs5. rename None cwd (path_to a) (path_to d) fs3 = (None, fs5)
    \<and> (\<forall>x. node_at fs5 (d @ x) = node_at fs3 (a @ x))"
  using rename_free [OF assms(2,1) apart_sym [OF assms(3)] assms(4,5)] assms(3)
  by (simp add: apart_sym)

lemma promote_blocking_failure:
  assumes d: "plain fs d" and ne: "aside_loc (pv_pid env) d \<noteq> d"
    and there: "path_exists fs cwd (path_to d)" and restorable: "pv_restore env = None"
    and failed: "promote_blocking env cwd staged (path_to d) l fs = (Inl e, fs')"
  shows "node_at fs' (d @ x) = node_at fs (d @ x)"
proof (cases "pv_mkdir env")
  case (Some err)
  have "d \<noteq> []" using d by (simp add: plain_def)
  then show ?thesis
    using failed Some
    by (simp add: promote_blocking_def prepare_parent_def parent_of_def path_to_def create_dir_all_def)
next
  case None
  let ?a = "aside_of (pv_pid env) (path_to d)" and ?al = "aside_loc (pv_pid env) d"
  let ?fs2 = "snd (remove_dir_all (pv_clear env) cwd ?a fs)"
  note parent = prepare_parent_there [OF d None, of cwd]
  note c = cleared [OF d ne]
  obtain o3 fs3 where r3: "rename (pv_aside env) cwd (path_to d) ?a ?fs2 = (o3, fs3)"
    by (metis surj_pair)
  show ?thesis
  proof (cases o3)
    case (Some err)
    then have "fs' = ?fs2"
      using failed parent there r3 rename_failed [of "pv_aside env" cwd "path_to d" ?a ?fs2 err fs3]
      by (simp add: promote_blocking_def)
    then show ?thesis using c(5) apart_below [OF apart_sym [OF c(4)]] by simp
  next
    case None
    note m = moved_aside [OF d ne r3 [unfolded None]]
    obtain o4 fs4 where r4: "rename (pv_place env) cwd staged (path_to d) fs3 = (o4, fs4)"
      by (metis surj_pair)
    obtain err where o4: "o4 = Some err"
      using failed parent there r3 None r4
      by (cases o4) (auto simp: promote_blocking_def)
    then have fs4: "fs4 = fs3" using r4 rename_failed by blast
    have "node_at fs3 ?al \<noteq> None"
      using m(3) [of "[]"] path_exists_node [OF d there] by simp
    then obtain fs5 where "rename None cwd (path_to ?al) (path_to d) fs3 = (None, fs5)"
        "\<forall>x. node_at fs5 (d @ x) = node_at fs3 (?al @ x)"
      using restore_aside [OF m(1,2) c(4)] m(4) [of "[]"] by auto
    then show ?thesis
      using failed parent there r3 None r4 o4 fs4 restorable m(3) c(3)
      by (simp add: promote_blocking_def)
  qed
qed

lemma place_staged:
  assumes "rename r cwd (path_to s) (path_to d) fs = (None, fs')" "plain fs s" "plain fs d" "apart s d"
  shows "node_at fs' (d @ x) = node_at fs (s @ x)" "node_at fs' (s @ x) = None" "plain fs' d"
proof -
  have "s \<noteq> d" using assms(4) by (auto simp: apart_def)
  then have fs': "fs' = relocate s d fs" using rename_done [OF assms(1-3)] by simp
  show "node_at fs' (d @ x) = node_at fs (s @ x)" "node_at fs' (s @ x) = None"
    using assms(4) by (simp_all add: fs')
  show "plain fs' d" using plain_relocate [OF assms(3,4)] assms(4) by (simp add: fs')
qed

lemma promote_blocking_success:
  assumes d: "plain fs d" and s: "plain fs s" and ne: "aside_loc (pv_pid env) d \<noteq> d"
    and ap: "apart s d" "apart s (aside_loc (pv_pid env) d)"
    and ok: "promote_blocking env cwd (path_to s) (path_to d) l fs = (Inr (), fs')"
  shows "node_at fs' (d @ x) = node_at fs (s @ x) \<and> node_at fs' (s @ x) = None"
proof -
  let ?a = "aside_of (pv_pid env) (path_to d)" and ?al = "aside_loc (pv_pid env) d"
  let ?fs2 = "snd (remove_dir_all (pv_clear env) cwd ?a fs)"
  have mk: "pv_mkdir env = None"
  proof (rule ccontr)
    assume "pv_mkdir env \<noteq> None"
    then show False
      using ok d by (auto simp: promote_blocking_def prepare_parent_def parent_of_def path_to_def
          plain_def create_dir_all_def)
  qed
  note parent = prepare_parent_there [OF d mk, of cwd]
  show ?thesis
  proof (cases "path_exists fs cwd (path_to d)")
    case False
    then have "rename (pv_place env) cwd (path_to s) (path_to d) fs = (None, fs')"
      using ok parent by (auto simp: promote_blocking_def split: prod.splits option.splits)
    then show ?thesis using place_staged [OF _ s d ap(1)] by simp
  next
    case True
    obtain fs3 fs4 where r3: "rename (pv_aside env) cwd (path_to d) ?a ?fs2 = (None, fs3)"
      and r4: "rename (pv_place env) cwd (path_to s) (path_to d) fs3 = (None, fs4)"
      and fs': "fs' = snd (remove_dir_all (pv_cleanup env) cwd ?a fs4)"
      using ok parent True by (auto simp: promote_blocking_def Let_def split: prod.splits option.splits)
    note m = moved_aside [OF d ne r3] and c = cleared [OF d ne]
    have kept: "node_at fs3 l = node_at fs l" if "prefix l s \<or> prefix s l" for l
      using that m(5) ap by (meson apart_above apart_sym apart_below apart_def prefix_order.trans prefix_same_cases)
    have s3: "plain fs3 s"
      using plain_cong [OF s] kept by (simp add: strict_prefix_def)
    note pl = place_staged [OF r4 s3 m(1) ap(1)]
    have a4: "plain fs4 ?al"
    proof -
      have "fs4 = relocate s d fs3" using rename_done [OF r4 s3 m(1)] ap(1) by (auto simp: apart_def)
      then show ?thesis
        using plain_relocate [OF m(2) ap(1)] ap(2) c(4) by simp
    qed
    have "\<not> prefix ?al (d @ x)" "\<not> prefix ?al (s @ x)"
      using apart_below [OF apart_sym [OF c(4)]] apart_below [OF apart_sym [OF ap(2)]] by auto
    then show ?thesis
      using remove_dir_all_other [OF a4] pl kept by (simp add: fs' c(3))
  qed
qed

lemma promote_blocking_unrefused:
  assumes d: "plain fs d" and s: "plain fs s" and ne: "aside_loc (pv_pid env) d \<noteq> d"
    and ap: "apart s d" "apart s (aside_loc (pv_pid env) d)"
    and staged: "node_at fs s \<noteq> None" and dest: "\<forall>t. node_at fs d \<noteq> Some (Link t)"
    and aside: "\<forall>c. node_at fs (aside_loc (pv_pid env) d) \<noteq> Some (File c)"
    and host: "pv_mkdir env = None" "rm_refused (pv_clear env) = None" "pv_aside env = None"
      "pv_place env = None"
  shows "fst (promote_blocking env cwd (path_to s) (path_to d) l fs) = Inr ()"
proof -
  let ?a = "aside_of (pv_pid env) (path_to d)" and ?al = "aside_loc (pv_pid env) d"
  let ?fs2 = "snd (remove_dir_all (pv_clear env) cwd ?a fs)"
  note parent = prepare_parent_there [OF d host(1), of cwd] and c = cleared [OF d ne]
  show ?thesis
  proof (cases "node_at fs d")
    case None
    then have "\<not> path_exists fs cwd (path_to d)" using path_exists_node [OF d] by auto
    then show ?thesis
      using parent rename_free [OF s d ap(1) staged None] host by (simp add: promote_blocking_def)
  next
    case (Some n)
    then have there: "path_exists fs cwd (path_to d)"
      using locate_plain_follow [OF d] dest by (simp add: path_exists_def canonicalize_def)
    have "node_at ?fs2 ?al = None"
      using remove_dir_all_gone [OF aside_plain [OF d] host(2) aside] by (simp add: c(3))
    moreover have "node_at ?fs2 d = Some n"
      using c(5) c(4) Some by (simp add: apart_def)
    ultimately have r3: "rename (pv_aside env) cwd (path_to d) ?a ?fs2 = (None, relocate d ?al ?fs2)"
      using rename_free [OF c(1) c(2) c(4), where cwd = cwd] host(3) by (simp add: c(3))
    note m = moved_aside [OF d ne r3]
    have kept: "node_at (relocate d ?al ?fs2) l = node_at fs l" if "prefix l s" for l
      using that m(5) ap by (meson apart_above apart_sym)
    have "plain (relocate d ?al ?fs2) s"
      using plain_cong [OF s] kept by (simp add: strict_prefix_def)
    then have "rename None cwd (path_to s) (path_to d) (relocate d ?al ?fs2)
        = (None, relocate s d (relocate d ?al ?fs2))"
      using rename_free [OF _ m(1) ap(1)] kept [of s] staged m(4) [of "[]"] by simp
    then show ?thesis
      using parent there r3 host(4) by (simp add: promote_blocking_def Let_def)
  qed
qed

end
