(* ===== verification/Download.thy ===== *)
theory Download
  imports Store
begin

text \<open>
  Fetching an archive and proving it is the one the channel published:
  \<open>crates/tinyruntime/src/download/mod.rs\<close>.  The HTTP client and the SHA-256 function are not
  part of this repository: the client is a function from a request to a status error or the events
  of the body, the digest a function on bytes.  The lemmas show that a fetch that succeeds left
  exactly verified bytes on disk, and that a fetch that fails left none.
\<close>

subsection \<open>The client\<close>

record http_error =
  he_timeout :: bool
  he_connect :: bool
  he_status :: "string option"
  he_body :: bool
  he_decode :: bool

text \<open>A chunk with the host's refusal of writing it, if it refuses; or the transfer breaking.\<close>

datatype body_event = Chunk string "io_error option" | Broken http_error

record http_request =
  hr_url :: string
  hr_headers :: "(string \<times> string) list"

record fetch_env =
  ft_client :: "http_request \<Rightarrow> http_error + body_event list"
  ft_user_agent :: string
  ft_sha256 :: "string \<Rightarrow> string"
  ft_mkdir :: "io_error option"
  ft_create :: "io_error option"
  ft_flush :: "io_error option"
  ft_remove :: "io_error option"

definition sanitise :: "http_error \<Rightarrow> string" where
  "sanitise e =
     (if he_timeout e then ''the request timed out''
      else if he_connect e then ''the connection could not be established''
      else case he_status e of
             Some status \<Rightarrow> ''the channel answered with status '' @ status
           | None \<Rightarrow>
               if he_body e \<or> he_decode e then ''the transfer ended early''
               else ''the request failed'')"

definition download_error :: "language \<Rightarrow> http_error \<Rightarrow> error" where
  "download_error l e = Download l (sanitise e)"

subsection \<open>Streaming to disk\<close>

definition hex_digit :: "nat \<Rightarrow> char" where
  "hex_digit n = (if n < 10 then char_of (48 + n) else char_of (87 + n))"

definition hex_encode :: "string \<Rightarrow> string" where
  "hex_encode s = concat (map (\<lambda>c. [hex_digit (byte c div 16), hex_digit (byte c mod 16)]) s)"

text \<open>The receive loop: what went wrong, if anything did, and the bytes written so far.\<close>

fun receive :: "language \<Rightarrow> body_event list \<Rightarrow> string \<Rightarrow> error option \<times> string" where
  "receive l [] written = (None, written)"
| "receive l (Broken e # evs) written = (Some (download_error l e), written)"
| "receive l (Chunk c refused # evs) written =
     (case refused of
        Some e \<Rightarrow> (Some (Storage (io_to_string e)), written)
      | None \<Rightarrow> receive l evs (written @ c))"

definition request_of :: "fetch_env \<Rightarrow> distribution \<Rightarrow> http_request" where
  "request_of env d =
     \<lparr>hr_url = d_url d, hr_headers = (''user-agent'', ft_user_agent env) # d_headers d\<rparr>"

definition stream_to_file ::
  "fetch_env \<Rightarrow> loc \<Rightarrow> distribution \<Rightarrow> vpath \<Rightarrow> language \<Rightarrow> fs \<Rightarrow> string result \<times> fs" where
  "stream_to_file env cwd d target l fs =
     (case ft_client env (request_of env d) of
        Inl e \<Rightarrow> (Inl (download_error l e), fs)
      | Inr body \<Rightarrow>
      case (case ft_create env of Some e \<Rightarrow> (Some e, fs) | None \<Rightarrow> write_file [] cwd target fs) of
        (Some e, fs1) \<Rightarrow> (Inl (Storage (io_to_string e)), fs1)
      | (None, fs1) \<Rightarrow>
      case receive l body [] of
        (Some e, written) \<Rightarrow> (Inl e, snd (write_file written cwd target fs1))
      | (None, written) \<Rightarrow>
          (case ft_flush env of
             Some e \<Rightarrow> (Inl (Storage (io_to_string e)), snd (write_file written cwd target fs1))
           | None \<Rightarrow>
               (Inr (hex_encode (ft_sha256 env written)),
                snd (write_file written cwd target fs1))))"

definition remove_partial :: "fetch_env \<Rightarrow> loc \<Rightarrow> vpath \<Rightarrow> fs \<Rightarrow> fs" where
  "remove_partial env cwd target fs = snd (remove_file (ft_remove env) cwd target fs)"

definition fetch ::
  "fetch_env \<Rightarrow> loc \<Rightarrow> distribution \<Rightarrow> vpath \<Rightarrow> language \<Rightarrow> fs \<Rightarrow> unit result \<times> fs" where
  "fetch env cwd d target l fs =
     (case (case parent_of target of
              None \<Rightarrow> (None, fs)
            | Some parent \<Rightarrow> create_dir_all (ft_mkdir env) cwd parent fs) of
        (Some e, fs1) \<Rightarrow> (Inl (Storage (io_to_string e)), fs1)
      | (None, fs1) \<Rightarrow>
      case stream_to_file env cwd d target l fs1 of
        (Inl e, fs2) \<Rightarrow> (Inl e, remove_partial env cwd target fs2)
      | (Inr digest, fs2) \<Rightarrow>
          (case d_expected_sha256 d of
             Some expected \<Rightarrow>
               if \<not> eq_ignore_ascii_case expected digest
               then (Inl (DigestMismatch l), remove_partial env cwd target fs2)
               else (Inr (), fs2)
           | None \<Rightarrow> (Inr (), fs2)))"

subsection \<open>What a fetch leaves behind\<close>

definition digest_ok :: "fetch_env \<Rightarrow> distribution \<Rightarrow> string \<Rightarrow> bool" where
  "digest_ok env d content =
     (case d_expected_sha256 d of
        Some expected \<Rightarrow> eq_ignore_ascii_case expected (hex_encode (ft_sha256 env content))
      | None \<Rightarrow> True)"

text \<open>The whole body, when no chunk failed.\<close>

fun body_bytes :: "body_event list \<Rightarrow> string" where
  "body_bytes [] = []"
| "body_bytes (Broken e # evs) = []"
| "body_bytes (Chunk c r # evs) = c @ body_bytes evs"

lemma receive_ok: "receive l evs w = (None, w') \<Longrightarrow> w' = w @ body_bytes evs"
  by (induction l evs w rule: receive.induct) (auto split: option.splits)

lemma node_at_write_filter:
  "t \<noteq> [] \<Longrightarrow> node_at ((t, File c) # filter (\<lambda>(k, _). k \<noteq> t) fs) l =
     (if l = t then Some (File c) else node_at fs l)"
  by (auto simp: node_at_def map_of_filter_key)

lemma write_file_plain:
  assumes "plain fs t" "node_at fs t = None \<or> (\<exists>c. node_at fs t = Some (File c))"
  shows "\<exists>fs'. write_file content cwd (path_to t) fs = (None, fs')
    \<and> (\<forall>l. node_at fs' l = (if l = t then Some (File content) else node_at fs l))"
proof -
  have "t \<noteq> []" using assms(1) by (simp add: plain_def)
  moreover have "locate fs cwd True (path_to t) = Inr t"
    using assms by (intro locate_plain_follow) auto
  ultimately show ?thesis
    using assms(2) by (auto simp: write_file_def node_at_write_filter)
qed

lemma plain_write:
  "plain fs t \<Longrightarrow> \<forall>l. node_at fs' l = (if l = t then x else node_at fs l) \<Longrightarrow> plain fs' t"
  by (erule plain_cong) (auto simp: strict_prefix_def)

lemma stream_to_file_plain:
  assumes t: "plain fs t" "node_at fs t = None \<or> (\<exists>c. node_at fs t = Some (File c))"
    and run: "stream_to_file env cwd d (path_to t) l fs = (r, fs')"
  shows "plain fs' t \<and> (\<forall>k. k \<noteq> t \<longrightarrow> node_at fs' k = node_at fs k)
    \<and> (node_at fs' t = None \<or> (\<exists>c. node_at fs' t = Some (File c)))
    \<and> (\<forall>digest. r = Inr digest \<longrightarrow>
         (\<exists>body content. ft_client env (request_of env d) = Inr body \<and> content = body_bytes body
            \<and> node_at fs' t = Some (File content) \<and> digest = hex_encode (ft_sha256 env content)))"
proof -
  obtain fs1 where w1: "write_file [] cwd (path_to t) fs = (None, fs1)"
      "\<forall>l. node_at fs1 l = (if l = t then Some (File []) else node_at fs l)"
    using write_file_plain [OF t] by blast
  have p1: "plain fs1 t" using plain_write [OF t(1) w1(2)] .
  obtain g where w2: "\<forall>c. write_file c cwd (path_to t) fs1 = (None, g c)"
      "\<forall>c l. node_at (g c) l = (if l = t then Some (File c) else node_at fs1 l)"
    using write_file_plain [OF p1, of _ cwd] w1(2) by simp metis
  have p2: "plain (g c) t" for c using plain_write [OF p1, of "g c" "Some (File c)"] w2(2) by auto
  show ?thesis
    using run t w1 w2 p2
    by (auto simp: stream_to_file_def split: sum.splits option.splits prod.splits dest!: receive_ok)
qed

lemma remove_partial_plain:
  assumes "plain fs t" "node_at fs t = None \<or> (\<exists>c. node_at fs t = Some (File c))" "ft_remove env = None"
  shows "node_at (remove_partial env cwd (path_to t) fs) t = None"
    "k \<noteq> t \<Longrightarrow> node_at (remove_partial env cwd (path_to t) fs) k = node_at fs k"
proof -
  have "t \<noteq> []" using assms(1) by (simp add: plain_def)
  then show "node_at (remove_partial env cwd (path_to t) fs) t = None"
    "k \<noteq> t \<Longrightarrow> node_at (remove_partial env cwd (path_to t) fs) k = node_at fs k"
    using assms locate_plain [OF assms(1), of cwd]
    by (auto simp: remove_partial_def remove_file_def node_at_def map_of_filter_key)
qed

lemma target_parent:
  assumes "plain fs t"
  shows "(case parent_of (path_to t) of None \<Rightarrow> (None, fs)
      | Some parent \<Rightarrow> create_dir_all (ft_mkdir env) cwd parent fs)
    = (case ft_mkdir env of Some e \<Rightarrow> (Some e, fs) | None \<Rightarrow> (None, fs))"
proof -
  have "parent_of (path_to t) = Some (path_to (butlast t))"
    using assms by (simp add: parent_of_def path_to_def plain_def map_butlast)
  then show ?thesis
    using create_dir_all_there [of "butlast t" fs cwd] plain_parent [OF assms]
    by (cases "ft_mkdir env") (auto simp: create_dir_all_def)
qed

lemma fetch_verified:
  assumes t: "plain fs t" "node_at fs t = None \<or> (\<exists>c. node_at fs t = Some (File c))"
    and run: "fetch env cwd d (path_to t) l fs = (Inr (), fs')"
  shows "\<exists>body. ft_client env (request_of env d) = Inr body
    \<and> node_at fs' t = Some (File (body_bytes body)) \<and> digest_ok env d (body_bytes body)
    \<and> (\<forall>k. k \<noteq> t \<longrightarrow> node_at fs' k = node_at fs k)"
proof -
  obtain digest where s: "stream_to_file env cwd d (path_to t) l fs = (Inr digest, fs')"
    and ok: "\<forall>e. d_expected_sha256 d = Some e \<longrightarrow> eq_ignore_ascii_case e digest"
    using run target_parent [OF t(1), of env cwd]
    by (auto simp: fetch_def split: prod.splits option.splits sum.splits if_splits)
  from stream_to_file_plain [OF t s] ok show ?thesis
    by (auto simp: digest_ok_def split: option.splits)
qed

text \<open>
  After a failure: what the host let be removed is gone, and without the parent directory nothing was
  begun.
\<close>

lemma fetch_failed:
  assumes t: "plain fs t" "node_at fs t = None \<or> (\<exists>c. node_at fs t = Some (File c))"
    and run: "fetch env cwd d (path_to t) l fs = (Inl e, fs')"
  shows "(\<forall>k. k \<noteq> t \<longrightarrow> node_at fs' k = node_at fs k)
    \<and> (ft_mkdir env = None \<and> ft_remove env = None \<longrightarrow> node_at fs' t = None)
    \<and> (ft_mkdir env \<noteq> None \<longrightarrow> fs' = fs)"
proof (cases "ft_mkdir env")
  case (Some x)
  then show ?thesis using run target_parent [OF t(1), of env cwd] by (auto simp: fetch_def)
next
  case None
  obtain r fs2 where s: "stream_to_file env cwd d (path_to t) l fs = (r, fs2)" by (metis surj_pair)
  note st = stream_to_file_plain [OF t s]
  have "fs' = remove_partial env cwd (path_to t) fs2"
    using run s target_parent [OF t(1), of env cwd] None
    by (auto simp: fetch_def split: option.splits sum.splits if_splits)
  moreover have "remove_partial env cwd (path_to t) fs2 = fs2" if "ft_remove env \<noteq> None"
    using that by (auto simp: remove_partial_def remove_file_def)
  ultimately show ?thesis using remove_partial_plain [of fs2 t env] st None by (cases "ft_remove env") auto
qed

text \<open>What a failure is: only one the network caused may be retried, and the digest is judged last.\<close>

lemma receive_error: "receive l evs w = (Some e, w') \<Longrightarrow> (\<exists>m. e = Download l m) \<or> (\<exists>m. e = Storage m)"
  by (induction l evs w rule: receive.induct) (auto simp: download_error_def split: option.splits)

lemma stream_to_file_error:
  "stream_to_file env cwd d v l fs = (Inl e, fs') \<Longrightarrow> (\<exists>m. e = Download l m) \<or> (\<exists>m. e = Storage m)"
  by (auto simp: stream_to_file_def download_error_def split: sum.splits option.splits prod.splits dest: receive_error)

lemma fetch_error:
  assumes run: "fetch env cwd d v l fs = (Inl e, fs')"
  shows "(\<exists>m. e = Download l m) \<or> (\<exists>m. e = Storage m)
    \<or> (e = DigestMismatch l \<and> (\<exists>body. ft_client env (request_of env d) = Inr body \<and> \<not> digest_ok env d (body_bytes body)))"
proof -
  obtain q fs1 where up: "(case parent_of v of None \<Rightarrow> (None, fs)
      | Some parent \<Rightarrow> create_dir_all (ft_mkdir env) cwd parent fs) = (q, fs1)" by (metis surj_pair)
  obtain r fs2 where s: "stream_to_file env cwd d v l fs1 = (r, fs2)" by (metis surj_pair)
  show ?thesis
  proof (cases "q = None")
    case False
    then show ?thesis using run up by (auto simp: fetch_def)
  next
    case True
    show ?thesis
    proof (cases r)
      case (Inl e1)
      then show ?thesis using run up s True stream_to_file_error [OF s [unfolded Inl]] by (auto simp: fetch_def)
    next
      case (Inr digest)
      then have "\<exists>body. ft_client env (request_of env d) = Inr body \<and> digest = hex_encode (ft_sha256 env (body_bytes body))"
        using s by (auto simp: stream_to_file_def split: sum.splits option.splits prod.splits dest!: receive_ok)
      then show ?thesis
        using run up s True Inr by (auto simp: fetch_def digest_ok_def split: option.splits if_splits)
    qed
  qed
qed

end
