(* ===== verification/Archive.thy ===== *)
theory Archive
  imports Download
begin

text \<open>
  Unpacking a toolchain archive: \<open>crates/tinyruntime/src/archive\<close>.  The tar, gzip, xz and zip
  crates are not part of this repository: unpacking a tar stream is one function of the bytes, and a
  zip archive is opened into its entries, each with the relative path its \<open>enclosed_name\<close>
  gives.  The loop over the entries and the choice of the single root are the program's own.
\<close>

subsection \<open>Archives\<close>

text \<open>\<open>ze_enclosed\<close> is \<open>None\<close> for a stored path that leaves the directory.\<close>

record zip_entry =
  ze_enclosed :: "string option"
  ze_is_dir :: bool
  ze_content :: string
  ze_mode :: "u32 option"
  ze_mkdir :: "io_error option"
  ze_create :: "io_error option"
  ze_copy :: "io_error option"
  ze_chmod :: "io_error option"

record archive_env =
  ar_open :: "io_error option"
  ar_untar_gz :: "string \<Rightarrow> loc \<Rightarrow> vpath \<Rightarrow> fs \<Rightarrow> io_error option \<times> fs"
  ar_untar_xz :: "string \<Rightarrow> loc \<Rightarrow> vpath \<Rightarrow> fs \<Rightarrow> io_error option \<times> fs"
  ar_unzip :: "string \<Rightarrow> string + (string + zip_entry) list"
  ar_mkdir :: "io_error option"
  ar_list :: "io_error option"
  ar_panics :: "string option"

definition open_archive :: "archive_env \<Rightarrow> loc \<Rightarrow> vpath \<Rightarrow> fs \<Rightarrow> io_error + string" where
  "open_archive env cwd v fs =
     (case ar_open env of Some e \<Rightarrow> Inl e | None \<Rightarrow>
      case canonicalize fs cwd v of Inl e \<Rightarrow> Inl e | Inr l \<Rightarrow>
      case node_at fs l of Some (File c) \<Rightarrow> Inr c | Some Dir \<Rightarrow> Inl IsADirectory | _ \<Rightarrow> Inl NotFound)"

definition zip_io_error :: "string \<Rightarrow> io_error" where
  "zip_io_error e = HostError e"

subsection \<open>Zip entries\<close>

definition unzip_entry :: "loc \<Rightarrow> vpath \<Rightarrow> zip_entry \<Rightarrow> fs \<Rightarrow> io_error option \<times> fs" where
  "unzip_entry cwd destination e fs =
     (if ze_is_dir e then create_dir_all (ze_mkdir e) cwd destination fs
      else
        (case (case parent_of destination of
                 None \<Rightarrow> (None, fs)
               | Some parent \<Rightarrow> create_dir_all (ze_mkdir e) cwd parent fs) of
           (Some err, fs1) \<Rightarrow> (Some err, fs1)
         | (None, fs1) \<Rightarrow>
         case (case ze_create e of Some err \<Rightarrow> (Some err, fs1)
               | None \<Rightarrow> write_file [] cwd destination fs1) of
           (Some err, fs2) \<Rightarrow> (Some err, fs2)
         | (None, fs2) \<Rightarrow>
         case ze_copy e of
           Some err \<Rightarrow> (Some err, fs2)
         | None \<Rightarrow> write_file (ze_content e) cwd destination fs2))"

text \<open>The destination of an entry: its relative path below the staging directory.\<close>

definition entry_destination :: "vpath \<Rightarrow> string \<Rightarrow> vpath" where
  "entry_destination staging relative =
     (if is_absolute relative then view relative
      else (fst staging, snd staging @ filter (\<lambda>c. c \<noteq> CurDir) (components relative)))"

fun unzip_entries :: "loc \<Rightarrow> vpath \<Rightarrow> (string + zip_entry) list \<Rightarrow> fs \<Rightarrow> io_error option \<times> fs" where
  "unzip_entries cwd staging [] fs = (None, fs)"
| "unzip_entries cwd staging (Inl err # es) fs = (Some (zip_io_error err), fs)"
| "unzip_entries cwd staging (Inr e # es) fs =
     (case ze_enclosed e of
        None \<Rightarrow> unzip_entries cwd staging es fs
      | Some relative \<Rightarrow>
          (case unzip_entry cwd (entry_destination staging relative) e fs of
             (Some err, fs1) \<Rightarrow> (Some err, fs1)
           | (None, fs1) \<Rightarrow>
               (case (ze_mode e, ze_chmod e) of
                  (Some _, Some err) \<Rightarrow> (Some err, fs1)
                | _ \<Rightarrow> unzip_entries cwd staging es fs1)))"

subsection \<open>Extraction\<close>

definition unpack_bytes ::
  "archive_env \<Rightarrow> archive_format \<Rightarrow> string \<Rightarrow> loc \<Rightarrow> vpath \<Rightarrow> fs \<Rightarrow> io_error option \<times> fs" where
  "unpack_bytes env format bytes cwd staging fs =
     (case format of
        TarGz \<Rightarrow> ar_untar_gz env bytes cwd staging fs
      | TarXz \<Rightarrow> ar_untar_xz env bytes cwd staging fs
      | Zip \<Rightarrow>
          (case ar_unzip env bytes of
             Inl e \<Rightarrow> (Some (zip_io_error e), fs)
           | Inr entries \<Rightarrow> unzip_entries cwd staging entries fs))"

definition archive_unpack ::
  "archive_env \<Rightarrow> archive_format \<Rightarrow> loc \<Rightarrow> vpath \<Rightarrow> vpath \<Rightarrow> fs \<Rightarrow> io_error option \<times> fs" where
  "archive_unpack env format cwd archive staging fs =
     (case open_archive env cwd archive fs of
        Inl e \<Rightarrow> (Some e, fs)
      | Inr bytes \<Rightarrow> unpack_bytes env format bytes cwd staging fs)"

text \<open>The one directory in the staging directory; links and files beside it do not count.\<close>

definition single_root :: "archive_env \<Rightarrow> loc \<Rightarrow> vpath \<Rightarrow> fs \<Rightarrow> string + string" where
  "single_root env cwd staging fs =
     (case (case ar_list env of Some e \<Rightarrow> Inl e | None \<Rightarrow> read_dir fs cwd staging) of
        Inl e \<Rightarrow> Inl (''the unpacked directory could not be listed: '' @ io_to_string e)
      | Inr entries \<Rightarrow>
          (case map fst (filter (\<lambda>(_, n). n = Dir) entries) of
             [name] \<Rightarrow> Inr name
           | [] \<Rightarrow> Inl ''the archive expanded into no directory at all''
           | found \<Rightarrow> Inl (''the archive expanded into '' @ dec (length found)
                           @ '' directories, not one'')))"

definition archive_install_error :: "language \<Rightarrow> io_error \<Rightarrow> error" where
  "archive_install_error l e = Install l (io_to_string e)"

text \<open>The unpacked root is given as a path: the staging directory with the root's name.\<close>

definition archive_extract ::
  "archive_env \<Rightarrow> loc \<Rightarrow> vpath \<Rightarrow> vpath \<Rightarrow> archive_format \<Rightarrow> language \<Rightarrow> fs \<Rightarrow> vpath result \<times> fs" where
  "archive_extract env cwd archive staging format l fs =
     (case ar_panics env of
        Some e \<Rightarrow> (blocking_run l (DidNotFinish e), fs)
      | None \<Rightarrow>
      case create_dir_all (ar_mkdir env) cwd staging fs of
        (Some e, fs1) \<Rightarrow> (Inl (archive_install_error l e), fs1)
      | (None, fs1) \<Rightarrow>
      case archive_unpack env format cwd archive staging fs1 of
        (Some e, fs2) \<Rightarrow> (Inl (archive_install_error l e), fs2)
      | (None, fs2) \<Rightarrow>
          (case single_root env cwd staging fs2 of
             Inl reason \<Rightarrow> (Inl (Install l reason), fs2)
           | Inr name \<Rightarrow> (Inr (fst staging, snd staging @ [Normal name]), fs2)))"

subsection \<open>Nothing lands outside the staging directory\<close>

text \<open>
  A sealed directory: plain, and with no link anywhere below it, so that a path below it that never
  steps out of it resolves below it.
\<close>

fun within :: "nat \<Rightarrow> component list \<Rightarrow> bool" where
  "within d [] = True"
| "within d (CurDir # cs) = within d cs"
| "within d (ParentDir # cs) = (0 < d \<and> within (d - 1) cs)"
| "within d (Normal n # cs) = within (Suc d) cs"

definition below :: "loc \<Rightarrow> component list \<Rightarrow> vpath" where
  "below s cs = (True, map Normal s @ cs)"

definition sealed :: "fs \<Rightarrow> loc \<Rightarrow> bool" where
  "sealed fs s \<longleftrightarrow> plain fs s \<and> node_at fs s = Some Dir \<and> (\<forall>x t. node_at fs (s @ x) \<noteq> Some (Link t))"

definition only_below :: "loc \<Rightarrow> fs \<Rightarrow> fs \<Rightarrow> bool" where
  "only_below s fs fs' \<longleftrightarrow> sealed fs' s \<and> (\<forall>l. \<not> strict_prefix s l \<longrightarrow> node_at fs' l = node_at fs l)"

lemma only_below_refl: "sealed fs s \<Longrightarrow> only_below s fs fs"
  by (simp add: only_below_def)

lemma only_below_trans: "only_below s a b \<Longrightarrow> only_below s b c \<Longrightarrow> only_below s a c"
  by (simp add: only_below_def)

lemma within_append: "within d (cs @ ds) \<Longrightarrow> within d cs"
  by (induction d cs rule: within.induct) auto

lemma within_no_dots: "within d cs \<Longrightarrow> within d (filter (\<lambda>c. c \<noteq> CurDir) cs)"
  by (induction d cs rule: within.induct) auto

lemma walk_within:
  assumes "\<And>x t. node_at fs (s @ x) \<noteq> Some (Link t)"
  shows "within (length cur) cs \<Longrightarrow> walk links fs follow (s @ cur) cs = Inr l \<Longrightarrow> \<exists>x. l = s @ x"
proof (induction "length cur" cs arbitrary: cur rule: within.induct)
  case (3 cs)
  then have "cur \<noteq> []" by auto
  then show ?case using 3(1) [of "butlast cur"] 3(2,3) by (simp add: butlast_append)
next
  case (4 n cs)
  have no: "node_at fs (s @ cur @ [n]) \<noteq> Some (Link t)" for t using assms .
  show ?case
    using 4(1) [of "cur @ [n]"] 4(2,3) no by (auto split: option.splits node.splits if_splits)
qed auto

lemma walk_through:
  "(\<And>k. strict_prefix k (cur @ rest) \<Longrightarrow> node_at fs k = Some Dir) \<Longrightarrow>
   node_at fs (cur @ rest) = Some Dir \<Longrightarrow>
   walk links fs follow cur (map Normal rest @ cs) = walk links fs follow (cur @ rest) cs"
proof (induction rest arbitrary: cur)
  case (Cons n rest)
  have "node_at fs (cur @ [n]) = Some Dir"
    using Cons.prems by (cases rest) (auto simp: strict_prefix_def prefix_def)
  then show ?case using Cons.IH [of "cur @ [n]"] Cons.prems by simp
qed simp

lemma locate_within:
  assumes "sealed fs s" "within 0 cs" "locate fs cwd follow (below s cs) = Inr l"
  shows "\<exists>x. l = s @ x"
proof -
  have up: "\<And>k. strict_prefix k s \<Longrightarrow> node_at fs k = Some Dir"
    and s: "node_at fs s = Some Dir" and links: "\<And>x t. node_at fs (s @ x) \<noteq> Some (Link t)"
    using assms(1) by (auto simp: sealed_def plain_def)
  have "walk MAX_LINKS fs follow [] (map Normal s @ cs) = walk MAX_LINKS fs follow ([] @ s) cs"
    using up s by (intro walk_through) auto
  then have "walk MAX_LINKS fs follow (s @ []) cs = Inr l"
    using assms(3) by (simp add: locate_def below_def)
  from walk_within [OF links _ this] assms(2) show ?thesis by simp
qed

lemma sealed_add:
  assumes "sealed fs s" "ns \<noteq> []" "\<forall>l. node_at fs' l = (if l = s @ ns then Some n else node_at fs l)"
    "\<forall>t. n \<noteq> Link t"
  shows "only_below s fs fs'"
proof -
  have "plain fs' s"
  proof (rule plain_cong)
    show "plain fs s" using assms(1) by (simp add: sealed_def)
    fix k assume "strict_prefix k s"
    then have "\<not> prefix s k" by (simp add: prefix_order.less_le_not_le)
    then have "k \<noteq> s @ ns" by auto
    then show "node_at fs' k = node_at fs k" using assms(3) by simp
  qed
  then show ?thesis
    using assms by (auto simp: only_below_def sealed_def strict_prefix_def)
qed

lemma mkdir_sealed:
  assumes "sealed fs s" "within 0 cs" "mkdir fs cwd (below s cs) = (r, fs')"
  shows "only_below s fs fs'"
proof (cases "fs' = fs")
  case True
  then show ?thesis using assms(1) by (simp add: only_below_refl)
next
  case False
  then obtain l where l: "locate fs cwd False (below s cs) = Inr l" "fs' = (l, Dir) # fs" "node_at fs l = None"
    using assms(3) by (auto simp: mkdir_def split: sum.splits if_splits)
  then obtain x where x: "l = s @ x" using locate_within [OF assms(1,2)] by blast
  then have "x \<noteq> []" using l(3) assms(1) by (auto simp: sealed_def)
  then show ?thesis
    using assms(1) l(2) x by (intro sealed_add [of fs s x fs' Dir]) (auto simp: node_at_def)
qed

lemma mkdirs_sealed:
  assumes "sealed fs s"
  shows "within 0 cs \<Longrightarrow> mkdirs cwd True (rev (map Normal s @ cs)) fs = (r, fs') \<Longrightarrow> only_below s fs fs'"
proof (induction cs arbitrary: r fs' rule: rev_induct)
  case Nil
  have "create_dir_all None cwd (path_to s) fs = (None, fs)"
    using assms by (intro create_dir_all_there) (auto simp: sealed_def)
  then show ?case using Nil assms by (simp add: create_dir_all_def path_to_def only_below_refl)
next
  case (snoc c cs)
  let ?v = "below s (cs @ [c])"
  obtain r0 fs0 where m: "mkdir fs cwd ?v = (r0, fs0)" by (metis surj_pair)
  obtain r1 fs1 where up: "mkdirs cwd True (rev (map Normal s @ cs)) fs = (r1, fs1)"
    by (metis surj_pair)
  obtain r2 fs2 where m2: "mkdir fs1 cwd ?v = (r2, fs2)" by (metis surj_pair)
  have b0: "only_below s fs fs0" using mkdir_sealed [OF assms snoc.prems(1) m] .
  have b1: "only_below s fs fs1" using snoc.IH [OF within_append [OF snoc.prems(1)] up] .
  have b2: "only_below s fs1 fs2" using mkdir_sealed [OF _ snoc.prems(1) m2] b1 by (simp add: only_below_def)
  have "fs' = fs \<or> fs' = fs0 \<or> fs' = fs1 \<or> fs' = fs2"
    using snoc.prems(2) m up m2
    by (auto simp: below_def Let_def split: option.splits io_error.splits prod.splits)
  then show ?case
    using b0 b1 only_below_trans [OF b1 b2] only_below_refl [OF assms] by auto
qed

lemma create_dir_all_sealed:
  assumes "sealed fs s" "within 0 cs" "create_dir_all r cwd (below s cs) fs = (o', fs')"
  shows "only_below s fs fs'"
proof (cases r)
  case None
  then show ?thesis
    using assms mkdirs_sealed [OF assms(1,2), of cwd] by (simp add: create_dir_all_def below_def)
next
  case (Some e)
  then show ?thesis using assms by (simp add: create_dir_all_def only_below_refl)
qed

text \<open>The parent of the directory itself is there already.\<close>

lemma create_above_sealed:
  assumes "sealed fs s" "create_dir_all r cwd (path_to (butlast s)) fs = (o', fs')"
  shows "fs' = fs"
proof -
  have "plain fs s" using assms(1) by (simp add: sealed_def)
  then have "create_dir_all None cwd (path_to (butlast s)) fs = (None, fs)"
    using create_dir_all_there [of "butlast s" fs cwd] plain_parent [of fs s] by simp
  then show ?thesis using assms(2) by (cases r) (auto simp: create_dir_all_def)
qed

lemma write_file_sealed:
  assumes "sealed fs s" "within 0 cs" "write_file c cwd (below s cs) fs = (r, fs')"
  shows "only_below s fs fs'"
proof (cases "fs' = fs")
  case True
  then show ?thesis using assms(1) by (simp add: only_below_refl)
next
  case False
  then obtain l where l: "locate fs cwd True (below s cs) = Inr l" "node_at fs l \<noteq> Some Dir"
      "fs' = (l, File c) # filter (\<lambda>(k, _). k \<noteq> l) fs"
    using assms(3) by (auto simp: write_file_def split: sum.splits option.splits node.splits)
  then obtain x where x: "l = s @ x" using locate_within [OF assms(1,2)] by blast
  then have "x \<noteq> []" using l(2) assms(1) by (auto simp: sealed_def)
  then show ?thesis
    using assms(1) l(3) x by (intro sealed_add [of fs s x fs' "File c"]) (auto simp: node_at_write_filter)
qed

text \<open>
  What the zip crate promises of \<open>enclosed_name\<close>: a relative path that never steps out of the
  directory it starts in.  It may have dots, step back over names it went into, or be empty.
\<close>

definition enclosed :: "string \<Rightarrow> bool" where
  "enclosed relative \<longleftrightarrow> \<not> is_absolute relative \<and> within 0 (components relative)"

lemma entry_destination_enclosed:
  "enclosed relative \<Longrightarrow> \<exists>cs. within 0 cs \<and> entry_destination (path_to s) relative = below s cs"
  using within_no_dots by (auto simp: enclosed_def entry_destination_def path_to_def below_def)

lemma unzip_entry_sealed:
  assumes s: "sealed fs s" and cs: "within 0 cs"
    and run: "unzip_entry cwd (below s cs) e fs = (r, fs')"
  shows "only_below s fs fs'"
proof (cases "ze_is_dir e")
  case True
  then show ?thesis using run create_dir_all_sealed [OF s cs] by (simp add: unzip_entry_def)
next
  case False
  have "s \<noteq> []" using s by (simp add: sealed_def plain_def)
  then have "parent_of (below s cs) = Some (if cs = [] then path_to (butlast s) else below s (butlast cs))"
    by (auto simp: parent_of_def path_to_def below_def butlast_append map_butlast)
  then obtain parent where parent: "parent_of (below s cs) = Some parent"
    "parent = (if cs = [] then path_to (butlast s) else below s (butlast cs))" by blast
  obtain r1 fs1 where c: "create_dir_all (ze_mkdir e) cwd parent fs = (r1, fs1)" by (metis surj_pair)
  have b1: "only_below s fs fs1"
  proof (cases "cs = []")
    case True
    then have "fs1 = fs" using c parent create_above_sealed [OF s, of "ze_mkdir e" cwd r1 fs1] by simp
    then show ?thesis using only_below_refl [OF s] by simp
  next
    case not_empty: False
    then have "within 0 (butlast cs)" using cs within_append [of 0 "butlast cs" "[last cs]"] by simp
    then show ?thesis using create_dir_all_sealed [OF s] c parent not_empty by simp
  qed
  then have s1: "sealed fs1 s" by (simp add: only_below_def)
  obtain r2 fs2 where w2: "write_file [] cwd (below s cs) fs1 = (r2, fs2)" by (metis surj_pair)
  have b2: "only_below s fs fs2"
    using only_below_trans [OF b1 write_file_sealed [OF s1 cs w2]] .
  then have s2: "sealed fs2 s" by (simp add: only_below_def)
  obtain r3 fs3 where w3: "write_file (ze_content e) cwd (below s cs) fs2 = (r3, fs3)"
    by (metis surj_pair)
  have b3: "only_below s fs fs3"
    using only_below_trans [OF b2 write_file_sealed [OF s2 cs w3]] .
  have "fs' = fs1 \<or> fs' = fs2 \<or> fs' = fs3"
    using run False parent(1) c w2 w3
    by (auto simp: unzip_entry_def split: option.splits)
  then show ?thesis using b1 b2 b3 by auto
qed

lemma unzip_entries_sealed:
  "sealed fs s \<Longrightarrow> (\<And>e rel. Inr e \<in> set es \<Longrightarrow> ze_enclosed e = Some rel \<Longrightarrow> enclosed rel) \<Longrightarrow>
   unzip_entries cwd (path_to s) es fs = (r, fs') \<Longrightarrow> only_below s fs fs'"
proof (induction es arbitrary: fs)
  case (Cons x es)
  note below = Cons.prems(2)
  show ?case
  proof (cases x)
    case (Inl err)
    then show ?thesis using Cons.prems by (auto intro: only_below_refl)
  next
    case (Inr e)
    show ?thesis
    proof (cases "ze_enclosed e")
      case None
      then have "unzip_entries cwd (path_to s) es fs = (r, fs')" using Cons.prems(3) Inr by simp
      from Cons.IH [OF Cons.prems(1) _ this] below show ?thesis by auto
    next
      case (Some rel)
      then have "enclosed rel" using below Inr by auto
      then obtain ns where ns: "within 0 ns" "entry_destination (path_to s) rel = below s ns"
        using entry_destination_enclosed by blast
      obtain r1 fs1 where u: "unzip_entry cwd (below s ns) e fs = (r1, fs1)" by (metis surj_pair)
      note b1 = unzip_entry_sealed [OF Cons.prems(1) ns(1) u]
      then have s1: "sealed fs1 s" by (simp add: only_below_def)
      have "fs' = fs1 \<or> unzip_entries cwd (path_to s) es fs1 = (r, fs')"
        using Cons.prems(3) Inr Some u ns(2) by (auto split: option.splits)
      then show ?thesis
        using b1 only_below_trans [OF b1] Cons.IH [OF s1] below by auto
    qed
  qed
qed (auto intro: only_below_refl)

end
