(* ===== verification/Worker_Contract.thy ===== *)
theory Worker_Contract
  imports Bus_Contract
begin

text \<open>
  The rest of the wire contract of \<open>crates/tinyruntime-bus\<close>: the declarative worker and cache
  vocabulary of \<open>src/worker\<close>, the environment-preparation requests, the layout and listing
  replies, and the member names of both interfaces.  A \<open>serde_json::Value\<close> is the datatype
  \<open>json\<close>, a number by its text.
\<close>

subsection \<open>JSON documents\<close>

datatype json =
    JNull
  | JBool bool
  | JNumber string
  | JString string
  | JArray "json list"
  | JObject "(string \<times> json) list"

subsection \<open>Worker management\<close>

datatype worker_handle = WorkerHandle (handle_id: string)

record worker_command =
  wc_executable :: string
  wc_args :: "string list"
  wc_env :: "(string \<times> string) list"
  wc_timeout_ms :: "u64 option"

record worker_plan =
  wp_source :: string
  wp_command :: worker_command
  wp_preparation :: "worker_command list"
  wp_backends :: "string list"
  wp_startup_timeout_ms :: u64
  wp_request_timeout_ms :: u64
  wp_idle_backend :: "string option"
  wp_idle_timeout_ms :: u64

record worker_prepare =
  wpr_handle :: worker_handle
  wpr_plan :: worker_plan

record worker_request =
  wr_handle :: worker_handle
  wr_operation :: u64
  wr_method :: string
  wr_params :: json

datatype worker_outcome_kind =
  OComplete | OResponse | OClosed | OBusy | OInvalid | OUnknown | OExpired | OFailed

definition PROTOCOL_VERSION :: u32 where "PROTOCOL_VERSION = 1"

record ready_line =
  ry_ready :: bool
  ry_protocol :: "u32 option"
  ry_backends :: "string list"
  ry_error :: "string option"

record server_request =
  sq_id :: string
  sq_method :: string
  sq_params :: json

record server_error =
  sv_code :: string
  sv_message :: string

record server_response =
  sr_id :: "string option"
  sr_ok :: bool
  sr_result :: "json option"
  sr_error :: "server_error option"

record worker_outcome =
  wo_kind :: worker_outcome_kind
  wo_response :: "server_response option"
  wo_reason :: "string option"

datatype worker_phase = Reserved | Preparing | Prepared | Starting | Running | PFailed | PClosed

record backend_status =
  bs_id :: string
  bs_enabled :: bool
  bs_ready :: bool
  bs_message :: "string option"

record server_status =
  ss_enabled :: bool
  ss_running :: bool
  ss_backends :: "backend_status list"
  ss_message :: "string option"

definition server_status_disabled :: "string \<Rightarrow> server_status" where
  "server_status_disabled m =
     \<lparr>ss_enabled = False, ss_running = False, ss_backends = [], ss_message = Some m\<rparr>"

record worker_status =
  ws_phase :: worker_phase
  ws_server :: server_status

subsection \<open>Cache recipes\<close>

record worker_cache_scope =
  cs_id :: string
  cs_root :: string

record cache_artifact =
  ca_path :: string
  ca_bytes :: string

datatype cache_entry_kind = FileEntry | DirectoryEntry | AnyEntry

record cache_entry =
  ce_path :: string
  ce_kind :: cache_entry_kind

datatype cache_adoption_policy = Strict | AdoptVerifiedLegacy

record cache_recipe =
  cr_scope :: string
  cr_artifacts :: "cache_artifact list"
  cr_steps :: "worker_command list"
  cr_required :: "cache_entry list"
  cr_marker :: cache_artifact
  cr_adoption :: cache_adoption_policy
  cr_timeout_ms :: u64

record worker_prepare_cached =
  wpc_handle :: worker_handle
  wpc_plan :: worker_plan
  wpc_recipe :: cache_recipe

subsection \<open>Environment preparation\<close>

record package_group =
  pg_packages :: "string list"
  pg_source :: "string option"

definition package_group_new :: "string list \<Rightarrow> package_group" where
  "package_group_new ps = \<lparr>pg_packages = ps, pg_source = None\<rparr>"

definition with_source :: "string \<Rightarrow> package_group \<Rightarrow> package_group" where
  "with_source s g = g\<lparr>pg_source := Some s\<rparr>"

record environment_preparation_request =
  ep_runtime_executable :: string
  ep_environment_root :: string
  ep_upgrade_installer :: bool
  ep_package_groups :: "package_group list"

definition environment_preparation_new ::
  "string \<Rightarrow> string \<Rightarrow> environment_preparation_request" where
  "environment_preparation_new exe root =
     \<lparr>ep_runtime_executable = exe, ep_environment_root = root, ep_upgrade_installer = False,
      ep_package_groups = []\<rparr>"

definition with_installer_upgrade ::
  "environment_preparation_request \<Rightarrow> environment_preparation_request" where
  "with_installer_upgrade r = r\<lparr>ep_upgrade_installer := True\<rparr>"

definition with_package_group ::
  "package_group \<Rightarrow> environment_preparation_request \<Rightarrow> environment_preparation_request" where
  "with_package_group g r = r\<lparr>ep_package_groups := ep_package_groups r @ [g]\<rparr>"

record prepare_environment_request =
  pq_language :: language
  pq_preparation :: environment_preparation_request

definition prepare_environment_request_new ::
  "language \<Rightarrow> environment_preparation_request \<Rightarrow> prepare_environment_request" where
  "prepare_environment_request_new l p = \<lparr>pq_language = l, pq_preparation = p\<rparr>"

record environment_preparation_plan =
  el_executable :: string
  el_steps :: "worker_command list"

subsection \<open>Replies\<close>

record layout_request =
  lr_install_dir :: string
  lr_settings :: runtime_settings

definition layout_request_new :: "string \<Rightarrow> runtime_settings \<Rightarrow> layout_request" where
  "layout_request_new dir s = \<lparr>lr_install_dir = dir, lr_settings = s\<rparr>"

record layout_response =
  lo_layout :: "runtime_layout option"

definition layout_found :: "runtime_layout \<Rightarrow> layout_response" where
  "layout_found layout = \<lparr>lo_layout = Some layout\<rparr>"

definition layout_missing :: layout_response where
  "layout_missing = \<lparr>lo_layout = None\<rparr>"

record resolve_response =
  rp_runtime :: "resolved_runtime option"

definition resolve_found :: "resolved_runtime \<Rightarrow> resolve_response" where
  "resolve_found r = \<lparr>rp_runtime = Some r\<rparr>"

definition resolve_missing :: resolve_response where
  "resolve_missing = \<lparr>rp_runtime = None\<rparr>"

record languages_response =
  lg_languages :: "language_status list"

definition languages_response_new :: "language_status list \<Rightarrow> languages_response" where
  "languages_response_new ls = \<lparr>lg_languages = ls\<rparr>"

record pool_stats_response =
  pt_pools :: "pool_stats list"

definition pool_stats_response_new :: "pool_stats list \<Rightarrow> pool_stats_response" where
  "pool_stats_response_new ps = \<lparr>pt_pools = ps\<rparr>"

subsection \<open>Members\<close>

definition LANGUAGES :: string where "LANGUAGES = ''Languages''"
definition RESOLVE :: string where "RESOLVE = ''Resolve''"
definition EXECUTE :: string where "EXECUTE = ''Execute''"
definition POOL_STATS :: string where "POOL_STATS = ''PoolStats''"
definition PREPARE_ENVIRONMENT_METHOD :: string where "PREPARE_ENVIRONMENT_METHOD = ''PrepareEnvironment''"

definition METHODS :: "string list" where
  "METHODS = [LANGUAGES, RESOLVE, EXECUTE, POOL_STATS, PREPARE_ENVIRONMENT_METHOD]"

definition DESCRIBE :: string where "DESCRIBE = ''Describe''"
definition DETECT_SYSTEM :: string where "DETECT_SYSTEM = ''DetectSystem''"
definition SELECT_DISTRIBUTION :: string where "SELECT_DISTRIBUTION = ''SelectDistribution''"
definition LAYOUT :: string where "LAYOUT = ''Layout''"
definition HARNESS :: string where "HARNESS = ''Harness''"
definition PREPARE_ENVIRONMENT :: string where "PREPARE_ENVIRONMENT = ''PrepareEnvironment''"

definition PROVIDER_METHODS :: "string list" where
  "PROVIDER_METHODS = [DESCRIBE, DETECT_SYSTEM, SELECT_DISTRIBUTION, LAYOUT, HARNESS]"

definition OPTIONAL_PROVIDER_METHODS :: "string list" where
  "OPTIONAL_PROVIDER_METHODS = [PREPARE_ENVIRONMENT]"

end
