(* ===== verification/Provider_Registry.thy ===== *)
theory Provider_Registry
  imports Worker_Contract Router_Error Filesystem
begin

text \<open>
  What a language provider can be asked and how the router finds one:
  \<open>crates/tinyruntime/src/provider\<close> and the module configuration of
  \<open>crates/tinyruntime/src/config\<close>.  A provider is a record of its answers: those about the
  host's disk depend on the filesystem at the time of the call.  The bus connection is not part of
  this repository, so it is a record of functions the bus provider is built from.
\<close>

subsection \<open>Providers\<close>

record provider =
  pr_describe :: "provider_descriptor result"
  pr_detect_system :: "fs \<Rightarrow> runtime_settings \<Rightarrow> runtime_layout option result"
  pr_select_distribution :: "runtime_settings \<Rightarrow> distribution result"
  pr_layout :: "fs \<Rightarrow> string \<Rightarrow> runtime_settings \<Rightarrow> runtime_layout option result"
  pr_harness :: "worker_harness result"
  pr_prepare_environment ::
    "environment_preparation_request \<Rightarrow> environment_preparation_plan option result"

definition verify_contract :: "language \<Rightarrow> provider_descriptor \<Rightarrow> unit result" where
  "verify_contract l d =
     (if provider_is_compatible (pd_contract_version d) then Inr ()
      else case pd_contract_version d of (major, minor) \<Rightarrow> Inl (ProviderContract l major minor))"

subsection \<open>Routes\<close>

record route =
  rt_language :: language
  rt_bus_name :: string
  rt_provider :: provider

definition route_status :: "route \<Rightarrow> language_status" where
  "route_status r =
     (case pr_describe (rt_provider r) of
        Inr d \<Rightarrow>
          if provider_is_compatible (pd_contract_version d) then
            status_available (rt_language r) (rt_bus_name r) (pd_display_name d)
          else
            (case pd_contract_version d of (major, minor) \<Rightarrow>
               with_display_name (pd_display_name d)
                 (status_unavailable (rt_language r) (rt_bus_name r)
                   (''the provider speaks contract '' @ dec (unat major) @ ''.'' @ dec (unat minor)
                    @ '', which this build cannot bind to'')))
      | Inl e \<Rightarrow> status_unavailable (rt_language r) (rt_bus_name r) (error_to_string e))"

definition route_prepare_environment ::
  "route \<Rightarrow> environment_preparation_request \<Rightarrow> environment_preparation_plan option result" where
  "route_prepare_environment r request =
     (case pr_describe (rt_provider r) of
        Inl e \<Rightarrow> Inl e
      | Inr d \<Rightarrow>
      case verify_contract (rt_language r) d of
        Inl e \<Rightarrow> Inl e
      | Inr _ \<Rightarrow>
        if PrepareEnvironment \<notin> set (pd_capabilities d) then Inr None
        else pr_prepare_environment (rt_provider r) request)"

subsection \<open>The routing table\<close>

type_synonym registry = "route list"

definition registry_new :: registry where "registry_new = []"

text \<open>The first route of the language is replaced in its place, or a new one goes to the end.\<close>

fun replace_route :: "route \<Rightarrow> registry \<Rightarrow> registry option" where
  "replace_route r [] = None"
| "replace_route r (x # xs) =
     (if rt_language x = rt_language r then Some (r # xs)
      else map_option (\<lambda>ys. x # ys) (replace_route r xs))"

definition register :: "language \<Rightarrow> string \<Rightarrow> provider \<Rightarrow> registry \<Rightarrow> registry" where
  "register l bus p routes =
     (let r = \<lparr>rt_language = l, rt_bus_name = bus, rt_provider = p\<rparr>
      in case replace_route r routes of Some ys \<Rightarrow> ys | None \<Rightarrow> routes @ [r])"

definition find_route :: "registry \<Rightarrow> language \<Rightarrow> route option" where
  "find_route routes l = List.find (\<lambda>r. rt_language r = l) routes"

definition registry_provider :: "registry \<Rightarrow> language \<Rightarrow> provider result" where
  "registry_provider routes l =
     (if language_is_empty l then Inl LanguageMissing
      else case find_route routes l of
             Some r \<Rightarrow> Inr (rt_provider r)
           | None \<Rightarrow> Inl (UnknownLanguage l))"

definition registry_prepare_environment ::
  "registry \<Rightarrow> language \<Rightarrow> environment_preparation_request \<Rightarrow>
   environment_preparation_plan option result" where
  "registry_prepare_environment routes l request =
     (if language_is_empty l then Inl LanguageMissing
      else case find_route routes l of
             Some r \<Rightarrow> route_prepare_environment r request
           | None \<Rightarrow> Inl (UnknownLanguage l))"

definition registry_languages :: "registry \<Rightarrow> language list" where
  "registry_languages routes = map rt_language routes"

definition registry_len :: "registry \<Rightarrow> nat" where
  "registry_len routes = length routes"

definition registry_is_empty :: "registry \<Rightarrow> bool" where
  "registry_is_empty routes \<longleftrightarrow> routes = []"

definition registry_statuses :: "registry \<Rightarrow> language_status list" where
  "registry_statuses routes = map route_status routes"

subsection \<open>A provider on the bus\<close>

datatype bus_args =
    NoArgs
  | SettingsArg runtime_settings
  | LayoutArg layout_request
  | PrepareArg environment_preparation_request

datatype bus_reply =
    DescriptorReply provider_descriptor
  | LayoutReply layout_response
  | DistributionReply distribution
  | HarnessReply worker_harness
  | PlanReply environment_preparation_plan

text \<open>
  Opening a proxy may fail; a call may fail; and a reply of another shape than the caller's type
  fails to decode, with the bus's rendering of that.
\<close>

record connection =
  cn_proxy :: "string \<Rightarrow> string \<Rightarrow> string \<Rightarrow> string option"
  cn_call :: "fs \<Rightarrow> string \<Rightarrow> string \<Rightarrow> string \<Rightarrow> string \<Rightarrow> bus_args \<Rightarrow> string + bus_reply"
  cn_undecodable :: string

definition unavailable :: "language \<Rightarrow> string \<Rightarrow> error" where
  "unavailable l e = ProviderUnavailable l e"

definition bus_call ::
  "connection \<Rightarrow> language \<Rightarrow> string \<Rightarrow> (bus_reply \<Rightarrow> 'a option) \<Rightarrow> fs \<Rightarrow> string \<Rightarrow> bus_args \<Rightarrow> 'a result" where
  "bus_call cn l bus_name decode fs member args =
     (let object_path = object_path_for bus_name
      in case cn_proxy cn bus_name object_path PROVIDER_INTERFACE of
           Some e \<Rightarrow> Inl (unavailable l e)
         | None \<Rightarrow>
             (case cn_call cn fs bus_name object_path PROVIDER_INTERFACE member args of
                Inl e \<Rightarrow> Inl (unavailable l e)
              | Inr reply \<Rightarrow>
                  (case decode reply of
                     None \<Rightarrow> Inl (unavailable l (cn_undecodable cn))
                   | Some x \<Rightarrow> Inr x)))"

definition as_descriptor :: "bus_reply \<Rightarrow> provider_descriptor option" where
  "as_descriptor r = (case r of DescriptorReply d \<Rightarrow> Some d | _ \<Rightarrow> None)"

definition as_layout :: "bus_reply \<Rightarrow> runtime_layout option option" where
  "as_layout r = (case r of LayoutReply d \<Rightarrow> Some (lo_layout d) | _ \<Rightarrow> None)"

definition as_distribution :: "bus_reply \<Rightarrow> distribution option" where
  "as_distribution r = (case r of DistributionReply d \<Rightarrow> Some d | _ \<Rightarrow> None)"

definition as_harness :: "bus_reply \<Rightarrow> worker_harness option" where
  "as_harness r = (case r of HarnessReply d \<Rightarrow> Some d | _ \<Rightarrow> None)"

definition as_plan :: "bus_reply \<Rightarrow> environment_preparation_plan option option" where
  "as_plan r = (case r of PlanReply d \<Rightarrow> Some (Some d) | _ \<Rightarrow> None)"

definition bus_provider_new :: "connection \<Rightarrow> language \<Rightarrow> string \<Rightarrow> provider" where
  "bus_provider_new cn l bus_name =
     \<lparr>pr_describe = bus_call cn l bus_name as_descriptor [] DESCRIBE NoArgs,
      pr_detect_system = (\<lambda>fs s. bus_call cn l bus_name as_layout fs DETECT_SYSTEM (SettingsArg s)),
      pr_select_distribution =
        (\<lambda>s. bus_call cn l bus_name as_distribution [] SELECT_DISTRIBUTION (SettingsArg s)),
      pr_layout =
        (\<lambda>fs dir s. bus_call cn l bus_name as_layout fs LAYOUT (LayoutArg (layout_request_new dir s))),
      pr_harness = bus_call cn l bus_name as_harness [] HARNESS NoArgs,
      pr_prepare_environment =
        (\<lambda>r. bus_call cn l bus_name as_plan [] PREPARE_ENVIRONMENT (PrepareArg r))\<rparr>"

subsection \<open>The module configuration\<close>

record provider_route =
  pc_language :: language
  pc_bus_name :: string

record module_config =
  mc_providers :: "provider_route list"
  mc_harness_dir :: string
  mc_worker_cache_scopes :: "worker_cache_scope list"

definition provider_route_new :: "language \<Rightarrow> string \<Rightarrow> provider_route" where
  "provider_route_new l bus_name = \<lparr>pc_language = l, pc_bus_name = bus_name\<rparr>"

definition module_config_default :: module_config where
  "module_config_default =
     \<lparr>mc_providers = [\<lparr>pc_language = language_nodejs, pc_bus_name = providers_NODEJS\<rparr>,
                      \<lparr>pc_language = language_python, pc_bus_name = providers_PYTHON\<rparr>],
      mc_harness_dir = [], mc_worker_cache_scopes = []\<rparr>"

text \<open>The wire object: every field may be absent, and the whole document may be null.\<close>

record wire_config =
  wi_providers :: "provider_route list option"
  wi_harness_dir :: "string option"
  wi_worker_cache_scopes :: "worker_cache_scope list option"

definition module_config_deserialize :: "wire_config option \<Rightarrow> module_config" where
  "module_config_deserialize w =
     (case w of
        None \<Rightarrow> module_config_default
      | Some x \<Rightarrow>
          \<lparr>mc_providers = (case wi_providers x of Some p \<Rightarrow> p | None \<Rightarrow> mc_providers module_config_default),
           mc_harness_dir = (case wi_harness_dir x of Some p \<Rightarrow> p | None \<Rightarrow> mc_harness_dir module_config_default),
           mc_worker_cache_scopes =
             (case wi_worker_cache_scopes x of
                Some p \<Rightarrow> p | None \<Rightarrow> mc_worker_cache_scopes module_config_default)\<rparr>)"

definition harness_root :: "string option \<Rightarrow> module_config \<Rightarrow> string" where
  "harness_root dirs_cache_dir c =
     (let configured = trim (mc_harness_dir c)
      in if configured \<noteq> [] then configured
         else path_join (path_join (case dirs_cache_dir of Some p \<Rightarrow> p | None \<Rightarrow> ''.'') ''tinyruntime'')
                ''harnesses'')"

text \<open>The table the module builds at setup: every configured route in order.\<close>

definition setup_registry :: "connection \<Rightarrow> module_config \<Rightarrow> registry" where
  "setup_registry cn c =
     foldl (\<lambda>t r. register (pc_language r) (pc_bus_name r)
                    (bus_provider_new cn (pc_language r) (pc_bus_name r)) t)
       registry_new (mc_providers c)"

subsection \<open>The contract of a routing table\<close>

locale routing =
  fixes empty :: 't
    and add :: "language \<Rightarrow> string \<Rightarrow> provider \<Rightarrow> 't \<Rightarrow> 't"
    and lookup :: "'t \<Rightarrow> language \<Rightarrow> route option"
    and langs :: "'t \<Rightarrow> language list"
  assumes lookup_empty: "lookup empty l = None"
    and lookup_add: "lookup (add l b p t) k =
      (if k = l then Some \<lparr>rt_language = l, rt_bus_name = b, rt_provider = p\<rparr> else lookup t k)"
    and langs_empty: "langs empty = []"
    and langs_add: "langs (add l b p t) = (if l \<in> set (langs t) then langs t else langs t @ [l])"
begin

definition build :: "(language \<times> string \<times> provider) list \<Rightarrow> 't" where
  "build rs = foldl (\<lambda>t (l, b, p). add l b p t) empty rs"

text \<open>After any sequence of registrations a language is served by its last one.\<close>

lemma lookup_build:
  "lookup (build rs) l =
     map_option (\<lambda>(b, p). \<lparr>rt_language = l, rt_bus_name = b, rt_provider = p\<rparr>) (map_of (rev rs) l)"
  by (induction rs rule: rev_induct) (auto simp: build_def lookup_empty lookup_add)

text \<open>Every registered language is listed once.\<close>

lemma langs_build: "distinct (langs (build rs)) \<and> set (langs (build rs)) = fst ` set rs"
proof (induction rs rule: rev_induct)
  case Nil
  then show ?case by (simp add: build_def langs_empty)
next
  case (snoc r rs)
  obtain l b p where r: "r = (l, b, p)" by (cases r)
  have step: "langs (build (rs @ [r])) =
      (if l \<in> set (langs (build rs)) then langs (build rs) else langs (build rs) @ [l])"
    by (simp add: build_def r langs_add)
  have "fst ` set (rs @ [r]) = insert l (fst ` set rs)" by (simp add: r)
  then show ?case
    unfolding step using snoc by (cases "l \<in> set (langs (build rs))") auto
qed

end

lemma replace_route_None: "replace_route r t = None \<longleftrightarrow> rt_language r \<notin> set (map rt_language t)"
  by (induction t) auto

lemma find_route_replace:
  "replace_route r t = Some t' \<Longrightarrow>
   find_route t' k = (if k = rt_language r then Some r else find_route t k)"
  by (induction t arbitrary: t') (auto simp: find_route_def split: if_splits)

lemma languages_replace:
  "replace_route r t = Some t' \<Longrightarrow> map rt_language t' = map rt_language t"
  by (induction t arbitrary: t') (auto split: if_splits)

lemma find_route_append: "find_route (t @ [r]) k =
  (case find_route t k of Some x \<Rightarrow> Some x | None \<Rightarrow> if rt_language r = k then Some r else None)"
  by (induction t) (auto simp: find_route_def)

lemma find_route_None: "find_route t k = None \<longleftrightarrow> k \<notin> set (map rt_language t)"
  by (auto simp: find_route_def find_None_iff)

interpretation table: routing registry_new register find_route registry_languages
proof
  show "find_route registry_new l = None" for l by (simp add: find_route_def registry_new_def)
  show "find_route (register l b p t) k =
      (if k = l then Some \<lparr>rt_language = l, rt_bus_name = b, rt_provider = p\<rparr> else find_route t k)"
    for l b p t k
  proof (cases "replace_route \<lparr>rt_language = l, rt_bus_name = b, rt_provider = p\<rparr> t")
    case None
    then have "find_route t l = None" by (simp add: replace_route_None find_route_None)
    with None show ?thesis
      by (auto simp: register_def find_route_append split: option.splits)
  next
    case (Some t')
    then show ?thesis by (simp add: register_def find_route_replace)
  qed
  show "registry_languages registry_new = []" by (simp add: registry_languages_def registry_new_def)
  show "registry_languages (register l b p t) =
      (if l \<in> set (registry_languages t) then registry_languages t else registry_languages t @ [l])"
    for l b p t
    using replace_route_None [of "\<lparr>rt_language = l, rt_bus_name = b, rt_provider = p\<rparr>" t]
    by (auto simp: register_def Let_def registry_languages_def languages_replace split: option.splits)
qed

lemma setup_registry_build:
  "setup_registry cn c =
     table.build (map (\<lambda>r. (pc_language r, pc_bus_name r,
       bus_provider_new cn (pc_language r) (pc_bus_name r))) (mc_providers c))"
proof -
  have "foldl (\<lambda>t r. register (pc_language r) (pc_bus_name r)
          (bus_provider_new cn (pc_language r) (pc_bus_name r)) t) t rs
      = foldl (\<lambda>t (l, b, p). register l b p t) t (map (\<lambda>r. (pc_language r, pc_bus_name r,
          bus_provider_new cn (pc_language r) (pc_bus_name r))) rs)" for t and rs :: "provider_route list"
    by (induction rs arbitrary: t) auto
  then show ?thesis by (simp add: setup_registry_def table.build_def)
qed

end
