(* ===== verification/Resolver.thy ===== *)
theory Resolver
  imports Archive Provider_Registry
begin

text \<open>
  Turning a request for a language into a toolchain: \<open>crates/tinyruntime/src/resolve\<close>.  The
  memo, the host probe, the scan of the cache (\<open>reuse.rs\<close>) and the install (\<open>install.rs\<close>) are
  functions on the filesystem, composed in the order of \<open>Resolver::resolve\<close>.  Everything the
  host and the network contribute to one call is the record \<open>resolve_env\<close>.
\<close>

subsection \<open>One call's surroundings\<close>

record resolve_env =
  ev_cwd :: loc
  ev_cache_dir :: "string option"
  ev_pid :: u32
  ev_uuid :: string
  ev_root :: "io_error option"
  ev_lock :: lock_env
  ev_fetch :: fetch_env
  ev_stage :: removal
  ev_archive :: archive_env
  ev_promote_panics :: "string option"
  ev_promote :: promote_env
  ev_cleanup :: removal
  ev_remove_archive :: "io_error option"

subsection \<open>Reuse\<close>

definition managed :: "language \<Rightarrow> string \<Rightarrow> runtime_layout \<Rightarrow> resolved_runtime" where
  "managed l install_dir layout = with_install_dir install_dir (from_layout l Managed layout)"

text \<open>
  The candidates: real directories of the cache root (a link is not one), no staging directory,
  inside the root after resolving links; newest-looking name first.
\<close>

definition candidates :: "fs \<Rightarrow> loc \<Rightarrow> string \<Rightarrow> string list" where
  "candidates fs cwd root =
     (case read_dir fs cwd (view root) of
        Inl _ \<Rightarrow> []
      | Inr entries \<Rightarrow>
          rev (sort_key (\<lambda>p. p)
            (filter (is_inside fs cwd root)
              (filter (\<lambda>p. \<not> is_staging p)
                (map (\<lambda>(name, _). path_join root name)
                  (filter (\<lambda>(_, kind). kind = Dir) entries))))))"

fun first_layout ::
  "fs \<Rightarrow> language \<Rightarrow> runtime_settings \<Rightarrow> provider \<Rightarrow> string list \<Rightarrow> resolved_runtime option" where
  "first_layout fs l s p [] = None"
| "first_layout fs l s p (c # cs) =
     (case pr_layout p fs c s of
        Inr (Some layout) \<Rightarrow> Some (managed l c layout)
      | Inr None \<Rightarrow> first_layout fs l s p cs
      | Inl _ \<Rightarrow> first_layout fs l s p cs)"

definition scan ::
  "fs \<Rightarrow> loc \<Rightarrow> string \<Rightarrow> language \<Rightarrow> runtime_settings \<Rightarrow> provider \<Rightarrow> resolved_runtime option" where
  "scan fs cwd root l s p = first_layout fs l s p (candidates fs cwd root)"

subsection \<open>Install\<close>

definition remove_archive :: "resolve_env \<Rightarrow> vpath \<Rightarrow> fs \<Rightarrow> fs" where
  "remove_archive env v fs = snd (remove_file (ev_remove_archive env) (ev_cwd env) v fs)"

definition root_of :: "resolve_env \<Rightarrow> language \<Rightarrow> runtime_settings \<Rightarrow> string" where
  "root_of env l s = cache_root (ev_cache_dir env) (settings_cache_dir s) l"

text \<open>From the verified archive to the promoted directory, cleaning up on every branch.\<close>

definition unpack_and_promote ::
  "resolve_env \<Rightarrow> language \<Rightarrow> string \<Rightarrow> string \<Rightarrow> string \<Rightarrow> archive_format \<Rightarrow> fs \<Rightarrow> unit result \<times> fs" where
  "unpack_and_promote env l root install_dir archive_path format fs =
     (let cwd = ev_cwd env;
          staging = staging_dir (ev_pid env) (ev_uuid env) root;
          fs1 = discard (ev_stage env) cwd (view staging) fs
      in case archive_extract (ev_archive env) cwd (view archive_path) (view staging) format l fs1 of
           (Inl e, fs2) \<Rightarrow>
             (Inl e, remove_archive env (view archive_path)
                       (discard (ev_cleanup env) cwd (view staging) fs2))
         | (Inr unpacked, fs2) \<Rightarrow>
             (case promote (ev_promote_panics env) (ev_promote env) cwd unpacked (view install_dir) l fs2 of
                (promoted, fs3) \<Rightarrow>
                  (promoted, remove_archive env (view archive_path)
                               (discard (ev_cleanup env) cwd (view staging) fs3))))"

definition install_run ::
  "resolve_env \<Rightarrow> language \<Rightarrow> runtime_settings \<Rightarrow> provider \<Rightarrow> fs \<Rightarrow> resolved_runtime result \<times> fs" where
  "install_run env l s p fs =
     (case pr_select_distribution p s of
        Inl e \<Rightarrow> (Inl e, fs)
      | Inr d \<Rightarrow>
      let cwd = ev_cwd env; root = root_of env l s
      in case ensure_root (ev_root env) cwd root fs of
        (Inl e, fs1) \<Rightarrow> (Inl e, fs1)
      | (Inr _, fs1) \<Rightarrow>
      let install_dir = path_join root (d_install_dir_name d)
      in case lock_acquire (ev_lock env) cwd (view install_dir) l fs1 of
        (Inl e, fs2) \<Rightarrow> (Inl e, fs2)
      | (Inr _, fs2) \<Rightarrow>
      case pr_layout p fs2 install_dir s of
        Inl e \<Rightarrow> (Inl e, fs2)
      | Inr (Some layout) \<Rightarrow> (Inr (managed l install_dir layout), fs2)
      | Inr None \<Rightarrow>
      let archive_path = path_join root (d_archive_name d)
      in case fetch (ev_fetch env) cwd d (view archive_path) l fs2 of
        (Inl e, fs3) \<Rightarrow> (Inl e, fs3)
      | (Inr _, fs3) \<Rightarrow>
      case unpack_and_promote env l root install_dir archive_path (d_format d) fs3 of
        (Inl e, fs4) \<Rightarrow> (Inl e, fs4)
      | (Inr _, fs4) \<Rightarrow>
      case pr_layout p fs4 install_dir s of
        Inl e \<Rightarrow> (Inl e, fs4)
      | Inr (Some layout) \<Rightarrow> (Inr (managed l install_dir layout), fs4)
      | Inr None \<Rightarrow> (Inl (EmptyInstall l), fs4))"

subsection \<open>Resolution\<close>

record resolver =
  rv_registry :: registry
  rv_resolved :: "string \<rightharpoonup> resolved_runtime"

definition resolver_new :: "registry \<Rightarrow> resolver" where
  "resolver_new r = \<lparr>rv_registry = r, rv_resolved = Map.empty\<rparr>"

definition bool_to_string :: "bool \<Rightarrow> string" where
  "bool_to_string b = (if b then ''true'' else ''false'')"

definition memo_key :: "language \<Rightarrow> runtime_settings \<Rightarrow> string" where
  "memo_key l s =
     as_str l @ ''|'' @ rs_version s @ ''|'' @ rs_maximum_version s @ ''|'' @ rs_cache_dir s @ ''|''
       @ rs_release_tag s @ ''|'' @ rs_preferred_command s @ ''|'' @ bool_to_string (rs_prefer_system s)"

definition remember :: "string \<Rightarrow> resolved_runtime \<Rightarrow> resolver \<Rightarrow> resolver" where
  "remember key r rv = rv\<lparr>rv_resolved := (rv_resolved rv)(key \<mapsto> r)\<rparr>"

definition without_network ::
  "resolve_env \<Rightarrow> language \<Rightarrow> runtime_settings \<Rightarrow> provider \<Rightarrow> fs \<Rightarrow> resolved_runtime option result" where
  "without_network env l s p fs =
     (case (if rs_prefer_system s then pr_detect_system p fs s else Inr None) of
        Inl e \<Rightarrow> Inl e
      | Inr (Some layout) \<Rightarrow> Inr (Some (from_layout l System layout))
      | Inr None \<Rightarrow> Inr (scan fs (ev_cwd env) (root_of env l s) l s p))"

definition resolve ::
  "resolve_env \<Rightarrow> resolve_request \<Rightarrow> resolver \<Rightarrow> fs \<Rightarrow> resolved_runtime option result \<times> resolver \<times> fs" where
  "resolve env request rv fs =
     (let l = rq_language request; s = rq_settings request
      in if \<not> rs_enabled s then (Inl (LanguageDisabled l), rv, fs)
      else let key = memo_key l s
      in case rv_resolved rv key of
        Some existing \<Rightarrow> (Inr (Some existing), rv, fs)
      | None \<Rightarrow>
      case registry_provider (rv_registry rv) l of
        Inl e \<Rightarrow> (Inl e, rv, fs)
      | Inr p \<Rightarrow>
      case pr_describe p of
        Inl e \<Rightarrow> (Inl e, rv, fs)
      | Inr descriptor \<Rightarrow>
      case verify_contract l descriptor of
        Inl e \<Rightarrow> (Inl e, rv, fs)
      | Inr _ \<Rightarrow>
      case without_network env l s p fs of
        Inl e \<Rightarrow> (Inl e, rv, fs)
      | Inr (Some resolved) \<Rightarrow> (Inr (Some resolved), remember key resolved rv, fs)
      | Inr None \<Rightarrow>
      if \<not> rq_install request then (Inr None, rv, fs)
      else case install_run env l s p fs of
        (Inl e, fs1) \<Rightarrow> (Inl e, rv, fs1)
      | (Inr resolved, fs1) \<Rightarrow> (Inr (Some resolved), remember key resolved rv, fs1))"

definition require ::
  "resolve_env \<Rightarrow> resolve_request \<Rightarrow> resolver \<Rightarrow> fs \<Rightarrow> resolved_runtime result \<times> resolver \<times> fs" where
  "require env request rv fs =
     (case resolve env request rv fs of
        (Inl e, rv1, fs1) \<Rightarrow> (Inl e, rv1, fs1)
      | (Inr None, rv1, fs1) \<Rightarrow> (Inl (NotProvisioned (rq_language request)), rv1, fs1)
      | (Inr (Some r), rv1, fs1) \<Rightarrow> (Inr r, rv1, fs1))"

subsection \<open>What a reuse is\<close>

lemma first_layout_Some:
  "first_layout fs l s p cs = Some r \<Longrightarrow>
   \<exists>c layout. c \<in> set cs \<and> pr_layout p fs c s = Inr (Some layout) \<and> r = managed l c layout"
  by (induction cs) (auto split: sum.splits option.splits)

lemma candidates_inside:
  assumes "c \<in> set (candidates fs cwd root)"
  shows "\<exists>name. c = path_join root name \<and> \<not> is_staging c \<and> is_inside fs cwd root c
    \<and> (\<exists>r. canonicalize fs cwd (view root) = Inr r \<and> (name, Dir) \<in> set (children fs r))"
  using assms
  by (auto simp: candidates_def read_dir_def split: sum.splits if_splits)

lemma children_node:
  "distinct (map fst fs) \<Longrightarrow> (name, n) \<in> set (children fs d) \<Longrightarrow> node_at fs (d @ [name]) = Some n"
  by (auto simp: children_def node_at_def snoc_eq_iff_butlast intro!: map_of_is_SomeI)

subsection \<open>What an install rests on\<close>

definition installed_dir :: "resolve_env \<Rightarrow> language \<Rightarrow> runtime_settings \<Rightarrow> distribution \<Rightarrow> string" where
  "installed_dir env l s d = path_join (root_of env l s) (d_install_dir_name d)"

text \<open>The filesystem once the root is there and the lock is held.\<close>

definition locked_fs :: "resolve_env \<Rightarrow> language \<Rightarrow> runtime_settings \<Rightarrow> distribution \<Rightarrow> fs \<Rightarrow> fs" where
  "locked_fs env l s d fs =
     snd (lock_acquire (ev_lock env) (ev_cwd env) (view (installed_dir env l s d)) l
       (snd (ensure_root (ev_root env) (ev_cwd env) (root_of env l s) fs)))"

lemma install_run_Inr:
  assumes run: "install_run env l s p fs = (Inr r, fs')"
  shows "\<exists>d layout. pr_select_distribution p s = Inr d
    \<and> r = managed l (installed_dir env l s d) layout
    \<and> pr_layout p fs' (installed_dir env l s d) s = Inr (Some layout)
    \<and> (fs' = locked_fs env l s d fs
       \<or> (\<exists>fs3. fetch (ev_fetch env) (ev_cwd env) d (view (path_join (root_of env l s) (d_archive_name d))) l
              (locked_fs env l s d fs) = (Inr (), fs3)
            \<and> unpack_and_promote env l (root_of env l s) (installed_dir env l s d)
                (path_join (root_of env l s) (d_archive_name d)) (d_format d) fs3 = (Inr (), fs')))"
proof -
  obtain d where d: "pr_select_distribution p s = Inr d"
    using run by (auto simp: install_run_def split: sum.splits)
  obtain fs1 where f1: "ensure_root (ev_root env) (ev_cwd env) (root_of env l s) fs = (Inr (), fs1)"
    using run d by (auto simp: install_run_def Let_def split: sum.splits prod.splits)
  obtain lk fs2 where f2: "lock_acquire (ev_lock env) (ev_cwd env) (view (installed_dir env l s d)) l fs1
      = (Inr lk, fs2)"
    using run d f1 by (auto simp: install_run_def installed_dir_def Let_def split: sum.splits prod.splits)
  have fs2: "fs2 = locked_fs env l s d fs" using f1 f2 by (simp add: locked_fs_def)
  show ?thesis
  proof (cases "pr_layout p fs2 (installed_dir env l s d) s")
    case (Inl e)
    then show ?thesis using run d f1 f2 by (simp add: install_run_def installed_dir_def Let_def)
  next
    case (Inr found)
    show ?thesis
    proof (cases found)
      case (Some layout)
      then show ?thesis
        using run d f1 f2 Inr fs2 by (simp add: install_run_def installed_dir_def Let_def)
    next
      case None
      let ?archive = "path_join (root_of env l s) (d_archive_name d)"
      obtain fs3 where f3: "fetch (ev_fetch env) (ev_cwd env) d (view ?archive) l fs2 = (Inr (), fs3)"
        using run d f1 f2 Inr None
        by (auto simp: install_run_def installed_dir_def Let_def split: sum.splits prod.splits)
      then show ?thesis
        using run d f1 f2 Inr None fs2
        by (auto simp: install_run_def installed_dir_def Let_def
            split: sum.splits prod.splits option.splits)
    qed
  qed
qed

end
