(* ===== verification/Install_Steps.thy ===== *)
theory Install_Steps
  imports Resolver
begin

text \<open>
  Many installs of one toolchain at once: \<open>install::run\<close> of \<open>resolve/install.rs\<close>, cut where it
  awaits, as one step of a call, with the lock between the opening of its file and the second look
  for the toolchain.  Each step is a call the code makes on the store, the downloader, the unpacker
  or the provider.  Calls of this and of other processes share the filesystem and the locks.
\<close>

subsection \<open>The steps of one call\<close>

datatype install_stage =
    IBegin
  | IOpen distribution
  | IWait distribution loc
  | ICheck distribution
  | IFetch distribution
  | IClear distribution
  | IUnpack distribution
  | IPromote distribution vpath
  | IClean distribution "unit result"
  | IRemove distribution "unit result"
  | IVerify distribution
  | IDone "resolved_runtime result"

definition archive_of :: "resolve_env \<Rightarrow> language \<Rightarrow> runtime_settings \<Rightarrow> distribution \<Rightarrow> string" where
  "archive_of env l s d = path_join (root_of env l s) (d_archive_name d)"

definition staging_of :: "resolve_env \<Rightarrow> language \<Rightarrow> runtime_settings \<Rightarrow> string" where
  "staging_of env l s = staging_dir (ev_pid env) (ev_uuid env) (root_of env l s)"

text \<open>A call that waits for the lock, or is over, has no step of its own.\<close>

fun install_move ::
  "resolve_env \<Rightarrow> language \<Rightarrow> runtime_settings \<Rightarrow> provider \<Rightarrow> install_stage \<Rightarrow> fs \<Rightarrow> install_stage \<times> fs" where
  "install_move env l s p IBegin fs =
     (case pr_select_distribution p s of
        Inl e \<Rightarrow> (IDone (Inl e), fs)
      | Inr d \<Rightarrow>
          (case ensure_root (ev_root env) (ev_cwd env) (root_of env l s) fs of
             (Inl e, fs1) \<Rightarrow> (IDone (Inl e), fs1)
           | (Inr _, fs1) \<Rightarrow> (IOpen d, fs1)))"
| "install_move env l s p (IOpen d) fs =
     (case lock_acquire (ev_lock env) (ev_cwd env) (view (installed_dir env l s d)) l fs of
        (Inl e, fs1) \<Rightarrow> (IDone (Inl e), fs1)
      | (Inr file, fs1) \<Rightarrow> (IWait d file, fs1))"
| "install_move env l s p (IWait d file) fs = (IWait d file, fs)"
| "install_move env l s p (ICheck d) fs =
     (case pr_layout p fs (installed_dir env l s d) s of
        Inl e \<Rightarrow> (IDone (Inl e), fs)
      | Inr (Some layout) \<Rightarrow> (IDone (Inr (managed l (installed_dir env l s d) layout)), fs)
      | Inr None \<Rightarrow> (IFetch d, fs))"
| "install_move env l s p (IFetch d) fs =
     (case fetch (ev_fetch env) (ev_cwd env) d (view (archive_of env l s d)) l fs of
        (Inl e, fs1) \<Rightarrow> (IDone (Inl e), fs1)
      | (Inr _, fs1) \<Rightarrow> (IClear d, fs1))"
| "install_move env l s p (IClear d) fs =
     (IUnpack d, discard (ev_stage env) (ev_cwd env) (view (staging_of env l s)) fs)"
| "install_move env l s p (IUnpack d) fs =
     (case archive_extract (ev_archive env) (ev_cwd env) (view (archive_of env l s d))
             (view (staging_of env l s)) (d_format d) l fs of
        (Inl e, fs1) \<Rightarrow> (IClean d (Inl e), fs1)
      | (Inr unpacked, fs1) \<Rightarrow> (IPromote d unpacked, fs1))"
| "install_move env l s p (IPromote d unpacked) fs =
     (case promote (ev_promote_panics env) (ev_promote env) (ev_cwd env) unpacked
             (view (installed_dir env l s d)) l fs of
        (promoted, fs1) \<Rightarrow> (IClean d promoted, fs1))"
| "install_move env l s p (IClean d r) fs =
     (IRemove d r, discard (ev_cleanup env) (ev_cwd env) (view (staging_of env l s)) fs)"
| "install_move env l s p (IRemove d r) fs =
     (case r of Inl e \<Rightarrow> IDone (Inl e) | Inr _ \<Rightarrow> IVerify d,
      remove_archive env (view (archive_of env l s d)) fs)"
| "install_move env l s p (IVerify d) fs =
     (case pr_layout p fs (installed_dir env l s d) s of
        Inl e \<Rightarrow> IDone (Inl e)
      | Inr (Some layout) \<Rightarrow> IDone (Inr (managed l (installed_dir env l s d) layout))
      | Inr None \<Rightarrow> IDone (Inl (EmptyInstall l)), fs)"
| "install_move env l s p (IDone r) fs = (IDone r, fs)"

fun locked_stage :: "install_stage \<Rightarrow> bool" where
  "locked_stage (ICheck d) = True"
| "locked_stage (IFetch d) = True"
| "locked_stage (IClear d) = True"
| "locked_stage (IUnpack d) = True"
| "locked_stage (IPromote d u) = True"
| "locked_stage (IClean d r) = True"
| "locked_stage (IRemove d r) = True"
| "locked_stage (IVerify d) = True"
| "locked_stage st = False"

definition finished :: "install_stage \<Rightarrow> bool" where
  "finished st \<longleftrightarrow> (\<exists>r. st = IDone r)"

definition moving :: "install_stage \<Rightarrow> bool" where
  "moving st \<longleftrightarrow> \<not> finished st \<and> (\<forall>d file. st \<noteq> IWait d file)"

subsection \<open>All calls\<close>

text \<open>
  Every call has its own surroundings \<open>e i\<close> and runs in the process \<open>ih_process ih i\<close>.  The lock file
  handle lives as long as the call; \<open>ns_fetched\<close> records the calls that turned to the network.
  Calls run to their end: the drop of a call midway is not a step.
\<close>

text \<open>
  The blocking threads.  \<open>tokio::fs\<close> and \<open>spawn_blocking\<close> share one bounded pool in every process,
  and a call that waits for the lock holds one of its threads, parked in \<open>flock\<close>.  The other uses
  end by themselves and are not counted.
\<close>

record install_hosts =
  ih_process :: "nat \<Rightarrow> nat"
  ih_threads :: "nat \<Rightarrow> nat"

fun waits :: "install_stage \<Rightarrow> bool" where
  "waits (IWait d file) = True"
| "waits st = False"

fun takes_thread :: "provider \<Rightarrow> runtime_settings \<Rightarrow> install_stage \<Rightarrow> bool" where
  "takes_thread p s IBegin = (case pr_select_distribution p s of Inl e \<Rightarrow> False | Inr d \<Rightarrow> True)"
| "takes_thread p s (ICheck d) = False"
| "takes_thread p s (IVerify d) = False"
| "takes_thread p s (IDone r) = False"
| "takes_thread p s st = True"

record install_sys =
  ns_fs :: fs
  ns_task :: "nat \<Rightarrow> install_stage"
  ns_lock :: "loc \<Rightarrow> nat option"
  ns_fetched :: "nat set"

definition parked :: "install_hosts \<Rightarrow> install_sys \<Rightarrow> nat \<Rightarrow> nat set" where
  "parked ih y q = {j. ih_process ih j = q \<and> waits (ns_task y j)}"

definition has_thread :: "install_hosts \<Rightarrow> install_sys \<Rightarrow> nat \<Rightarrow> bool" where
  "has_thread ih y i \<longleftrightarrow> card (parked ih y (ih_process ih i) - {i}) < ih_threads ih (ih_process ih i)"

definition release :: "nat \<Rightarrow> install_stage \<Rightarrow> (loc \<Rightarrow> nat option) \<Rightarrow> loc \<Rightarrow> nat option" where
  "release i st lock = (if finished st then \<lambda>f. if lock f = Some i then None else lock f else lock)"

definition install_start :: "fs \<Rightarrow> install_sys" where
  "install_start fs = \<lparr>ns_fs = fs, ns_task = (\<lambda>_. IBegin), ns_lock = (\<lambda>_. None), ns_fetched = {}\<rparr>"

text \<open>
  \<open>quiet\<close> is what the rest of the host may do to the filesystem meanwhile.
\<close>

inductive install_step ::
  "(nat \<Rightarrow> resolve_env) \<Rightarrow> language \<Rightarrow> runtime_settings \<Rightarrow> provider \<Rightarrow> install_hosts
     \<Rightarrow> (fs \<Rightarrow> fs \<Rightarrow> bool) \<Rightarrow> install_sys \<Rightarrow> install_sys \<Rightarrow> bool"
  for e l s p ih quiet where
  moved:
    "moving (ns_task y i) \<Longrightarrow> takes_thread p s (ns_task y i) \<longrightarrow> has_thread ih y i \<Longrightarrow>
     install_move (e i) l s p (ns_task y i) (ns_fs y) = (st, fs') \<Longrightarrow>
     install_step e l s p ih quiet y
       (y\<lparr>ns_fs := fs', ns_task := (ns_task y)(i := st), ns_lock := release i st (ns_lock y),
          ns_fetched := (if \<exists>d. ns_task y i = IFetch d then insert i (ns_fetched y) else ns_fetched y)\<rparr>)"
| granted:
    "ns_task y i = IWait d file \<Longrightarrow> ns_lock y file = None \<Longrightarrow>
     install_step e l s p ih quiet y
       (y\<lparr>ns_task := (ns_task y)(i := ICheck d), ns_lock := (ns_lock y)(file \<mapsto> i)\<rparr>)"
| elsewhere:
    "quiet (ns_fs y) fs' \<Longrightarrow> install_step e l s p ih quiet y (y\<lparr>ns_fs := fs'\<rparr>)"

subsection \<open>One call in one piece\<close>

text \<open>A call that finds its lock free and is left alone takes the steps of \<open>install_run\<close>.\<close>

fun run_stages ::
  "nat \<Rightarrow> resolve_env \<Rightarrow> language \<Rightarrow> runtime_settings \<Rightarrow> provider \<Rightarrow> install_stage \<Rightarrow> fs \<Rightarrow> install_stage \<times> fs" where
  "run_stages 0 env l s p st fs = (st, fs)"
| "run_stages (Suc n) env l s p st fs =
     (case st of
        IWait d file \<Rightarrow> run_stages n env l s p (ICheck d) fs
      | _ \<Rightarrow> (case install_move env l s p st fs of (st1, fs1) \<Rightarrow> run_stages n env l s p st1 fs1))"

lemma run_stages_done [simp]: "run_stages n env l s p (IDone r) fs = (IDone r, fs)"
  by (induction n) simp_all

lemma run_stages_moving:
  "moving st \<Longrightarrow> run_stages (Suc n) env l s p st fs =
     (case install_move env l s p st fs of (st1, fs1) \<Rightarrow> run_stages n env l s p st1 fs1)"
  by (cases st) (simp_all add: moving_def finished_def del: install_move.simps)

lemma run_stages_install:
  "run_stages 12 env l s p IBegin fs = (case install_run env l s p fs of (r, fs') \<Rightarrow> (IDone r, fs'))"
  by (simp add: numeral_eq_Suc install_run_def unpack_and_promote_def installed_dir_def archive_of_def staging_of_def
      Let_def split: sum.splits prod.splits option.splits)

definition early :: "install_stage \<Rightarrow> bool" where
  "early st \<longleftrightarrow> \<not> locked_stage st \<and> \<not> finished st"

lemma install_move_late: "moving st \<Longrightarrow> \<not> early st \<Longrightarrow> install_move env l s p st fs = (st', fs') \<Longrightarrow> \<not> early st'"
  by (cases st) (auto simp: early_def finished_def split: sum.splits option.splits prod.splits)

lemma has_thread_alone:
  assumes "ns_task z = (ns_task y)(i := st)"
  shows "has_thread ih z i \<longleftrightarrow> has_thread ih y i"
proof -
  have "parked ih z q - {i} = parked ih y q - {i}" for q using assms by (auto simp: parked_def)
  then show ?thesis by (simp add: has_thread_def)
qed

lemma run_stages_steps:
  "run_stages n (e i) l s p (ns_task y i) (ns_fs y) = (st, fs) \<Longrightarrow> has_thread ih y i \<Longrightarrow>
   (early (ns_task y i) \<Longrightarrow> \<forall>f. ns_lock y f = None) \<Longrightarrow>
   \<exists>y'. (install_step e l s p ih quiet)\<^sup>*\<^sup>* y y' \<and> ns_fs y' = fs \<and> ns_task y' = (ns_task y)(i := st)"
proof (induction n arbitrary: y)
  case (Suc n)
  have on: "\<exists>y'. (install_step e l s p ih quiet)\<^sup>*\<^sup>* y y' \<and> ns_fs y' = fs \<and> ns_task y' = (ns_task y)(i := st)"
    if step: "install_step e l s p ih quiet y z" and task: "ns_task z = (ns_task y)(i := ns_task z i)"
      and run: "run_stages n (e i) l s p (ns_task z i) (ns_fs z) = (st, fs)"
      and free: "early (ns_task z i) \<Longrightarrow> \<forall>f. ns_lock z f = None" for z
  proof -
    obtain y' where "(install_step e l s p ih quiet)\<^sup>*\<^sup>* z y'" "ns_fs y' = fs" "ns_task y' = (ns_task z)(i := st)"
      using Suc.IH [OF run _ free] Suc.prems(2) has_thread_alone [OF task] by blast
    moreover from this(1) have "(install_step e l s p ih quiet)\<^sup>*\<^sup>* y y'"
      by (rule converse_rtranclp_into_rtranclp [where r = "install_step e l s p ih quiet", OF step])
    ultimately show ?thesis using task by (metis fun_upd_upd)
  qed
  consider (waiting) d f where "ns_task y i = IWait d f" | (over) r where "ns_task y i = IDone r" | (moves) "moving (ns_task y i)"
    by (auto simp: moving_def finished_def)
  then show ?case
  proof cases
    case waiting
    then have free: "ns_lock y f = None" using Suc.prems(3) by (simp add: early_def finished_def)
    show ?thesis
      using Suc.prems(1) waiting by (intro on [OF granted [OF waiting free]]) (simp_all add: early_def)
  next
    case over
    then show ?thesis using Suc.prems(1) by (intro exI [of _ y]) (simp add: fun_upd_idem)
  next
    case moves
    obtain st1 fs1 where mv: "install_move (e i) l s p (ns_task y i) (ns_fs y) = (st1, fs1)" by (metis surj_pair)
    have run: "run_stages n (e i) l s p st1 fs1 = (st, fs)"
      using Suc.prems(1) mv run_stages_moving [OF moves] by (simp del: run_stages.simps)
    show ?thesis
    proof (rule on [OF moved [where e = e and y = y and i = i, OF moves _ mv]])
      assume "early (ns_task (y\<lparr>ns_fs := fs1, ns_task := (ns_task y)(i := st1), ns_lock := release i st1 (ns_lock y),
          ns_fetched := (if \<exists>d. ns_task y i = IFetch d then insert i (ns_fetched y) else ns_fetched y)\<rparr>) i)"
      then have "early st1" "early (ns_task y i)" using install_move_late [OF moves _ mv] by auto
      then show "\<forall>f. ns_lock (y\<lparr>ns_fs := fs1, ns_task := (ns_task y)(i := st1), ns_lock := release i st1 (ns_lock y),
          ns_fetched := (if \<exists>d. ns_task y i = IFetch d then insert i (ns_fetched y) else ns_fetched y)\<rparr>) f = None"
        using Suc.prems(3) by (simp add: release_def)
    qed (use run Suc.prems(2) in simp_all)
  qed
qed (auto intro: exI [of _ y])

theorem whole_install_is_steps:
  assumes "install_run (e i) l s p (ns_fs y) = (r, fs)" "ns_task y i = IBegin" "has_thread ih y i"
    "\<forall>f. ns_lock y f = None"
  shows "\<exists>y'. (install_step e l s p ih quiet)\<^sup>*\<^sup>* y y' \<and> ns_fs y' = fs \<and> ns_task y' = (ns_task y)(i := IDone r)"
proof -
  have "run_stages 12 (e i) l s p (ns_task y i) (ns_fs y) = (IDone r, fs)"
    using assms(1,2) run_stages_install by simp
  then show ?thesis using run_stages_steps [where y = y and i = i] assms(3,4) by blast
qed

end
