(* ===== verification/Engine.thy ===== *)
theory Engine
  imports Resolver Pools
begin

text \<open>
  Running code: \<open>crates/tinyruntime/src/exec\<close>, the harness on disk of \<open>pool/env.rs\<close>, and
  the bus-facing object of \<open>crates/tinyruntime/src/tinybus_module\<close>.  The engine holds the
  resolver with its memo, the registry of pools, the harness root and the host's spawner; one
  execution resolves, builds the launch, gets the pool and runs the job in it.
\<close>

subsection \<open>The harness on disk\<close>

record harness_env =
  hv_mkdir :: "io_error option"
  hv_write :: "io_error option"

definition materialise ::
  "harness_env \<Rightarrow> loc \<Rightarrow> string \<Rightarrow> worker_harness \<Rightarrow> fs \<Rightarrow> string result \<times> fs" where
  "materialise env cwd root harness fs =
     (case create_dir_all (hv_mkdir env) cwd (view root) fs of
        (Some e, fs1) \<Rightarrow> (Inl (Storage (io_to_string e)), fs1)
      | (None, fs1) \<Rightarrow>
      let path = path_join root (wh_filename harness)
      in case (case hv_write env of Some e \<Rightarrow> (Some e, fs1)
               | None \<Rightarrow> write_file (wh_source harness) cwd (view path) fs1) of
           (Some e, fs2) \<Rightarrow> (Inl (Storage (io_to_string e)), fs2)
         | (None, fs2) \<Rightarrow> (Inr path, fs2))"

subsection \<open>The engine\<close>

record engine =
  en_resolver :: resolver
  en_pools :: pools
  en_harness_root :: string
  en_spawner :: "spawner option"

definition engine_new :: "registry \<Rightarrow> string \<Rightarrow> engine" where
  "engine_new r root =
     \<lparr>en_resolver = resolver_new r, en_pools = pools_new, en_harness_root = root, en_spawner = None\<rparr>"

definition engine_with_spawner :: "spawner \<Rightarrow> engine \<Rightarrow> engine" where
  "engine_with_spawner s en = en\<lparr>en_spawner := Some s\<rparr>"

definition engine_registry :: "engine \<Rightarrow> registry" where
  "engine_registry en = rv_registry (en_resolver en)"

definition engine_resolve ::
  "resolve_env \<Rightarrow> resolve_request \<Rightarrow> engine \<Rightarrow> fs \<Rightarrow> resolved_runtime option result \<times> engine \<times> fs" where
  "engine_resolve env request en fs =
     (case resolve env request (en_resolver en) fs of (r, rv, fs1) \<Rightarrow> (r, en\<lparr>en_resolver := rv\<rparr>, fs1))"

definition engine_pool_stats :: "engine \<Rightarrow> pool_stats list" where
  "engine_pool_stats en = pools_stats (en_pools en)"

definition engine_prepare_environment ::
  "language \<Rightarrow> environment_preparation_request \<Rightarrow> engine \<Rightarrow> environment_preparation_plan option result" where
  "engine_prepare_environment l request en = registry_prepare_environment (engine_registry en) l request"

record exec_env =
  xe_resolve :: resolve_env
  xe_harness :: harness_env
  xe_host :: "string \<rightharpoonup> string"
  xe_debug :: "string \<Rightarrow> string"
  xe_codec :: codec
  xe_run :: run_env

definition launch_for ::
  "exec_env \<Rightarrow> engine \<Rightarrow> resolved_runtime \<Rightarrow> language \<Rightarrow> fs \<Rightarrow> launch result \<times> fs" where
  "launch_for env en runtime l fs =
     (case registry_provider (rv_registry (en_resolver en)) l of
        Inl e \<Rightarrow> (Inl e, fs)
      | Inr p \<Rightarrow>
      case pr_harness p of
        Inl e \<Rightarrow> (Inl e, fs)
      | Inr harness \<Rightarrow>
      case resolved_executable runtime (wh_executable harness) of
        None \<Rightarrow> (Inl (EmptyInstall l), fs)
      | Some binary \<Rightarrow>
      case materialise (xe_harness env) (ev_cwd (xe_resolve env))
             (path_join (en_harness_root en) (as_str l)) harness fs of
        (Inl e, fs1) \<Rightarrow> (Inl e, fs1)
      | (Inr script, fs1) \<Rightarrow>
          (Inr \<lparr>la_language = l, la_binary = binary, la_args = command_args harness script,
                la_env = env_build (xe_host env) (rr_bin_dir runtime) (wh_env harness),
                la_protocol_version = wh_protocol_version harness,
                la_handshake_timeout = DEFAULT_HANDSHAKE_TIMEOUT,
                la_spawner = en_spawner en\<rparr>, fs1))"

text \<open>A finished call is a task of its pool's system, with the number it had, if it got one.\<close>

definition finish_call ::
  "exec_response result \<Rightarrow> lang_pool \<Rightarrow> string option \<Rightarrow> pool_sys \<Rightarrow> pool_sys" where
  "finish_call r p line y =
     (let n = (if fst (enter (sys_pool y)) then None else Some (lp_next_job (sys_pool y)))
      in \<lparr>sys_pool = p, sys_tasks = sys_tasks y @ [Done n (Some r)],
          sys_sent = sys_sent y @ (if line = None then [] else [lp_next_job (sys_pool y)])\<rparr>)"

definition execute ::
  "exec_env \<Rightarrow> exec_request \<Rightarrow> engine \<Rightarrow> fs \<Rightarrow> (exec_response result \<times> engine \<times> fs) option" where
  "execute env request en fs =
     (case require (xe_resolve env) (resolve_request_new (xr_language request) (xr_settings request))
             (en_resolver en) fs of
        (Inl e, rv, fs1) \<Rightarrow> Some (Inl e, en\<lparr>en_resolver := rv\<rparr>, fs1)
      | (Inr runtime, rv, fs1) \<Rightarrow>
      let en1 = en\<lparr>en_resolver := rv\<rparr>
      in case launch_for env en1 runtime (xr_language request) fs1 of
        (Inl e, fs2) \<Rightarrow> Some (Inl e, en1, fs2)
      | (Inr l, fs2) \<Rightarrow>
      case ensure (xe_debug env) l (xr_pool request) (rr_version runtime) (en_pools en1) of
        (a, ps) \<Rightarrow>
      case pool_run (xe_codec env) (xr_code request) (xr_cwd request)
             (map_option dur_from_millis (xr_timeout_ms request)) (xe_run env) (pool_at ps a) of
        None \<Rightarrow> None
      | Some (r, p, line) \<Rightarrow>
          Some (r, en1\<lparr>en_pools := ps\<lparr>po_store := (po_store ps)[a := finish_call r p line (po_store ps ! a)]\<rparr>\<rparr>,
                fs2))"

subsection \<open>The object on the bus\<close>

text \<open>A router failure as a bus error: its rendering.\<close>

definition failed :: "error \<Rightarrow> string" where
  "failed e = error_to_string e"

definition service_languages :: "engine \<Rightarrow> string + languages_response" where
  "service_languages en = Inr (languages_response_new (registry_statuses (engine_registry en)))"

definition service_resolve ::
  "resolve_env \<Rightarrow> resolve_request \<Rightarrow> engine \<Rightarrow> fs \<Rightarrow> (string + resolve_response) \<times> engine \<times> fs" where
  "service_resolve env request en fs =
     (case engine_resolve env request en fs of
        (Inr (Some r), en1, fs1) \<Rightarrow> (Inr (resolve_found r), en1, fs1)
      | (Inr None, en1, fs1) \<Rightarrow> (Inr resolve_missing, en1, fs1)
      | (Inl e, en1, fs1) \<Rightarrow> (Inl (failed e), en1, fs1))"

definition service_execute ::
  "exec_env \<Rightarrow> exec_request \<Rightarrow> engine \<Rightarrow> fs \<Rightarrow> ((string + exec_response) \<times> engine \<times> fs) option" where
  "service_execute env request en fs =
     map_option (\<lambda>(r, en1, fs1). (case r of Inl e \<Rightarrow> Inl (failed e) | Inr x \<Rightarrow> Inr x, en1, fs1))
       (execute env request en fs)"

definition service_pool_stats :: "engine \<Rightarrow> string + pool_stats_response" where
  "service_pool_stats en = Inr (pool_stats_response_new (engine_pool_stats en))"

definition service_prepare_environment ::
  "prepare_environment_request \<Rightarrow> engine \<Rightarrow> string + environment_preparation_plan option" where
  "service_prepare_environment request en =
     (case engine_prepare_environment (pq_language request) (pq_preparation request) en of
        Inl e \<Rightarrow> Inl (failed e)
      | Inr plan \<Rightarrow> Inr plan)"

text \<open>
  Setup: the routing table from the configuration, the engine over it, then the object and the name
  on the bus; either of the two may fail.
\<close>

definition setup_engine :: "connection \<Rightarrow> string option \<Rightarrow> module_config \<Rightarrow> engine" where
  "setup_engine cn dirs_cache_dir config =
     engine_new (setup_registry cn config) (harness_root dirs_cache_dir config)"

subsection \<open>Executions and the pools\<close>

lemma pool_sys_update:
  "(y :: pool_sys)\<lparr>sys_pool := p, sys_tasks := ts\<rparr> = \<lparr>sys_pool = p, sys_tasks = ts, sys_sent = sys_sent y\<rparr>"
  by simp

lemma pool_run_steps:
  assumes "pool_run co code cwd timeout env (sys_pool y) = Some (r, p, line)"
  shows "pool_step\<^sup>*\<^sup>* y (finish_call r p line y)"
proof (cases "enter (sys_pool y)")
  case (Pair over p1)
  show ?thesis
  proof (cases over)
    case True
    then have r: "r = Inl (PoolSaturated (pool_language (sys_pool y)))"
        "p = count_rejected (leave p1)" "line = None"
      using assms Pair by (auto simp: pool_run_def)
    have lang: "pool_language p1 = pool_language (sys_pool y)"
      using Pair by (auto simp: enter_def pool_language_def)
    have "pool_step y \<lparr>sys_pool = p1, sys_tasks = sys_tasks y @ [Rejecting], sys_sent = sys_sent y\<rparr>"
      using pool_step.call_over [of y p1] Pair True by (simp add: pool_sys_update)
    moreover have "pool_step\<^sup>*\<^sup>*
        \<lparr>sys_pool = p1, sys_tasks = sys_tasks y @ [Rejecting], sys_sent = sys_sent y\<rparr>
        (finish_call r p line y)"
      using moves_steps [OF moves_one [OF move.refuse [of p1]], of "sys_tasks y" "sys_sent y"] r lang Pair True
      by (simp add: finish_call_def)
    ultimately show ?thesis by (rule converse_rtranclp_into_rtranclp)
  next
    case False
    have m: "moves p1 Waiting p (Done (Some (lp_next_job (sys_pool y))) (Some r))
        (if line = None then [] else [lp_next_job (sys_pool y)])"
      using pool_run_moves [OF assms] Pair False by simp
    have "pool_step y \<lparr>sys_pool = p1, sys_tasks = sys_tasks y @ [Waiting], sys_sent = sys_sent y\<rparr>"
      using pool_step.call_in [of y p1] Pair False by (simp add: pool_sys_update)
    then show ?thesis
      using moves_steps [OF m, of "sys_tasks y" "sys_sent y"] Pair False
      by (simp add: finish_call_def converse_rtranclp_into_rtranclp)
  qed
qed

lemma store_steps:
  "pool_step\<^sup>*\<^sup>* x y \<Longrightarrow> a < length (po_store ps) \<Longrightarrow> po_store ps ! a = x \<Longrightarrow>
   (pools_step dbg)\<^sup>*\<^sup>* ps (ps\<lparr>po_store := (po_store ps)[a := y]\<rparr>)"
proof (induction arbitrary: rule: rtranclp_induct)
  case base
  then show ?case by auto
next
  case (step y z)
  let ?q = "ps\<lparr>po_store := (po_store ps)[a := y]\<rparr>"
  have "pools_step dbg ?q (?q\<lparr>po_store := (po_store ?q)[a := z]\<rparr>)"
    using step by (intro pools_step.work) auto
  then show ?case using step by (simp add: rtranclp.rtrancl_into_rtrancl)
qed

text \<open>Whatever the engine does to its pools is a run of the registry.\<close>

lemma execute_pools:
  assumes run: "execute env request en fs = Some (r, en', fs')" and inv: "pools_inv (xe_debug env) (en_pools en)"
  shows "(pools_step (xe_debug env))\<^sup>*\<^sup>* (en_pools en) (en_pools en')"
proof -
  obtain q rv fs1 where req: "require (xe_resolve env) (resolve_request_new (xr_language request)
      (xr_settings request)) (en_resolver en) fs = (q, rv, fs1)" by (metis prod_cases3)
  let ?en1 = "en\<lparr>en_resolver := rv\<rparr>"
  show ?thesis
  proof (cases q)
    case (Inl e)
    then show ?thesis using run req by (auto simp: execute_def)
  next
    case (Inr runtime)
    obtain lr fs2 where la: "launch_for env ?en1 runtime (xr_language request) fs1 = (lr, fs2)"
      by (metis surj_pair)
    show ?thesis
    proof (cases lr)
      case (Inl e)
      then show ?thesis using run req Inr la by (auto simp: execute_def Let_def)
    next
      case (Inr l)
      obtain a ps where en: "ensure (xe_debug env) l (xr_pool request) (rr_version runtime)
          (en_pools en) = (a, ps)" by (metis surj_pair)
      obtain p line where pr: "pool_run (xe_codec env) (xr_code request) (xr_cwd request)
            (map_option dur_from_millis (xr_timeout_ms request)) (xe_run env) (pool_at ps a) = Some (r, p, line)"
        and en': "en_pools en' = ps\<lparr>po_store := (po_store ps)[a := finish_call r p line (po_store ps ! a)]\<rparr>"
        using run req \<open>q = Inr runtime\<close> la Inr en
        by (auto simp: execute_def Let_def split: option.splits)
      have a: "a < length (po_store ps)" using ensure_entry_ok(1) [OF inv en] .
      have "pools_step (xe_debug env) (en_pools en) ps" using en by (rule pools_step.ask)
      then show ?thesis
        using store_steps [OF pool_run_steps [OF pr [unfolded pool_at_def]] a refl] en'
        by (simp add: converse_rtranclp_into_rtranclp)
    qed
  qed
qed

end
