(* ===== verification/Provision_Properties.thy ===== *)
theory Provision_Properties
  imports Engine
begin

text \<open>
  What provisioning guarantees, each with a concrete instance: the properties of
  \<open>crates/tinyruntime/src/\<close> \<open>store\<close>, \<open>download\<close>, \<open>archive\<close>, \<open>provider\<close>,
  \<open>resolve\<close> and \<open>exec\<close>.
\<close>

subsection \<open>A sample disk and a sample provider\<close>

definition demo_fs :: fs where
  "demo_fs =
     [([''c''], Dir), ([''c'', ''node''], Dir), ([''c'', ''node'', ''bin''], File ''old''),
      ([''c'', ''.stage-1''], Dir), ([''c'', ''.stage-1'', ''n''], Dir),
      ([''c'', ''.stage-1'', ''n'', ''bin''], File ''new'')]"

definition demo_keep :: removal where
  "demo_keep = \<lparr>rm_refused = None, rm_stays = (\<lambda>_. False)\<rparr>"

definition demo_promote :: promote_env where
  "demo_promote =
     \<lparr>pv_pid = 9, pv_mkdir = None, pv_clear = demo_keep, pv_aside = None, pv_place = None,
      pv_restore = None, pv_cleanup = demo_keep\<rparr>"

lemmas demo_fs_defs = demo_fs_def demo_keep_def demo_promote_def

lemma demo_plain:
  "plain demo_fs [''c'', ''node'']" "plain demo_fs [''c'', ''.stage-1'', ''n'']"
  by (simp_all add: plain_check demo_fs_def node_at_def)

lemma dec_9: "dec 9 = ''9''"
  by (simp add: dec.simps) code_simp

lemma demo_aside: "aside_loc 9 [''c'', ''node''] = [''c'', ''node.replaced-9'']"
  by (simp add: aside_loc_def dec_9 file_stem_def)

subsection \<open>Promotion\<close>

text \<open>
  C11.  A promotion that fails, at whatever step the host refuses, leaves the previous install exactly
  as it was, file by file, unless the host also refuses to move it back.
\<close>

theorem promote_failure_keeps_install:
  "plain fs d \<Longrightarrow> aside_loc (pv_pid env) d \<noteq> d \<Longrightarrow> path_exists fs cwd (path_to d) \<Longrightarrow>
   pv_restore env = None \<Longrightarrow>
   promote panics env cwd staged (path_to d) l fs = (Inl e, fs') \<Longrightarrow>
   node_at fs' (d @ x) = node_at fs (d @ x)"
  using promote_blocking_failure [of fs d env cwd staged l e fs' x]
  by (auto simp: promote_def blocking_run_def split: option.splits prod.splits)

theorem promote_failure_keeps_install_witness:
  "\<exists>e fs'. promote None (demo_promote\<lparr>pv_place := Some (HostError ''disk full'')\<rparr>) []
      (path_to [''c'', ''.stage-1'', ''n'']) (path_to [''c'', ''node'']) language_nodejs demo_fs = (Inl e, fs')
    \<and> node_at fs' [''c'', ''node'', ''bin''] = Some (File ''old'')"
proof -
  let ?env = "demo_promote\<lparr>pv_place := Some (HostError ''disk full'')\<rparr>"
  let ?run = "promote None ?env [] (path_to [''c'', ''.stage-1'', ''n'']) (path_to [''c'', ''node'']) language_nodejs demo_fs"
  obtain r fs' where run: "?run = (r, fs')" by (metis surj_pair)
  have "\<exists>e. fst ?run = Inl e"
    by (auto simp: promote_def blocking_run_def promote_blocking_def Let_def install_failed_def rename_def
        split: option.splits prod.splits)
  then obtain e where e: "r = Inl e" using run by auto
  have there: "path_exists demo_fs [] (path_to [''c'', ''node''])"
    using locate_plain_follow [OF demo_plain(1), of "[]"]
    by (simp add: path_exists_def canonicalize_def demo_fs_def node_at_def)
  have "node_at fs' ([''c'', ''node''] @ [''bin'']) = node_at demo_fs ([''c'', ''node''] @ [''bin''])"
    using promote_failure_keeps_install [OF demo_plain(1) _ there _ run [unfolded e]] demo_aside
    by (simp add: demo_promote_def)
  then show ?thesis using run e by (auto simp: demo_fs_def node_at_def)
qed

text \<open>
  C36.  A promotion that reports success has put the whole staged tree at the destination, node for
  node, and nothing of it is left in the staging directory.
\<close>

theorem promote_success_is_whole:
  "plain fs d \<Longrightarrow> plain fs s \<Longrightarrow> aside_loc (pv_pid env) d \<noteq> d \<Longrightarrow> apart s d \<Longrightarrow>
   apart s (aside_loc (pv_pid env) d) \<Longrightarrow>
   promote panics env cwd (path_to s) (path_to d) l fs = (Inr (), fs') \<Longrightarrow>
   node_at fs' (d @ x) = node_at fs (s @ x) \<and> node_at fs' (s @ x) = None"
  using promote_blocking_success [of fs d s env cwd l fs' x]
  by (auto simp: promote_def blocking_run_def split: option.splits prod.splits)

text \<open>
  C37.  When the host refuses nothing, promoting a staged tree over a previous install, or to a free
  place, succeeds.
\<close>

theorem promote_succeeds:
  "plain fs d \<Longrightarrow> plain fs s \<Longrightarrow> aside_loc (pv_pid env) d \<noteq> d \<Longrightarrow> apart s d \<Longrightarrow>
   apart s (aside_loc (pv_pid env) d) \<Longrightarrow> node_at fs s \<noteq> None \<Longrightarrow> \<forall>t. node_at fs d \<noteq> Some (Link t) \<Longrightarrow>
   \<forall>c. node_at fs (aside_loc (pv_pid env) d) \<noteq> Some (File c) \<Longrightarrow> pv_mkdir env = None \<Longrightarrow>
   rm_refused (pv_clear env) = None \<Longrightarrow> pv_aside env = None \<Longrightarrow> pv_place env = None \<Longrightarrow>
   fst (promote None env cwd (path_to s) (path_to d) l fs) = Inr ()"
  using promote_blocking_unrefused [of fs d s env cwd l]
  by (auto simp: promote_def blocking_run_def split: prod.splits)

lemma demo_apart:
  "apart [''c'', ''.stage-1'', ''n''] [''c'', ''node'']"
  "apart [''c'', ''.stage-1'', ''n''] [''c'', ''node.replaced-9'']"
  by (simp_all add: apart_def)

theorem promote_succeeds_witness:
  "fst (promote None demo_promote [] (path_to [''c'', ''.stage-1'', ''n'']) (path_to [''c'', ''node''])
      language_nodejs demo_fs) = Inr ()"
  by (rule promote_succeeds [OF demo_plain])
    (simp_all add: demo_promote_def demo_keep_def demo_aside demo_apart, simp_all add: demo_fs_def node_at_def)

lemma demo_promoted:
  "\<exists>fs'. promote None demo_promote [] (path_to [''c'', ''.stage-1'', ''n'']) (path_to [''c'', ''node''])
     language_nodejs demo_fs = (Inr (), fs')"
proof -
  have "fst (promote_blocking demo_promote [] (path_to [''c'', ''.stage-1'', ''n'']) (path_to [''c'', ''node''])
      language_nodejs demo_fs) = Inr ()"
    by (rule promote_blocking_unrefused [OF demo_plain])
      (simp_all add: demo_promote_def demo_keep_def demo_aside demo_apart, simp_all add: demo_fs_def node_at_def)
  then show ?thesis by (auto simp: promote_def blocking_run_def prod_eq_iff split: prod.splits)
qed

theorem promote_success_is_whole_witness:
  "\<exists>fs'. promote None demo_promote [] (path_to [''c'', ''.stage-1'', ''n'']) (path_to [''c'', ''node''])
      language_nodejs demo_fs = (Inr (), fs')
    \<and> node_at fs' [''c'', ''node'', ''bin''] = Some (File ''new'')"
proof -
  obtain fs' where run: "promote None demo_promote [] (path_to [''c'', ''.stage-1'', ''n''])
      (path_to [''c'', ''node'']) language_nodejs demo_fs = (Inr (), fs')"
    using demo_promoted by blast
  have "node_at fs' ([''c'', ''node''] @ [''bin'']) = node_at demo_fs ([''c'', ''.stage-1'', ''n''] @ [''bin''])"
    using promote_success_is_whole [OF demo_plain _ demo_apart(1) _ run, of "[''bin'']"] demo_aside demo_apart(2)
    by (simp add: demo_promote_def)
  then show ?thesis using run by (auto simp: demo_fs_def node_at_def)
qed

subsection \<open>Download\<close>

definition demo_fetch :: fetch_env where
  "demo_fetch =
     \<lparr>ft_client = (\<lambda>_. Inr [Chunk ''ab'' None, Chunk ''c'' None]), ft_user_agent = ''tinyruntime'',
      ft_sha256 = (\<lambda>s. [char_of (length s)]), ft_mkdir = None, ft_create = None, ft_flush = None,
      ft_remove = None\<rparr>"

definition demo_distribution :: distribution where
  "demo_distribution = with_sha256 ''03'' (distribution_new ''1'' ''n.zip'' ''https://x/n.zip'' Zip)"

lemma demo_target: "plain demo_fs [''c'', ''n.zip'']" "node_at demo_fs [''c'', ''n.zip''] = None"
  by (simp_all add: plain_check demo_fs_def node_at_def)

lemma hex_3: "hex_encode [char_of (3::nat)] = ''03''"
  by code_simp

text \<open>
  C17.  A fetch that succeeds has left at the target exactly the bytes the channel sent, and when the
  channel published a digest those bytes have it; nothing else on disk changed.
\<close>

theorem fetch_success_verified:
  "plain fs t \<Longrightarrow> node_at fs t = None \<or> (\<exists>c. node_at fs t = Some (File c)) \<Longrightarrow>
   fetch env cwd d (path_to t) l fs = (Inr (), fs') \<Longrightarrow>
   \<exists>body. ft_client env (request_of env d) = Inr body
     \<and> node_at fs' t = Some (File (body_bytes body)) \<and> digest_ok env d (body_bytes body)
     \<and> (\<forall>k. k \<noteq> t \<longrightarrow> node_at fs' k = node_at fs k)"
  by (rule fetch_verified)

lemma demo_fetch_parent:
  "create_dir_all None [] (True, [Normal ''c'']) demo_fs = (None, demo_fs)"
  using create_dir_all_there [of "[''c'']" demo_fs "[]"]
  by (simp add: plain_check demo_fs_def node_at_def path_to_def)

lemma demo_fetch_run:
  "\<exists>fs'. fetch demo_fetch [] demo_distribution (path_to [''c'', ''n.zip'']) language_nodejs demo_fs = (Inr (), fs')"
proof -
  obtain fs1 where w1: "write_file [] [] (path_to [''c'', ''n.zip'']) demo_fs = (None, fs1)"
    using write_file_plain [OF demo_target(1)] demo_target(2) by blast
  have d: "d_expected_sha256 demo_distribution = Some ''03''"
    by (simp add: demo_distribution_def with_sha256_def)
  have "stream_to_file demo_fetch [] demo_distribution (path_to [''c'', ''n.zip'']) language_nodejs demo_fs
      = (Inr ''03'', snd (write_file ''abc'' [] (path_to [''c'', ''n.zip'']) fs1))"
    using w1 hex_3 by (simp add: stream_to_file_def demo_fetch_def numeral_3_eq_3)
  then show ?thesis
    using demo_fetch_parent d
    by (simp add: fetch_def parent_of_def path_to_def demo_fetch_def eq_ignore_ascii_case_def)
qed

theorem fetch_success_verified_witness:
  "\<exists>fs'. fetch demo_fetch [] demo_distribution (path_to [''c'', ''n.zip'']) language_nodejs demo_fs = (Inr (), fs')
     \<and> node_at fs' [''c'', ''n.zip''] = Some (File ''abc'')"
proof -
  obtain fs' where run: "fetch demo_fetch [] demo_distribution (path_to [''c'', ''n.zip''])
      language_nodejs demo_fs = (Inr (), fs')" using demo_fetch_run by blast
  have "node_at fs' [''c'', ''n.zip''] = Some (File ''abc'')"
    using fetch_success_verified [OF demo_target(1) _ run] demo_target(2) by (auto simp: demo_fetch_def)
  with run show ?thesis by blast
qed



subsection \<open>Unpacking\<close>

text \<open>
  C33.  Unpacking a zip archive writes only below the staging directory, whether or not it succeeds:
  entries the zip crate calls escaping are skipped, and the others may be called anything that the
  crate's \<open>enclosed_name\<close> documents, a relative path that never steps out of the directory it starts in,
  with dots, with steps back over names it went into, or empty.  The staging directory has no link in it
  to begin with.
\<close>

theorem unzip_stays_below:
  "sealed fs s \<Longrightarrow> (\<And>e rel. Inr e \<in> set es \<Longrightarrow> ze_enclosed e = Some rel \<Longrightarrow> enclosed rel) \<Longrightarrow>
   unzip_entries cwd (path_to s) es fs = (r, fs') \<Longrightarrow>
   \<not> strict_prefix s l \<Longrightarrow> node_at fs' l = node_at fs l"
  using unzip_entries_sealed [of fs s es cwd r fs'] by (auto simp: only_below_def)

lemma no_links: "(\<And>k t. (k, Link t) \<notin> set fs) \<Longrightarrow> node_at fs l \<noteq> Some (Link t)"
  by (auto simp: node_at_def dest: map_of_SomeD split: if_splits)

lemma demo_sealed: "sealed demo_fs [''c'', ''.stage-1'']"
proof -
  have "\<And>x t. node_at demo_fs ([''c'', ''.stage-1''] @ x) \<noteq> Some (Link t)"
    by (rule no_links) (auto simp: demo_fs_def)
  then show ?thesis by (simp add: sealed_def plain_check) (simp add: demo_fs_def node_at_def)
qed

definition demo_entry :: zip_entry where
  "demo_entry =
     \<lparr>ze_enclosed = Some ''n/x'', ze_is_dir = False, ze_content = ''z'', ze_mode = None, ze_mkdir = None,
      ze_create = None, ze_copy = None, ze_chmod = None\<rparr>"

theorem unzip_stays_below_witness:
  "node_at (snd (unzip_entries [] (path_to [''c'', ''.stage-1''])
      [Inr demo_entry, Inr (demo_entry\<lparr>ze_enclosed := None\<rparr>), Inr (demo_entry\<lparr>ze_enclosed := Some ''n/../m/y''\<rparr>)] demo_fs))
     [''c'', ''node'', ''bin''] = Some (File ''old'')"
proof -
  let ?es = "[Inr demo_entry, Inr (demo_entry\<lparr>ze_enclosed := None\<rparr>), Inr (demo_entry\<lparr>ze_enclosed := Some ''n/../m/y''\<rparr>)]"
  obtain r fs' where run: "unzip_entries [] (path_to [''c'', ''.stage-1'']) ?es demo_fs = (r, fs')"
    by (metis surj_pair)
  have "enclosed ''n/x''" "enclosed ''n/../m/y''"
    by (simp_all add: enclosed_def is_absolute_def starts_with_def components_def component_of_def)
  then have enc: "\<And>e rel. Inr e \<in> set ?es \<Longrightarrow> ze_enclosed e = Some rel \<Longrightarrow> enclosed rel"
    by (auto simp: demo_entry_def)
  have "node_at fs' [''c'', ''node'', ''bin''] = node_at demo_fs [''c'', ''node'', ''bin'']"
    by (rule unzip_stays_below [OF demo_sealed enc run]) (simp_all add: strict_prefix_def)
  then show ?thesis using run by (simp add: demo_fs_def node_at_def)
qed

subsection \<open>Reuse\<close>

definition demo_layout :: runtime_layout where
  "demo_layout = layout_with_executable ''node'' ''/c/node/bin'' (runtime_layout_new ''22'' ''/c/node'')"

definition demo_descriptor :: provider_descriptor where
  "demo_descriptor = provider_descriptor_new language_nodejs ''Node.js'' ''22''"

text \<open>A provider that knows the toolchain in \<open>/c/node\<close> and nothing else.\<close>

definition demo_provider :: provider where
  "demo_provider =
     \<lparr>pr_describe = Inr demo_descriptor, pr_detect_system = (\<lambda>_ _. Inr None),
      pr_select_distribution = (\<lambda>_. Inr demo_distribution),
      pr_layout = (\<lambda>_ dir _. Inr (if dir = ''/c/node'' then Some demo_layout else None)),
      pr_harness = Inr (worker_harness_new ''h.js'' ''x'' ''node''),
      pr_prepare_environment = (\<lambda>_. Inr None)\<rparr>"

definition demo_settings :: runtime_settings where
  "demo_settings = (runtime_settings_new ''22'')\<lparr>rs_cache_dir := ''/c''\<rparr>"

text \<open>
  C34.  A toolchain reused from the cache is a real directory directly in the cache root, not a
  symbolic link, not an unfinished staging directory, inside the root after resolving links, and the
  provider accepted it for the caller's settings.
\<close>

theorem scan_reuses_only_own_installs:
  "distinct (map fst fs) \<Longrightarrow> scan fs cwd root l s p = Some r \<Longrightarrow>
   \<exists>name layout rl. r = managed l (path_join root name) layout
     \<and> pr_layout p fs (path_join root name) s = Inr (Some layout)
     \<and> canonicalize fs cwd (view root) = Inr rl \<and> node_at fs (rl @ [name]) = Some Dir
     \<and> \<not> is_staging (path_join root name) \<and> is_inside fs cwd root (path_join root name)"
  unfolding scan_def by (fastforce dest: first_layout_Some candidates_inside children_node)

lemma demo_root: "view ''/c'' = (True, [Normal ''c''])"
  by (simp add: view_def is_absolute_def starts_with_def components_def component_of_def)

lemma demo_candidates: "candidates demo_fs [] ''/c'' = [''/c/node'']"
  by code_simp

theorem scan_reuses_only_own_installs_witness:
  "scan demo_fs [] ''/c'' language_nodejs demo_settings demo_provider = Some (managed language_nodejs ''/c/node'' demo_layout)
   \<and> \<not> is_staging ''/c/node''"
proof -
  have run: "scan demo_fs [] ''/c'' language_nodejs demo_settings demo_provider
      = Some (managed language_nodejs ''/c/node'' demo_layout)"
    by (simp add: scan_def demo_candidates demo_provider_def)
  have "distinct (map fst demo_fs)" by (simp add: demo_fs_def)
  from scan_reuses_only_own_installs [OF this run] obtain name layout where
    "managed language_nodejs ''/c/node'' demo_layout = managed language_nodejs (path_join ''/c'' name) layout"
    "\<not> is_staging (path_join ''/c'' name)" by blast
  then have "\<not> is_staging ''/c/node''" by (simp add: managed_def with_install_dir_def from_layout_def)
  with run show ?thesis by simp
qed

subsection \<open>Resolution\<close>

definition demo_resolve :: resolve_env where
  "demo_resolve =
     \<lparr>ev_cwd = [], ev_cache_dir = None, ev_pid = 9, ev_uuid = ''u'', ev_root = None,
      ev_lock = \<lparr>lk_mkdir = None, lk_open = None, lk_lock = None, lk_panics = None\<rparr>,
      ev_fetch = demo_fetch, ev_stage = demo_keep,
      ev_archive = \<lparr>ar_open = None, ar_untar_gz = (\<lambda>_ _ _ fs. (None, fs)), ar_untar_xz = (\<lambda>_ _ _ fs. (None, fs)),
         ar_unzip = (\<lambda>_. Inr [Inr demo_entry]), ar_mkdir = None, ar_list = None, ar_panics = None\<rparr>,
      ev_promote_panics = None, ev_promote = demo_promote, ev_cleanup = demo_keep, ev_remove_archive = None\<rparr>"

definition demo_resolver :: resolver where
  "demo_resolver = resolver_new (register language_nodejs providers_NODEJS demo_provider registry_new)"

definition demo_resolved :: resolved_runtime where
  "demo_resolved = managed language_nodejs ''/c/node'' demo_layout"

lemma demo_cache_dir: "settings_cache_dir demo_settings = Some ''/c''"
  by code_simp

lemma demo_enabled: "rs_enabled demo_settings" "rs_prefer_system demo_settings"
  by (simp_all add: demo_settings_def runtime_settings_new_def)

lemma demo_lookup: "registry_provider (rv_registry demo_resolver) language_nodejs = Inr demo_provider"
  by (simp add: demo_resolver_def resolver_new_def registry_provider_def table.lookup_add language_is_empty_def
      language_nodejs_def NODEJS_def)

lemma demo_contract: "verify_contract language_nodejs demo_descriptor = Inr ()"
  by (simp add: verify_contract_def demo_descriptor_def provider_descriptor_new_def provider_is_compatible_def
      binds_def CONTRACT_VERSION_def PROVIDER_CONTRACT_VERSION_def)

lemma demo_found:
  "without_network demo_resolve language_nodejs demo_settings demo_provider demo_fs = Inr (Some demo_resolved)"
proof -
  have root: "root_of demo_resolve language_nodejs demo_settings = ''/c''"
    by (simp add: root_of_def cache_root_def cache_root_under_def demo_cache_dir)
  have "scan demo_fs [] ''/c'' language_nodejs demo_settings demo_provider = Some demo_resolved"
    by (simp add: scan_def demo_candidates demo_resolved_def) (simp add: demo_provider_def)
  moreover have "pr_detect_system demo_provider demo_fs demo_settings = Inr None" "ev_cwd demo_resolve = []"
    by (simp_all add: demo_provider_def demo_resolve_def)
  ultimately show ?thesis by (simp add: without_network_def root)
qed

lemma demo_resolve_run:
  "resolve demo_resolve (resolve_request_probe language_nodejs demo_settings) demo_resolver demo_fs
     = (Inr (Some demo_resolved), remember (memo_key language_nodejs demo_settings) demo_resolved demo_resolver, demo_fs)"
proof -
  have "rv_resolved demo_resolver = Map.empty" by (simp add: demo_resolver_def resolver_new_def)
  moreover have "pr_describe demo_provider = Inr demo_descriptor" by (simp add: demo_provider_def)
  ultimately show ?thesis
    by (simp add: resolve_def resolve_request_probe_def demo_enabled demo_lookup demo_contract demo_found)
qed

text \<open>
  A request that forbids installing neither uses the network nor changes the disk: its result
  does not depend on what the HTTP client would answer.
\<close>

theorem probe_is_passive:
  "\<not> rq_install request \<Longrightarrow>
   resolve (env\<lparr>ev_fetch := other\<rparr>) request rv fs = resolve env request rv fs
   \<and> snd (snd (resolve env request rv fs)) = fs"
  by (simp add: resolve_def without_network_def root_of_def Let_def split: option.splits sum.splits)

theorem probe_is_passive_witness:
  "resolve (demo_resolve\<lparr>ev_fetch := demo_fetch\<lparr>ft_client := (\<lambda>_. Inr [])\<rparr>\<rparr>)
     (resolve_request_probe language_nodejs demo_settings) demo_resolver demo_fs
   = resolve demo_resolve (resolve_request_probe language_nodejs demo_settings) demo_resolver demo_fs"
  using probe_is_passive [of "resolve_request_probe language_nodejs demo_settings"
      "demo_fetch\<lparr>ft_client := (\<lambda>_. Inr [])\<rparr>" demo_resolve demo_resolver demo_fs]
  by (simp add: resolve_request_probe_def)

text \<open>
  A request that allows installing never comes back empty-handed without an error, and a
  request that came back with a toolchain makes every later request with the same settings answer
  with that same toolchain, whatever happened to disk, network and provider since.
\<close>

theorem resolve_settles:
  "(rq_install request \<longrightarrow> fst (resolve env request rv fs) \<noteq> Inr None)
   \<and> (\<forall>r rv' fs'. resolve env request rv fs = (Inr (Some r), rv', fs') \<longrightarrow>
        resolve env2 (request\<lparr>rq_install := b\<rparr>) rv' fs2 = (Inr (Some r), rv', fs2))"
  by (auto simp: resolve_def remember_def Let_def split: if_splits option.splits sum.splits prod.splits)

theorem resolve_settles_witness:
  "fst (resolve (demo_resolve\<lparr>ev_cwd := [''x'']\<rparr>) ((resolve_request_probe language_nodejs demo_settings)\<lparr>rq_install := True\<rparr>)
      (remember (memo_key language_nodejs demo_settings) demo_resolved demo_resolver) []) = Inr (Some demo_resolved)"
  using resolve_settles [of "resolve_request_probe language_nodejs demo_settings" demo_resolve demo_resolver demo_fs
      "demo_resolve\<lparr>ev_cwd := [''x'']\<rparr>" True "[]"] demo_resolve_run
  by auto

text \<open>
  While no field contains a bar, two requests share a memo entry only if they ask for the same
  language under the same version bounds, cache directory, release tag, command and preference.
\<close>

lemma memo_key_faithful:
  assumes "memo_key l s = memo_key l' s'"
    and "\<forall>f \<in> {as_str l, rs_version s, rs_maximum_version s, rs_cache_dir s, rs_release_tag s, rs_preferred_command s,
      as_str l', rs_version s', rs_maximum_version s', rs_cache_dir s', rs_release_tag s', rs_preferred_command s'}.
      CHR ''|'' \<notin> set f"
  shows "l = l' \<and> rs_version s = rs_version s' \<and> rs_maximum_version s = rs_maximum_version s'
    \<and> rs_cache_dir s = rs_cache_dir s' \<and> rs_release_tag s = rs_release_tag s'
    \<and> rs_preferred_command s = rs_preferred_command s' \<and> rs_prefer_system s = rs_prefer_system s'"
proof -
  have split: "split_on (CHR ''|'') (memo_key k t) =
      [as_str k, rs_version t, rs_maximum_version t, rs_cache_dir t, rs_release_tag t, rs_preferred_command t,
       bool_to_string (rs_prefer_system t)]"
    if "\<forall>f \<in> {as_str k, rs_version t, rs_maximum_version t, rs_cache_dir t, rs_release_tag t, rs_preferred_command t}.
      CHR ''|'' \<notin> set f" for k and t :: runtime_settings
    using that by (simp add: memo_key_def split_on_append split_on_free bool_to_string_def)
  have "split_on (CHR ''|'') (memo_key l s) = split_on (CHR ''|'') (memo_key l' s')"
    using assms(1) by simp
  then show ?thesis
    using split [of l s] split [of l' s'] assms(2)
    by (auto simp: language.expand bool_to_string_def split: if_splits)
qed

lemma memo_key_faithful_example:
  "memo_key language_nodejs demo_settings = memo_key language_nodejs (demo_settings\<lparr>rs_enabled := False\<rparr>)
   \<and> rs_version demo_settings = rs_version (demo_settings\<lparr>rs_enabled := False\<rparr>)"
proof -
  have same: "memo_key language_nodejs demo_settings = memo_key language_nodejs (demo_settings\<lparr>rs_enabled := False\<rparr>)"
    by (simp add: memo_key_def)
  have "rs_version demo_settings = rs_version (demo_settings\<lparr>rs_enabled := False\<rparr>)"
    using memo_key_faithful [OF same]
    by (simp add: demo_settings_def runtime_settings_new_def language_nodejs_def NODEJS_def)
  with same show ?thesis by simp
qed

definition barred_dir :: runtime_settings where
  "barred_dir = (runtime_settings_new ''22'')\<lparr>rs_cache_dir := ''/a|b'', rs_release_tag := ''c''\<rparr>"

definition barred_tag :: runtime_settings where
  "barred_tag = (runtime_settings_new ''22'')\<lparr>rs_cache_dir := ''/a'', rs_release_tag := ''b|c''\<rparr>"

text \<open>
  C40.  With a bar inside a field the memo confuses different requests: after resolving one cache
  directory, a request for another cache directory and release tag is answered with the first one's
  toolchain.
\<close>

theorem memo_key_collision:
  "rs_cache_dir barred_dir \<noteq> rs_cache_dir barred_tag \<and> rs_release_tag barred_dir \<noteq> rs_release_tag barred_tag
   \<and> resolve env \<lparr>rq_language = l, rq_settings = barred_tag, rq_install = b\<rparr>
       (remember (memo_key l barred_dir) r rv) fs
     = (Inr (Some r), remember (memo_key l barred_dir) r rv, fs)"
proof -
  have "memo_key l barred_dir = memo_key l barred_tag"
    by (simp add: memo_key_def barred_dir_def barred_tag_def runtime_settings_new_def)
  then show ?thesis
    by (simp add: resolve_def remember_def) (simp add: barred_dir_def barred_tag_def runtime_settings_new_def)
qed

subsection \<open>Routing\<close>

text \<open>
  The table built at setup serves every configured language exactly once, through the bus name
  of its last configured route, and no other language.
\<close>

lemma setup_routes:
  "distinct (registry_languages (setup_registry cn c))
   \<and> set (registry_languages (setup_registry cn c)) = pc_language ` set (mc_providers c)
   \<and> find_route (setup_registry cn c) l =
       map_option (\<lambda>b. \<lparr>rt_language = l, rt_bus_name = b, rt_provider = bus_provider_new cn l b\<rparr>)
         (map_of (rev (map (\<lambda>r. (pc_language r, pc_bus_name r)) (mc_providers c))) l)"
proof -
  let ?rs = "map (\<lambda>r. (pc_language r, pc_bus_name r, bus_provider_new cn (pc_language r) (pc_bus_name r))) (mc_providers c)"
  have gen: "map_option (\<lambda>(b, p). \<lparr>rt_language = l, rt_bus_name = b, rt_provider = p\<rparr>)
        (map_of (map (\<lambda>r. (pc_language r, pc_bus_name r, bus_provider_new cn (pc_language r) (pc_bus_name r))) rs) l)
      = map_option (\<lambda>b. \<lparr>rt_language = l, rt_bus_name = b, rt_provider = bus_provider_new cn l b\<rparr>)
        (map_of (map (\<lambda>r. (pc_language r, pc_bus_name r)) rs) l)" for rs :: "provider_route list"
    by (induction rs) auto
  have "find_route (setup_registry cn c) l =
      map_option (\<lambda>(b, p). \<lparr>rt_language = l, rt_bus_name = b, rt_provider = p\<rparr>) (map_of (rev ?rs) l)"
    unfolding setup_registry_build by (rule table.lookup_build)
  moreover have "distinct (registry_languages (setup_registry cn c))
      \<and> set (registry_languages (setup_registry cn c)) = fst ` set ?rs"
    unfolding setup_registry_build by (rule table.langs_build)
  ultimately show ?thesis using gen [of "rev (mc_providers c)"] by (auto simp: rev_map image_image)
qed

text \<open>
  A provider's environment recipe is asked for only when the language is routed, the provider's
  contract is compatible and it advertises the capability; otherwise the answer is an error or empty.
\<close>

theorem prepare_environment_gated:
  "registry_prepare_environment t l request = Inr (Some plan) \<Longrightarrow>
   \<exists>r d. find_route t l = Some r \<and> pr_describe (rt_provider r) = Inr d
     \<and> provider_is_compatible (pd_contract_version d) \<and> PrepareEnvironment \<in> set (pd_capabilities d)
     \<and> pr_prepare_environment (rt_provider r) request = Inr (Some plan)"
  by (auto simp: registry_prepare_environment_def route_prepare_environment_def verify_contract_def
      split: if_splits option.splits sum.splits prod.splits)

definition demo_plan :: environment_preparation_plan where
  "demo_plan = \<lparr>el_executable = ''/e/bin/node'', el_steps = []\<rparr>"

theorem prepare_environment_gated_witness:
  "\<exists>d. pr_describe (demo_provider\<lparr>pr_describe := Inr (with_capability PrepareEnvironment demo_descriptor)\<rparr>) = Inr d
     \<and> PrepareEnvironment \<in> set (pd_capabilities d)"
proof -
  let ?p = "demo_provider\<lparr>pr_describe := Inr (with_capability PrepareEnvironment demo_descriptor),
    pr_prepare_environment := (\<lambda>_. Inr (Some demo_plan))\<rparr>"
  let ?t = "register language_nodejs providers_NODEJS ?p registry_new"
  have "registry_prepare_environment ?t language_nodejs (environment_preparation_new ''/n'' ''/e'') = Inr (Some demo_plan)"
    by (simp add: registry_prepare_environment_def route_prepare_environment_def table.lookup_add language_is_empty_def
        language_nodejs_def NODEJS_def with_capability_def demo_descriptor_def provider_descriptor_new_def
        verify_contract_def provider_is_compatible_def binds_def CONTRACT_VERSION_def PROVIDER_CONTRACT_VERSION_def)
  from prepare_environment_gated [OF this] show ?thesis
    by (auto simp: table.lookup_add)
qed

subsection \<open>Execution\<close>

text \<open>
  C39.  Whatever executions an engine serves, every pool it ever started keeps within the worker limit
  of the settings it was built with: an execution turns reachable pools into reachable pools.
\<close>

theorem execute_keeps_pools:
  assumes "pools_reachable (xe_debug env) (en_pools en)" "execute env request en fs = Some (r, en', fs')"
  shows "pools_reachable (xe_debug env) (en_pools en')
    \<and> (\<forall>y \<in> set (po_store (en_pools en')).
         length (lp_idle (sys_pool y)) + count_if owns_worker (sys_tasks y)
           \<le> unat (effective_max_workers (lp_settings (sys_pool y))))"
proof -
  note inv = registry.reach_inv [OF assms(1)]
  have "pools_reachable (xe_debug env) (en_pools en')"
    using reach_steps [OF assms(1) execute_pools [OF assms(2) inv]] .
  then show ?thesis
    using registry.reach_inv [of "xe_debug env" "en_pools en'"] by (auto simp: pools_inv_def memory_inv_def)
qed

definition demo_engine :: engine where
  "demo_engine =
     \<lparr>en_resolver = demo_resolver, en_pools = pools_new, en_harness_root = ''/c'', en_spawner = None\<rparr>"

definition demo_exec :: exec_env where
  "demo_exec =
     \<lparr>xe_resolve = demo_resolve, xe_harness = \<lparr>hv_mkdir = None, hv_write = None\<rparr>, xe_host = Map.empty,
      xe_debug = quote,
      xe_codec = \<lparr>co_encode = (\<lambda>_. Inl ''none''), co_decode = (\<lambda>_. None), co_handshake = (\<lambda>_. Inl ''none'')\<rparr>,
      xe_run = \<lparr>re_queued_at = 0, re_acquired_at = 0, re_take_at = 0, re_started_at = 0, re_finished_at = 0,
        re_try_wait = (\<lambda>_. Exited),
        re_spawn = \<lparr>se_bind = Some ''none'', se_local_addr = Inl [], se_token = [], se_start = (\<lambda>_. Inl []),
          se_accept = AcceptTimeout, se_handshake = ReadEof, se_now = 0\<rparr>,
        re_submit = \<lparr>su_write = None, su_flush = None, su_now = 0, su_lag = 0, su_stream = []\<rparr>\<rparr>\<rparr>"

definition demo_request :: exec_request where
  "demo_request = with_timeout_ms 5 (exec_request_new language_nodejs demo_settings ''x'')"

lemma demo_require:
  "require demo_resolve (resolve_request_new language_nodejs demo_settings) demo_resolver demo_fs
     = (Inr demo_resolved, remember (memo_key language_nodejs demo_settings) demo_resolved demo_resolver, demo_fs)"
proof -
  have "rv_resolved demo_resolver = Map.empty" by (simp add: demo_resolver_def resolver_new_def)
  moreover have "pr_describe demo_provider = Inr demo_descriptor" by (simp add: demo_provider_def)
  ultimately show ?thesis
    by (simp add: require_def resolve_def resolve_request_new_def demo_enabled demo_lookup demo_contract demo_found)
qed

lemma demo_launch_for:
  "\<exists>l fs'. launch_for demo_exec (demo_engine\<lparr>en_resolver := remember k r demo_resolver\<rparr>) demo_resolved
     language_nodejs demo_fs = (Inr l, fs')"
proof -
  have reg: "registry_provider (rv_registry (remember k r demo_resolver)) language_nodejs = Inr demo_provider"
    using demo_lookup by (simp add: remember_def)
  have h: "pr_harness demo_provider = Inr (worker_harness_new ''h.js'' ''x'' ''node'')"
    by (simp add: demo_provider_def)
  have "resolved_executable demo_resolved ''node'' = Some ''/c/node/bin''"
    by (simp add: resolved_executable_def demo_resolved_def managed_def with_install_dir_def from_layout_def
        demo_layout_def layout_with_executable_def)
  moreover have "fst (materialise \<lparr>hv_mkdir = None, hv_write = None\<rparr> [] ''/c/nodejs''
      (worker_harness_new ''h.js'' ''x'' ''node'') demo_fs) = Inr ''/c/nodejs/h.js''"
    by code_simp
  then have "\<exists>fs'. materialise \<lparr>hv_mkdir = None, hv_write = None\<rparr> [] ''/c/nodejs''
      (worker_harness_new ''h.js'' ''x'' ''node'') demo_fs = (Inr ''/c/nodejs/h.js'', fs')"
    by (simp add: prod_eq_iff)
  moreover have "path_join ''/c'' (as_str language_nodejs) = ''/c/nodejs''" by code_simp
  ultimately show ?thesis
    by (auto simp: launch_for_def reg h demo_engine_def demo_exec_def demo_resolve_def worker_harness_new_def)
qed

lemma demo_execute: "\<exists>r en' fs'. execute demo_exec demo_request demo_engine demo_fs = Some (r, en', fs')"
proof -
  let ?rv = "remember (memo_key language_nodejs demo_settings) demo_resolved demo_resolver"
  obtain l fs' where l: "launch_for demo_exec (demo_engine\<lparr>en_resolver := ?rv\<rparr>) demo_resolved
      language_nodejs demo_fs = (Inr l, fs')" using demo_launch_for by blast
  obtain a ps where en: "ensure quote l pool_settings_default (rr_version demo_resolved) pools_new = (a, ps)"
    by (metis surj_pair)
  have at: "pool_at ps a = pool_start l pool_settings_default (rr_version demo_resolved)"
    using en by (auto simp: ensure_def pools_new_def pool_at_def pool_init_def)
  have "pool_run (xe_codec demo_exec) ''x'' None (Some (dur_from_millis 5)) (xe_run demo_exec) (pool_at ps a) \<noteq> None"
    unfolding at by (rule pool_run_total) (simp add: pool_start_def)
  then show ?thesis
    using l en demo_require
    by (auto simp: execute_def demo_request_def with_timeout_ms_def exec_request_new_def Let_def
        demo_engine_def demo_exec_def)
qed

theorem execute_keeps_pools_witness:
  "\<exists>r en' fs'. execute demo_exec demo_request demo_engine demo_fs = Some (r, en', fs')
     \<and> pools_reachable quote (en_pools en')"
proof -
  obtain r en' fs' where run: "execute demo_exec demo_request demo_engine demo_fs = Some (r, en', fs')"
    using demo_execute by blast
  have q: "xe_debug demo_exec = quote" by (simp add: demo_exec_def)
  have "pools_reachable (xe_debug demo_exec) (en_pools demo_engine)"
    by (rule reach_init) (simp add: demo_engine_def)
  from execute_keeps_pools [OF this run] run show ?thesis unfolding q by blast
qed

end
