(* ===== verification/Install_Once.thy ===== *)
theory Install_Once
  imports Install_Steps Provision_Properties
begin

text \<open>
  A toolchain is installed once, and never twice at a time.  The first part bounds what each step of
  an install can touch: of the entries of the cache root, only the archive, the call's own staging
  directory, the install directory and the sibling a previous install is moved to.  So the lock file
  and the way to it stay, every call locks the same file, and a toolchain that is there is found by
  every call that gets the lock later.
\<close>

subsection \<open>What a step can touch\<close>

text \<open>Nothing changed but below the entries \<open>X\<close> of the directory \<open>R\<close>.\<close>

definition beside :: "loc \<Rightarrow> string set \<Rightarrow> fs \<Rightarrow> fs \<Rightarrow> bool" where
  "beside R X fs fs' \<longleftrightarrow>
     (\<forall>k. (\<forall>x \<in> X. \<not> prefix (R @ [x]) k) \<longrightarrow> node_at fs' k = node_at fs k)"

lemma beside_refl [intro]: "beside R X fs fs"
  by (simp add: beside_def)

lemma beside_trans: "beside R X a b \<Longrightarrow> beside R Y b c \<Longrightarrow> beside R (X \<union> Y) a c"
  by (simp add: beside_def)

lemma beside_mono: "beside R X a b \<Longrightarrow> X \<subseteq> Y \<Longrightarrow> beside R Y a b"
  by (auto simp: beside_def)

lemma beside_node: "beside R X fs fs' \<Longrightarrow> y \<notin> X \<Longrightarrow> node_at fs' (R @ y # x) = node_at fs (R @ y # x)"
  by (simp add: beside_def) (metis Cons_prefix_Cons append.simps(2) append_Nil append_assoc same_prefix_prefix)

lemma beside_plain: "beside R X fs fs' \<Longrightarrow> plain fs (R @ [y]) \<Longrightarrow> plain fs' (R @ [z])"
  unfolding plain_def beside_def
  by (metis prefix_order.dual_order.strict_trans1 prefix_snoc prefixI snoc_eq_iff_butlast prefix_order.less_irrefl strict_prefix_snoc)

lemma plain_sibling: "plain fs (R @ [y]) \<Longrightarrow> plain fs (R @ [z])"
  using beside_plain beside_refl by blast

lemma rename_beside:
  assumes "plain fs f" "plain fs t" "prefix (R @ [x]) f" "prefix (R @ [y]) t"
  shows "beside R {x, y} fs (snd (rename r cwd (path_to f) (path_to t) fs))"
proof (cases "fst (rename r cwd (path_to f) (path_to t) fs)")
  case None
  then have ren: "rename r cwd (path_to f) (path_to t) fs = (None, snd (rename r cwd (path_to f) (path_to t) fs))"
    by (metis prod.collapse)
  show ?thesis
  proof (cases "f = t")
    case True
    then show ?thesis using assms(1) by (auto simp: rename_def locate_plain split: option.splits)
  next
    case False
    then have "snd (rename r cwd (path_to f) (path_to t) fs) = relocate f t fs" "apart f t"
      using rename_done [OF ren assms(1,2)] by simp_all
    then show ?thesis
      using assms(3,4) relocate_else [of f t _ fs] by (auto simp: beside_def dest: prefix_order.trans)
  qed
next
  case (Some e)
  then have "rename r cwd (path_to f) (path_to t) fs = (Some e, snd (rename r cwd (path_to f) (path_to t) fs))"
    by (metis prod.collapse)
  from rename_failed [OF this] show ?thesis by auto
qed

lemma remove_dir_beside:
  "plain fs (R @ [x]) \<Longrightarrow> beside R {x} fs (snd (remove_dir_all rm cwd (path_to (R @ [x])) fs))"
  using remove_dir_all_other by (simp add: beside_def)

lemma discard_beside: "plain fs (R @ [x]) \<Longrightarrow> beside R {x} fs (discard rm cwd (path_to (R @ [x])) fs)"
  by (simp add: discard_def remove_dir_beside)

lemma remove_file_beside:
  assumes "plain fs (R @ [x])"
  shows "beside R {x} fs (snd (remove_file r cwd (path_to (R @ [x])) fs))"
    and "node_at (snd (remove_file r cwd (path_to (R @ [x])) fs)) (R @ [x]) \<in> {None, node_at fs (R @ [x])}"
  using locate_plain [OF assms, of cwd]
  by (auto simp: remove_file_def beside_def node_at_def map_of_filter_key split: option.splits node.splits)

text \<open>The regular file at a place, or none.\<close>

definition at_most_file :: "fs \<Rightarrow> loc \<Rightarrow> bool" where
  "at_most_file fs k \<longleftrightarrow> node_at fs k = None \<or> (\<exists>c. node_at fs k = Some (File c))"

lemma fetch_beside:
  assumes t: "plain fs (R @ [x])" "at_most_file fs (R @ [x])"
    and run: "fetch env cwd d (path_to (R @ [x])) l fs = (r, fs')"
  shows "beside R {x} fs fs' \<and> at_most_file fs' (R @ [x])"
proof (cases "ft_mkdir env")
  case (Some e)
  then show ?thesis using run target_parent [OF t(1), of env cwd] t(2) by (auto simp: fetch_def)
next
  case None
  obtain q fs2 where s: "stream_to_file env cwd d (path_to (R @ [x])) l fs = (q, fs2)" by (metis surj_pair)
  note st = stream_to_file_plain [OF t(1) t(2) [unfolded at_most_file_def] s]
  let ?gone = "remove_partial env cwd (path_to (R @ [x])) fs2"
  have b: "beside R {x} fs fs2" "plain fs2 (R @ [x])" "at_most_file fs2 (R @ [x])"
    using st by (auto simp: beside_def at_most_file_def)
  have "beside R {x} fs ?gone \<and> at_most_file ?gone (R @ [x])"
    using beside_trans [OF b(1) remove_file_beside(1) [OF b(2)]] remove_file_beside(2) [OF b(2), of "ft_remove env" cwd] b(3)
    by (auto simp: remove_partial_def at_most_file_def)
  moreover have "fs' = fs2 \<or> fs' = ?gone"
    using run target_parent [OF t(1), of env cwd] None s
    by (auto simp: fetch_def split: sum.splits option.splits if_splits)
  ultimately show ?thesis using b by auto
qed

text \<open>
  What the code relies on of the unpacking crates: a tar stream is unpacked below the directory given
  and leaves it a directory, and the names a zip archive calls enclosed are.
\<close>

definition stays_below :: "(string \<Rightarrow> loc \<Rightarrow> vpath \<Rightarrow> fs \<Rightarrow> io_error option \<times> fs) \<Rightarrow> bool" where
  "stays_below untar \<longleftrightarrow>
     (\<forall>c cwd t fs. sealed fs t \<longrightarrow>
        node_at (snd (untar c cwd (path_to t) fs)) t = Some Dir
        \<and> (\<forall>k. \<not> prefix t k \<longrightarrow> node_at (snd (untar c cwd (path_to t) fs)) k = node_at fs k))"

definition unpackers_stay :: "archive_env \<Rightarrow> bool" where
  "unpackers_stay env \<longleftrightarrow>
     stays_below (ar_untar_gz env) \<and> stays_below (ar_untar_xz env)
     \<and> (\<forall>c es e rel. ar_unzip env c = Inr es \<and> Inr e \<in> set es \<and> ze_enclosed e = Some rel \<longrightarrow> enclosed rel)"

lemma unpack_beside:
  assumes s: "sealed fs (R @ [x])" and env: "unpackers_stay env"
    and run: "archive_unpack env format cwd archive (path_to (R @ [x])) fs = (r, fs')"
  shows "beside R {x} fs fs' \<and> node_at fs' (R @ [x]) = Some Dir"
proof -
  have same: "beside R {x} fs fs \<and> node_at fs (R @ [x]) = Some Dir" using s by (auto simp: sealed_def)
  have tar: "beside R {x} fs (snd (untar c cwd (path_to (R @ [x])) fs))
      \<and> node_at (snd (untar c cwd (path_to (R @ [x])) fs)) (R @ [x]) = Some Dir" if "stays_below untar" for untar c
    using that s by (simp add: stays_below_def beside_def)
  have zip: "beside R {x} fs g \<and> node_at g (R @ [x]) = Some Dir"
    if "ar_unzip env c = Inr es" "unzip_entries cwd (path_to (R @ [x])) es fs = (q, g)" for c es q g
  proof -
    have "only_below (R @ [x]) fs g"
      using unzip_entries_sealed [OF s _ that(2)] env that(1) by (auto simp: unpackers_stay_def)
    then show ?thesis by (auto simp: only_below_def sealed_def beside_def strict_prefix_def)
  qed
  show ?thesis
  proof (cases "open_archive env cwd archive fs")
    case (Inl e)
    then show ?thesis using run same by (simp add: archive_unpack_def)
  next
    case (Inr c)
    then show ?thesis
      using run same zip tar [of "ar_untar_gz env" c] tar [of "ar_untar_xz env" c] env
      by (cases format) (auto simp: archive_unpack_def unpack_bytes_def unpackers_stay_def split: sum.splits)
  qed
qed

lemma extract_beside:
  assumes s: "plain fs (R @ [x])" "\<forall>z. node_at fs (R @ x # z) = None" and env: "unpackers_stay env"
    and run: "archive_extract env cwd archive (path_to (R @ [x])) format l fs = (r, fs')"
  shows "beside R {x} fs fs'
    \<and> (\<forall>u. r = Inr u \<longrightarrow> (\<exists>m. u = path_to (R @ [x, m])) \<and> node_at fs' (R @ [x]) = Some Dir)"
proof (cases "ar_panics env")
  case (Some e)
  then show ?thesis using run by (auto simp: archive_extract_def blocking_run_def)
next
  case calm: None
  let ?fs1 = "(R @ [x], Dir) # fs"
  show ?thesis
  proof (cases "ar_mkdir env")
    case (Some e)
    then show ?thesis using run calm by (auto simp: archive_extract_def create_dir_all_def)
  next
    case None
    have "node_at fs (R @ [x]) = None" using s(2) by simp
    then have made: "create_dir_all (ar_mkdir env) cwd (path_to (R @ [x])) fs = (None, ?fs1)"
      using None locate_plain [OF s(1), of cwd] by (simp add: create_dir_all_def mkdir_def path_to_def)
    have b1: "beside R {x} fs ?fs1" by (auto simp: beside_def node_at_def)
    have n1: "node_at ?fs1 (R @ x # z) = (if z = [] then Some Dir else None)" for z
      using s(2) by (simp add: node_at_def)
    have "sealed ?fs1 (R @ [x])"
      using beside_plain [OF b1 s(1)] n1 by (auto simp: sealed_def)
    moreover obtain q fs2 where u: "archive_unpack env format cwd archive (path_to (R @ [x])) ?fs1 = (q, fs2)"
      by (metis surj_pair)
    ultimately have b2: "beside R {x} ?fs1 fs2" "node_at fs2 (R @ [x]) = Some Dir"
      using unpack_beside [OF _ env] by blast+
    have "fs' = fs2" "\<forall>v. r = Inr v \<longrightarrow> (\<exists>m. v = path_to (R @ [x, m]))"
      using run calm made u
      by (auto simp: archive_extract_def path_to_def split: option.splits sum.splits)
    then show ?thesis using beside_trans [OF b1 b2(1)] b2(2) by simp
  qed
qed

lemma plain_deeper: "plain fs (R @ [x]) \<Longrightarrow> node_at fs (R @ [x]) = Some Dir \<Longrightarrow> plain fs (R @ [x, m])"
  using strict_prefix_snoc [of _ "R @ [x]" m] by (auto simp: plain_def prefix_order.le_less)

lemma promote_beside:
  assumes D: "plain fs (R @ [n])" and an: "aside_loc (pv_pid env) (R @ [n]) = R @ [an]"
    and x: "node_at fs (R @ [x]) = Some Dir" "x \<noteq> n" "x \<noteq> an"
    and run: "promote panics env cwd (path_to (R @ [x, m])) (path_to (R @ [n])) l fs = (r, fs')"
  shows "beside R {n, an, x} fs fs'"
proof (cases "panics = None \<and> pv_mkdir env = None")
  case False
  have "parent_of (path_to (R @ [n])) = Some (path_to R)" by (simp add: parent_of_def path_to_def)
  then have "fs' = fs"
    using False run
    by (auto simp: promote_def promote_blocking_def prepare_parent_def create_dir_all_def split: option.splits)
  then show ?thesis by auto
next
  case True
  let ?d = "path_to (R @ [n])" and ?a = "path_to (R @ [an])" and ?u = "path_to (R @ [x, m])"
  let ?fs2 = "snd (remove_dir_all (pv_clear env) cwd ?a fs)"
  let ?fs3 = "snd (rename (pv_aside env) cwd ?d ?a ?fs2)"
  let ?fs4 = "\<lambda>f. snd (rename (pv_place env) cwd ?u ?d f)"
  have parent: "prepare_parent env cwd ?d fs = (None, fs)" using prepare_parent_there [OF D] True by simp
  have aside: "aside_of (pv_pid env) ?d = ?a" using aside_of_path_to [of "R @ [n]"] an by simp
  have b2: "beside R {an} fs ?fs2" using remove_dir_beside plain_sibling [OF D] by blast
  note p2 = beside_plain [OF b2 D]
  have b3: "beside R {n, an} fs ?fs3"
    by (rule beside_mono [OF beside_trans [OF b2 rename_beside [OF p2 p2]]]) auto
  have place: "beside R {n, an, x} fs (?fs4 f)" if f: "beside R {n, an} fs f" for f
  proof -
    have "plain f (R @ [x, m])" using beside_plain [OF f D] beside_node [OF f, of x "[]"] x by (simp add: plain_deeper)
    then have "beside R {x, n} f (?fs4 f)" using beside_plain [OF f D] by (intro rename_beside) auto
    from beside_trans [OF f this] show ?thesis by (rule beside_mono) auto
  qed
  note b4 = place [OF b3] place [OF beside_mono [OF beside_refl empty_subsetI]]
  note p4 = beside_plain [OF b4(1) D]
  have restore: "beside R {n, an, x} fs (snd (rename (pv_restore env) cwd ?a ?d (?fs4 ?fs3)))"
    by (rule beside_mono [OF beside_trans [OF b4(1) rename_beside [OF p4 p4]]]) auto
  have clear: "beside R {n, an, x} fs (snd (remove_dir_all (pv_cleanup env) cwd ?a (?fs4 ?fs3)))"
    by (rule beside_mono [OF beside_trans [OF b4(1) remove_dir_beside [OF p4]]]) auto
  have "fs' \<in> {?fs3, ?fs4 fs, snd (rename (pv_restore env) cwd ?a ?d (?fs4 ?fs3)),
      snd (remove_dir_all (pv_cleanup env) cwd ?a (?fs4 ?fs3))}"
    using run parent True aside
    by (auto simp: promote_def promote_blocking_def Let_def split: option.splits prod.splits if_splits)
  moreover have "beside R {n, an, x} fs ?fs3" using b3 by (rule beside_mono) auto
  ultimately show ?thesis using b4 restore clear by blast
qed

lemma lock_beside:
  assumes D: "plain fs (R @ [n])" and lock: "at_most_file fs (R @ [file_stem n @ ''.lock''])"
    and run: "lock_acquire env cwd (path_to (R @ [n])) l fs = (r, fs')"
  shows "beside R {file_stem n @ ''.lock''} fs fs' \<and> at_most_file fs' (R @ [file_stem n @ ''.lock''])
    \<and> (\<forall>f. r = Inr f \<longrightarrow> f = R @ [file_stem n @ ''.lock''])"
proof -
  let ?k = "R @ [file_stem n @ ''.lock'']"
  have k: "lock_path (path_to (R @ [n])) = path_to ?k"
    by (simp add: lock_path_def with_extension_def file_name_of_def path_to_def)
  have parent: "parent_of (path_to ?k) = Some (path_to R)" by (simp add: parent_of_def path_to_def)
  have "create_dir_all None cwd (path_to R) fs = (None, fs)"
    using create_dir_all_there [of R fs cwd] plain_parent [OF D] by simp
  then have up: "create_dir_all q cwd (path_to R) fs = (case q of None \<Rightarrow> (None, fs) | Some e \<Rightarrow> (Some e, fs))" for q
    by (auto simp: create_dir_all_def split: option.splits)
  have "locate fs cwd True (path_to ?k) = Inr ?k"
    using lock plain_sibling [OF D] by (intro locate_plain_follow) (auto simp: at_most_file_def)
  then have "open_lock_file q cwd (path_to ?k) fs = (o', g) \<Longrightarrow>
      beside R {file_stem n @ ''.lock''} fs g \<and> at_most_file g ?k \<and> (\<forall>f. o' = Inr f \<longrightarrow> f = ?k)" for q o' g
    using lock by (auto simp: open_lock_file_def at_most_file_def beside_def node_at_def split: option.splits node.splits)
  then show ?thesis
    using run lock up
    by (auto simp: lock_acquire_def k parent blocking_run_def split: option.splits sum.splits prod.splits)
qed

lemma root_there:
  assumes "plain fs (R @ [n])" "view root = path_to R" "ensure_root q cwd root fs = (r, fs')"
  shows "fs' = fs"
  using assms create_dir_all_there [of R fs cwd] plain_parent [OF assms(1)]
  by (cases q) (auto simp: ensure_root_def create_dir_all_def)

subsection \<open>Where the calls meet\<close>

definition lock_name :: "string \<Rightarrow> string" where
  "lock_name n = file_stem n @ ''.lock''"

definition aside_name :: "resolve_env \<Rightarrow> string \<Rightarrow> string" where
  "aside_name env n = file_stem n @ ''.replaced-'' @ dec (unat (pv_pid (ev_promote env)))"

text \<open>
  Calls for one toolchain: the provider selects the distribution \<open>d\<close>, every call has the cache root
  \<open>root\<close>, at the location \<open>R\<close>, the install directory is its entry \<open>n\<close>, the archive its entry \<open>a\<close>
  and the staging directory of the \<open>i\<close>-th call its entry \<open>sn i\<close>.  These names do not collide, the
  unpackers stay below their directory, and what the provider says of a directory depends only on
  what is in it.
\<close>

definition install_site ::
  "(nat \<Rightarrow> resolve_env) \<Rightarrow> language \<Rightarrow> runtime_settings \<Rightarrow> provider \<Rightarrow> distribution \<Rightarrow> string
     \<Rightarrow> loc \<Rightarrow> string \<Rightarrow> string \<Rightarrow> (nat \<Rightarrow> string) \<Rightarrow> bool" where
  "install_site e l s p d root R n a sn \<longleftrightarrow>
     pr_select_distribution p s = Inr d
     \<and> (\<forall>i. root_of (e i) l s = root \<and> view (staging_of (e i) l s) = path_to (R @ [sn i])
          \<and> unpackers_stay (ev_archive (e i)))
     \<and> view root = path_to R
     \<and> view (path_join root (d_install_dir_name d)) = path_to (R @ [n])
     \<and> view (path_join root (d_archive_name d)) = path_to (R @ [a])
     \<and> inj sn \<and> distinct [n, a, lock_name n]
     \<and> (\<forall>i. sn i \<notin> {n, a, lock_name n} \<and> aside_name (e i) n \<notin> {n, a} \<union> range sn)
     \<and> (\<forall>fs fs'. (\<forall>x. node_at fs' (R @ n # x) = node_at fs (R @ n # x)) \<longrightarrow>
          pr_layout p fs' (path_join root (d_install_dir_name d)) s
            = pr_layout p fs (path_join root (d_install_dir_name d)) s)"

text \<open>The rest of the host leaves the root, the toolchain, its lock, its archive and the stages alone.\<close>

definition hands_off :: "loc \<Rightarrow> string \<Rightarrow> string \<Rightarrow> (nat \<Rightarrow> string) \<Rightarrow> fs \<Rightarrow> fs \<Rightarrow> bool" where
  "hands_off R n a sn fs fs' \<longleftrightarrow>
     (\<forall>k. prefix k R \<or> (\<exists>x \<in> {n, a, lock_name n} \<union> range sn. prefix (R @ [x]) k) \<longrightarrow>
        node_at fs' k = node_at fs k)"

definition root_ok :: "loc \<Rightarrow> string \<Rightarrow> string \<Rightarrow> fs \<Rightarrow> bool" where
  "root_ok R n a fs \<longleftrightarrow>
     plain fs (R @ [n]) \<and> at_most_file fs (R @ [lock_name n]) \<and> at_most_file fs (R @ [a])"

text \<open>What a call knows of its staging directory and its lock, by its stage.\<close>

fun stage_ok :: "distribution \<Rightarrow> loc \<Rightarrow> string \<Rightarrow> string \<Rightarrow> fs \<Rightarrow> install_stage \<Rightarrow> bool" where
  "stage_ok d R n x fs IBegin \<longleftrightarrow> (\<forall>z. node_at fs (R @ x # z) = None)"
| "stage_ok d R n x fs (IOpen c) \<longleftrightarrow> c = d \<and> (\<forall>z. node_at fs (R @ x # z) = None)"
| "stage_ok d R n x fs (IWait c f) \<longleftrightarrow> c = d \<and> f = R @ [lock_name n] \<and> (\<forall>z. node_at fs (R @ x # z) = None)"
| "stage_ok d R n x fs (ICheck c) \<longleftrightarrow> c = d \<and> (\<forall>z. node_at fs (R @ x # z) = None)"
| "stage_ok d R n x fs (IFetch c) \<longleftrightarrow> c = d \<and> (\<forall>z. node_at fs (R @ x # z) = None)"
| "stage_ok d R n x fs (IClear c) \<longleftrightarrow> c = d \<and> (\<forall>z. node_at fs (R @ x # z) = None)"
| "stage_ok d R n x fs (IUnpack c) \<longleftrightarrow> c = d \<and> (\<forall>z. node_at fs (R @ x # z) = None)"
| "stage_ok d R n x fs (IPromote c u) \<longleftrightarrow>
     c = d \<and> (\<exists>m. u = path_to (R @ [x, m])) \<and> node_at fs (R @ [x]) = Some Dir"
| "stage_ok d R n x fs (IClean c r) \<longleftrightarrow> c = d"
| "stage_ok d R n x fs (IRemove c r) \<longleftrightarrow> c = d"
| "stage_ok d R n x fs (IVerify c) \<longleftrightarrow> c = d"
| "stage_ok d R n x fs (IDone r) \<longleftrightarrow> True"

lemma stage_ok_cong:
  "stage_ok d R n x fs st \<Longrightarrow> (\<And>z. node_at fs' (R @ x # z) = node_at fs (R @ x # z)) \<Longrightarrow> stage_ok d R n x fs' st"
  by (cases st) auto

fun touched :: "resolve_env \<Rightarrow> string \<Rightarrow> string \<Rightarrow> string \<Rightarrow> install_stage \<Rightarrow> string set" where
  "touched env n a x (IOpen c) = {lock_name n}"
| "touched env n a x (IFetch c) = {a}"
| "touched env n a x (IClear c) = {x}"
| "touched env n a x (IUnpack c) = {x}"
| "touched env n a x (IPromote c u) = {n, aside_name env n, x}"
| "touched env n a x (IClean c r) = {x}"
| "touched env n a x (IRemove c r) = {a}"
| "touched env n a x st = {}"

lemma discard_none:
  "plain fs (R @ [x]) \<Longrightarrow> node_at fs (R @ [x]) = None \<Longrightarrow> discard rm cwd (path_to (R @ [x])) fs = fs"
  using locate_plain [of fs "R @ [x]" cwd] by (simp add: discard_def remove_dir_all_def)

text \<open>One step of a call: what it touches, what it knows afterwards, and that the root stays as it is.\<close>

lemma install_move_effect:
  assumes site: "install_site e l s p d root R n a sn"
    and ok: "root_ok R n a fs" "stage_ok d R n (sn i) fs st" and mv: "install_move (e i) l s p st fs = (st', fs')"
  shows "beside R (touched (e i) n a (sn i) st) fs fs' \<and> root_ok R n a fs' \<and> stage_ok d R n (sn i) fs' st'"
proof -
  let ?x = "sn i" and ?env = "e i"
  have dir: "installed_dir ?env l s d = path_join root (d_install_dir_name d)"
      "archive_of ?env l s d = path_join root (d_archive_name d)"
      "view (staging_of ?env l s) = path_to (R @ [?x])" "root_of ?env l s = root" "unpackers_stay (ev_archive ?env)"
    using site by (simp_all add: install_site_def installed_dir_def archive_of_def)
  have views: "view (path_join root (d_install_dir_name d)) = path_to (R @ [n])"
      "view (path_join root (d_archive_name d)) = path_to (R @ [a])" "view root = path_to R"
      "pr_select_distribution p s = Inr d"
    using site by (simp_all add: install_site_def)
  have names: "?x \<notin> {n, a, lock_name n}" "aside_name ?env n \<notin> {n, a, ?x}" "distinct [n, a, lock_name n]"
      "aside_name ?env n \<noteq> lock_name n"
    using site by (auto simp: install_site_def aside_name_def lock_name_def)
  note plain = plain_sibling [of fs R n] and D = ok(1) [unfolded root_ok_def, THEN conjunct1]
  have kept: "root_ok R n a g" if "beside R X fs g" "lock_name n \<notin> X" "a \<notin> X" for X g
    using ok(1) beside_plain [OF that(1) D] beside_node [OF that(1), of _ "[]"] that(2,3)
    by (simp add: root_ok_def at_most_file_def)
  have mine: "node_at g (R @ ?x # z) = node_at fs (R @ ?x # z)" if "beside R X fs g" "?x \<notin> X" for X g z
    using beside_node [OF that] .
  have still: ?thesis if "fs' = fs" "stage_ok d R n ?x fs st'"
    using that ok by auto
  show ?thesis
  proof (cases st)
    case IBegin
    obtain r g where run: "ensure_root (ev_root ?env) (ev_cwd ?env) root fs = (r, g)" by (metis surj_pair)
    have "g = fs" using root_there [OF D views(3) run] .
    then show ?thesis using mv ok IBegin run views(4) dir(4) by (intro still) (auto split: sum.splits)
  next
    case (IOpen c)
    obtain r g where run: "lock_acquire (ev_lock ?env) (ev_cwd ?env) (path_to (R @ [n])) l fs = (r, g)" by (metis surj_pair)
    have b: "beside R {lock_name n} fs g" "at_most_file g (R @ [lock_name n])" "\<forall>f. r = Inr f \<longrightarrow> f = R @ [lock_name n]"
      using lock_beside [OF D _ run] ok(1) by (auto simp: root_ok_def lock_name_def)
    have "root_ok R n a g"
      using b(2) beside_plain [OF b(1) D] beside_node [OF b(1), of a "[]"] names(3) ok(1)
      by (simp add: root_ok_def at_most_file_def)
    moreover have "node_at g (R @ ?x # z) = None" for z using mine [OF b(1)] names(1) ok(2) IOpen by simp
    ultimately show ?thesis
      using mv ok IOpen run b views(1) dir(1) by (auto split: sum.splits)
  next
    case (IFetch c)
    obtain r g where run: "fetch (ev_fetch ?env) (ev_cwd ?env) d (path_to (R @ [a])) l fs = (r, g)" by (metis surj_pair)
    have b: "beside R {a} fs g" "at_most_file g (R @ [a])"
      using fetch_beside [OF plain [OF D] _ run] ok(1) by (auto simp: root_ok_def)
    have "root_ok R n a g"
      using b(2) beside_plain [OF b(1) D] beside_node [OF b(1), of "lock_name n" "[]"] names(3) ok(1)
      by (auto simp: root_ok_def at_most_file_def)
    moreover have "node_at g (R @ ?x # z) = None" for z using mine [OF b(1)] names(1) ok(2) IFetch by simp
    ultimately show ?thesis
      using mv ok IFetch run b views(2) dir(2) by (auto split: sum.splits)
  next
    case (IClear c)
    then show ?thesis
      using mv ok dir(3) discard_none [OF plain [OF D], of ?x] by (intro still) auto
  next
    case (IUnpack c)
    obtain r g where run: "archive_extract (ev_archive ?env) (ev_cwd ?env) (path_to (R @ [a])) (path_to (R @ [?x]))
        (d_format d) l fs = (r, g)" by (metis surj_pair)
    have b: "beside R {?x} fs g"
        "\<forall>u. r = Inr u \<longrightarrow> (\<exists>m. u = path_to (R @ [?x, m])) \<and> node_at g (R @ [?x]) = Some Dir"
      using extract_beside [OF plain [OF D] _ dir(5) run] ok(2) IUnpack by auto
    then show ?thesis
      using mv ok IUnpack run views(2) dir(2,3) kept [OF b(1)] names by (auto split: sum.splits)
  next
    case (IPromote c u)
    then obtain m where u: "u = path_to (R @ [?x, m])" "node_at fs (R @ [?x]) = Some Dir" "c = d" using ok(2) by auto
    obtain r g where run: "promote (ev_promote_panics ?env) (ev_promote ?env) (ev_cwd ?env) (path_to (R @ [?x, m]))
        (path_to (R @ [n])) l fs = (r, g)" by (metis surj_pair)
    have "aside_loc (pv_pid (ev_promote ?env)) (R @ [n]) = R @ [aside_name ?env n]"
      by (simp add: aside_loc_def aside_name_def)
    from promote_beside [OF D this u(2) _ _ run] have b: "beside R {n, aside_name ?env n, ?x} fs g" using names by auto
    then show ?thesis
      using mv ok IPromote u run views(1) dir(1) kept [OF b] names by (auto split: sum.splits)
  next
    case (IClean c r)
    then show ?thesis
      using mv ok dir(3) discard_beside [OF plain [OF D]] kept [OF discard_beside [OF plain [OF D]]] names by auto
  next
    case (IRemove c r)
    let ?g = "remove_archive ?env (path_to (R @ [a])) fs"
    have b: "beside R {a} fs ?g" "node_at ?g (R @ [a]) \<in> {None, node_at fs (R @ [a])}"
      using remove_file_beside [OF plain [OF D]] by (simp_all add: remove_archive_def)
    then have "root_ok R n a ?g"
      using beside_plain [OF b(1) D] beside_node [OF b(1), of "lock_name n" "[]"] names(3) ok(1)
      by (auto simp: root_ok_def at_most_file_def)
    then show ?thesis using mv ok IRemove b views(2) dir(2) by (auto split: sum.splits)
  qed (use mv ok views dir in \<open>auto intro!: still split: sum.splits option.splits\<close>)
qed

subsection \<open>The invariant\<close>

definition working :: "install_stage \<Rightarrow> bool" where
  "working st \<longleftrightarrow> locked_stage st \<and> (\<forall>d. st \<noteq> ICheck d)"

text \<open>The download is behind the call.\<close>

definition past_fetch :: "install_stage \<Rightarrow> bool" where
  "past_fetch st \<longleftrightarrow> finished st \<or> (working st \<and> (\<forall>d. st \<noteq> IFetch d))"

lemmas stage_defs = moving_def finished_def working_def past_fetch_def

lemma install_move_unlocked:
  "\<not> locked_stage st \<Longrightarrow> install_move env l s p st fs = (st', fs') \<Longrightarrow> \<not> locked_stage st'"
  by (cases st) (auto split: sum.splits prod.splits)

lemma install_move_locked:
  "locked_stage st \<Longrightarrow> install_move env l s p st fs = (st', fs') \<Longrightarrow> locked_stage st' \<or> finished st'"
  by (cases st) (auto simp: finished_def split: sum.splits prod.splits option.splits)

lemma install_move_past:
  "moving st \<Longrightarrow> past_fetch st \<or> (\<exists>d. st = IFetch d) \<Longrightarrow> install_move env l s p st fs = (st', fs') \<Longrightarrow> past_fetch st'"
  by (cases st) (auto simp: stage_defs split: sum.splits prod.splits option.splits)

lemma install_move_success:
  assumes "moving st" "install_move env l s p st fs = (IDone (Inr r), fs')"
  shows "fs' = fs \<and> (\<exists>d layout. (st = ICheck d \<or> st = IVerify d)
    \<and> pr_layout p fs (installed_dir env l s d) s = Inr (Some layout) \<and> r = managed l (installed_dir env l s d) layout)"
  using assms
  by (cases st) (auto simp: stage_defs split: sum.splits prod.splits option.splits)

lemma install_move_idle:
  assumes "moving st" "\<not> working st" "install_move env l s p st fs = (st', fs')"
    and "\<And>d. st = ICheck d \<Longrightarrow> \<exists>layout. pr_layout p fs (installed_dir env l s d) s = Inr (Some layout)"
  shows "\<not> working st' \<and> touched env n a x st \<subseteq> {lock_name n}"
  using assms
  by (cases st) (auto simp: stage_defs split: sum.splits prod.splits option.splits)

definition install_inv ::
  "language \<Rightarrow> runtime_settings \<Rightarrow> provider \<Rightarrow> distribution \<Rightarrow> string \<Rightarrow> loc \<Rightarrow> string \<Rightarrow> string
     \<Rightarrow> (nat \<Rightarrow> string) \<Rightarrow> install_sys \<Rightarrow> bool" where
  "install_inv l s p d root R n a sn y \<longleftrightarrow>
     root_ok R n a (ns_fs y)
     \<and> (\<forall>i. stage_ok d R n (sn i) (ns_fs y) (ns_task y i))
     \<and> (\<forall>i. locked_stage (ns_task y i) \<longrightarrow> ns_lock y (R @ [lock_name n]) = Some i)
     \<and> (\<forall>f i. ns_lock y f = Some i \<longrightarrow> locked_stage (ns_task y i))
     \<and> (\<forall>i r. ns_task y i = IDone (Inr r) \<longrightarrow>
          (\<exists>layout. pr_layout p (ns_fs y) (path_join root (d_install_dir_name d)) s = Inr (Some layout)
             \<and> r = managed l (path_join root (d_install_dir_name d)) layout)
          \<and> (\<forall>j. \<not> working (ns_task y j)))
     \<and> (\<forall>i \<in> ns_fetched y. past_fetch (ns_task y i))
     \<and> (\<forall>i \<in> ns_fetched y. \<forall>j \<in> ns_fetched y. \<forall>q r.
          ns_task y i = IDone (Inr q) \<and> ns_task y j = IDone (Inr r) \<longrightarrow> i = j)"

lemma locked_once:
  "install_inv l s p d root R n a sn y \<Longrightarrow> locked_stage (ns_task y i) \<Longrightarrow> locked_stage (ns_task y j) \<Longrightarrow> i = j"
  unfolding install_inv_def by (metis option.inject)

lemma install_inv_success:
  "install_inv l s p d root R n a sn y \<Longrightarrow> ns_task y i = IDone (Inr r) \<Longrightarrow>
   (\<exists>layout. pr_layout p (ns_fs y) (path_join root (d_install_dir_name d)) s = Inr (Some layout)
      \<and> r = managed l (path_join root (d_install_dir_name d)) layout)
   \<and> (\<forall>j. \<not> working (ns_task y j))"
  unfolding install_inv_def by blast

lemma install_site_names: "install_site e l s p d root R n a sn \<Longrightarrow> distinct [n, a, lock_name n]"
  unfolding install_site_def by (elim conjE)

lemma install_site_local:
  "install_site e l s p d root R n a sn \<Longrightarrow> \<forall>x. node_at fs' (R @ n # x) = node_at fs (R @ n # x) \<Longrightarrow>
   pr_layout p fs' (path_join root (d_install_dir_name d)) s = pr_layout p fs (path_join root (d_install_dir_name d)) s"
  unfolding install_site_def by blast

lemma install_inv_moved:
  assumes site: "install_site e l s p d root R n a sn" and inv: "install_inv l s p d root R n a sn y"
    and mv: "moving (ns_task y i)" "install_move (e i) l s p (ns_task y i) (ns_fs y) = (st, fs')"
  shows "install_inv l s p d root R n a sn
    (y\<lparr>ns_fs := fs', ns_task := (ns_task y)(i := st), ns_lock := release i st (ns_lock y),
       ns_fetched := (if \<exists>d. ns_task y i = IFetch d then insert i (ns_fetched y) else ns_fetched y)\<rparr>)"
    (is "install_inv l s p d root R n a sn ?z")
proof -
  let ?dir = "path_join root (d_install_dir_name d)" and ?st = "ns_task y i"
  note E = install_move_effect [OF site _ _ mv(2)]
  have eff: "beside R (touched (e i) n a (sn i) ?st) (ns_fs y) fs'" "root_ok R n a fs'" "stage_ok d R n (sn i) fs' st"
    using E inv by (simp_all add: install_inv_def)
  have dir: "installed_dir (e i) l s d = ?dir" using site by (simp add: install_site_def installed_dir_def)
  have others: "stage_ok d R n (sn j) fs' (ns_task y j)" if "j \<noteq> i" for j
  proof (rule stage_ok_cong)
    have "aside_name (e i) n \<notin> range sn" "sn j \<noteq> sn i" "sn j \<notin> {n, a, lock_name n}"
      using site that by (simp_all add: install_site_def inj_eq)
    moreover from this(1) have "sn j \<noteq> aside_name (e i) n" by (metis rangeI)
    ultimately have "sn j \<notin> touched (e i) n a (sn i) ?st" by (cases ?st) auto
    then show "node_at fs' (R @ sn j # z) = node_at (ns_fs y) (R @ sn j # z)" for z using beside_node [OF eff(1)] by blast
  qed (use inv in \<open>simp add: install_inv_def\<close>)
  have same: "c = d" if "?st = ICheck c \<or> ?st = IVerify c" for c
    using inv that unfolding install_inv_def by (metis stage_ok.simps(4,11))
  have win: "fs' = ns_fs y \<and> (\<exists>layout. pr_layout p fs' ?dir s = Inr (Some layout) \<and> r = managed l ?dir layout)
      \<and> locked_stage ?st" if "st = IDone (Inr r)" for r
    using install_move_success [OF mv(1) mv(2) [unfolded that]] same dir by auto
  have succ: "(\<exists>layout. pr_layout p fs' ?dir s = Inr (Some layout) \<and> r = managed l ?dir layout)
      \<and> (\<forall>j. \<not> working (ns_task ?z j))" if k: "ns_task ?z k = IDone (Inr r)" for k r
  proof (cases "k = i")
    case True
    then have w: "st = IDone (Inr r)" using k by simp
    have "\<not> working (ns_task y j)" if "j \<noteq> i" for j
      using locked_once [OF inv, of i j] win [OF w] that by (auto simp: working_def)
    then show ?thesis using win [OF w] w by (auto simp: working_def)
  next
    case False
    then have "ns_task y k = IDone (Inr r)" using k by simp
    then obtain layout where old: "pr_layout p (ns_fs y) ?dir s = Inr (Some layout)" "r = managed l ?dir layout"
        "\<And>j. \<not> working (ns_task y j)"
      using install_inv_success [OF inv] by blast
    have found: "\<exists>layout. pr_layout p (ns_fs y) (installed_dir (e i) l s c) s = Inr (Some layout)" if "?st = ICheck c" for c
      using same [of c] that dir old(1) by simp
    have idle: "\<not> working st \<and> touched (e i) n a (sn i) ?st \<subseteq> {lock_name n}"
      by (rule install_move_idle [OF mv(1) old(3) mv(2) found])
    have "lock_name n \<noteq> n" using install_site_names [OF site] by auto
    then have out: "n \<notin> touched (e i) n a (sn i) ?st" using subsetD [OF idle [THEN conjunct2], of n] by auto
    have "\<forall>x. node_at fs' (R @ n # x) = node_at (ns_fs y) (R @ n # x)" by (rule allI, rule beside_node [OF eff(1) out])
    from install_site_local [OF site this] show ?thesis using old idle by simp
  qed
  have past: "past_fetch (ns_task ?z k)" if "k \<in> ns_fetched ?z" for k
    using inv that install_move_past [OF mv(1) _ mv(2)] by (auto simp: install_inv_def split: if_splits)
  have lock: "ns_lock ?z (R @ [lock_name n]) = Some k" if "locked_stage (ns_task ?z k)" for k
    using that inv install_move_unlocked [OF _ mv(2)]
    by (cases "k = i"; cases st) (auto simp: install_inv_def release_def finished_def)
  have owner: "locked_stage (ns_task ?z k)" if "ns_lock ?z f = Some k" for f k
  proof -
    have "ns_lock y f = Some k \<and> \<not> (finished st \<and> k = i)"
      using that by (auto simp: release_def split: if_splits)
    moreover from this have "locked_stage (ns_task y k)" using inv unfolding install_inv_def by blast
    ultimately show ?thesis using install_move_locked [OF _ mv(2)] by auto
  qed
  have one: "k = j" if "k \<in> ns_fetched ?z" "j \<in> ns_fetched ?z" "ns_task ?z k = IDone (Inr q)" "ns_task ?z j = IDone (Inr r)"
    for k j q r
  proof -
    have first: False if "j \<noteq> i" "i \<in> ns_fetched ?z" "ns_task y j = IDone (Inr r)" "st = IDone (Inr q)" for j q r
    proof -
      have "\<not> working ?st" using inv that(3) by (auto simp: install_inv_def)
      moreover have "past_fetch ?st \<or> (\<exists>c. ?st = IFetch c)" using inv that(2) by (auto simp: install_inv_def split: if_splits)
      ultimately show False using win [OF that(4)] mv(1) by (auto simp: stage_defs)
    qed
    show ?thesis
      using that first [of j] first [of k] inv by (auto simp: install_inv_def split: if_splits)
  qed
  show ?thesis
    unfolding install_inv_def using eff others succ past lock owner one by auto
qed

lemma install_inv_granted:
  assumes inv: "install_inv l s p d root R n a sn y" and g: "ns_task y i = IWait c f" "ns_lock y f = None"
  shows "install_inv l s p d root R n a sn
    (y\<lparr>ns_task := (ns_task y)(i := ICheck c), ns_lock := (ns_lock y)(f \<mapsto> i)\<rparr>)"
proof -
  have at: "c = d" "f = R @ [lock_name n]" "\<forall>z. node_at (ns_fs y) (R @ sn i # z) = None"
    using inv g(1) unfolding install_inv_def by (metis stage_ok.simps(3))+
  have none: "\<not> locked_stage (ns_task y j)" for j using inv g(2) at(2) unfolding install_inv_def by force
  have idle: "\<not> working (ICheck c)" "\<not> past_fetch (IWait c f)" by (simp_all add: stage_defs)
  have "i \<notin> ns_fetched y" using inv g(1) idle(2) unfolding install_inv_def by metis
  then show ?thesis
    using inv at none idle unfolding install_inv_def by auto
qed

lemma install_inv_elsewhere:
  assumes site: "install_site e l s p d root R n a sn" and inv: "install_inv l s p d root R n a sn y"
    and q: "hands_off R n a sn (ns_fs y) fs'"
  shows "install_inv l s p d root R n a sn (y\<lparr>ns_fs := fs'\<rparr>)"
proof -
  have up: "node_at fs' k = node_at (ns_fs y) k" if "prefix k R" for k using q that by (simp add: hands_off_def)
  have in_root: "node_at fs' (R @ x # z) = node_at (ns_fs y) (R @ x # z)" if "x \<in> {n, a, lock_name n} \<union> range sn" for x z
  proof -
    have "prefix (R @ [x]) (R @ x # z)" by (simp add: prefix_def)
    then show ?thesis using q that unfolding hands_off_def by blast
  qed
  have "plain fs' (R @ [n])"
    using inv up by (auto simp: install_inv_def root_ok_def plain_def strict_prefix_snoc)
  then have "root_ok R n a fs'"
    using inv in_root [of "lock_name n" "[]"] in_root [of a "[]"] by (simp add: install_inv_def root_ok_def at_most_file_def)
  moreover have "stage_ok d R n (sn i) fs' (ns_task y i)" for i
    using inv by (intro stage_ok_cong [OF _ in_root]) (auto simp: install_inv_def)
  moreover have "pr_layout p fs' (path_join root (d_install_dir_name d)) s
      = pr_layout p (ns_fs y) (path_join root (d_install_dir_name d)) s"
    using install_site_local [OF site] in_root [of n] by blast
  ultimately show ?thesis using inv by (simp add: install_inv_def)
qed

definition install_initial ::
  "(nat \<Rightarrow> resolve_env) \<Rightarrow> language \<Rightarrow> runtime_settings \<Rightarrow> provider \<Rightarrow> distribution \<Rightarrow> string \<Rightarrow> loc \<Rightarrow> string
     \<Rightarrow> string \<Rightarrow> (nat \<Rightarrow> string) \<Rightarrow> install_sys \<Rightarrow> bool" where
  "install_initial e l s p d root R n a sn y \<longleftrightarrow>
     install_site e l s p d root R n a sn \<and> root_ok R n a (ns_fs y)
     \<and> (\<forall>i z. node_at (ns_fs y) (R @ sn i # z) = None) \<and> y = install_start (ns_fs y)"

interpretation installing: invariant_of "install_initial e l s p d root R n a sn"
    "install_step e l s p ih (hands_off R n a sn)"
    "\<lambda>y. install_site e l s p d root R n a sn \<and> install_inv l s p d root R n a sn y"
  for e l s p d root R n a sn ih
proof
  fix y assume i: "install_initial e l s p d root R n a sn y"
  then have "ns_task y = (\<lambda>_. IBegin)" "ns_lock y = (\<lambda>_. None)" "ns_fetched y = {}"
    unfolding install_initial_def by (metis install_start_def install_sys.select_convs)+
  then show "install_site e l s p d root R n a sn \<and> install_inv l s p d root R n a sn y"
    using i by (simp add: install_initial_def install_inv_def)
next
  fix y y' assume step: "install_step e l s p ih (hands_off R n a sn) y y'"
    and inv: "install_site e l s p d root R n a sn \<and> install_inv l s p d root R n a sn y"
  from step have "install_inv l s p d root R n a sn y'"
  proof cases
    case (moved i st fs')
    then show ?thesis
      using install_inv_moved [OF conjunct1 [OF inv] conjunct2 [OF inv] moved(2,4)] by (simp only:)
  next
    case (granted i c f)
    then show ?thesis using install_inv_granted [OF conjunct2 [OF inv] granted(2,3)] by (simp only:)
  next
    case (elsewhere fs')
    then show ?thesis
      using install_inv_elsewhere [OF conjunct1 [OF inv] conjunct2 [OF inv] elsewhere(2)] by (simp only:)
  qed
  then show "install_site e l s p d root R n a sn \<and> install_inv l s p d root R n a sn y'" using inv by blast
qed

text \<open>Once a call has returned the toolchain, nobody turns to the network.\<close>

lemma success_kept:
  assumes "install_step e l s p ih q y y'" "ns_task y i = IDone (Inr r)"
  shows "ns_task y' i = IDone (Inr r)"
  using assms by cases (auto simp: moving_def finished_def)

lemma fetched_for_good:
  assumes "(install_step e l s p ih (hands_off R n a sn))\<^sup>*\<^sup>* y y'"
    and "install_site e l s p d root R n a sn" "install_inv l s p d root R n a sn y" "ns_task y i = IDone (Inr r)"
  shows "ns_fetched y' = ns_fetched y"
proof -
  have "ns_fetched y' = ns_fetched y \<and> ns_task y' i = IDone (Inr r) \<and> install_inv l s p d root R n a sn y'"
    using assms(1)
  proof induction
    case base
    then show ?case using assms by simp
  next
    case (step b c)
    then have inv: "install_inv l s p d root R n a sn b" and won: "ns_task b i = IDone (Inr r)" by simp_all
    have "working (IFetch k)" for k by (simp add: working_def)
    then have "\<forall>j k. ns_task b j \<noteq> IFetch k" using install_inv_success [OF inv won] by metis
    with step.hyps(2) have "ns_fetched c = ns_fetched b" by cases auto
    then show ?case
      using step success_kept [OF step.hyps(2) won] installing.inv_step [OF step.hyps(2)] assms(2) by simp
  qed
  then show ?thesis by simp
qed

text \<open>Any stage is at most eleven steps from the end, once the lock is granted.\<close>

lemma run_stages_finishes: "finished (fst (run_stages 12 env l s p st fs))"
  by (cases st) (auto simp: numeral_eq_Suc finished_def split: sum.splits prod.splits option.splits)

lemma finish_alone:
  assumes "has_thread ih y i" "early (ns_task y i) \<Longrightarrow> \<forall>f. ns_lock y f = None"
  shows "\<exists>y' st. (install_step e l s p ih q)\<^sup>*\<^sup>* y y' \<and> ns_task y' = (ns_task y)(i := st) \<and> finished st"
proof -
  obtain st g where run: "run_stages 12 (e i) l s p (ns_task y i) (ns_fs y) = (st, g)" by (metis surj_pair)
  then have "finished st" using run_stages_finishes [of "e i" l s p "ns_task y i" "ns_fs y"] by simp
  then show ?thesis using run_stages_steps [where e = e and y = y and i = i, OF run assms] by blast
qed

text \<open>No process parks more calls than it has threads.\<close>

lemma install_move_waits:
  "install_move env l s p st fs = (st', fs') \<Longrightarrow> waits st' \<Longrightarrow> \<not> waits st \<Longrightarrow> takes_thread p s st"
  by (cases st) (auto split: sum.splits prod.splits option.splits)

lemma parked_one: "parked ih (y\<lparr>ns_fs := g, ns_task := (ns_task y)(i := st), ns_lock := k, ns_fetched := x\<rparr>) q
    \<subseteq> parked ih y q \<union> (if waits st \<and> ih_process ih i = q then {i} else {})"
  by (auto simp: parked_def split: if_splits)

lemma threads_hold_step:
  assumes "install_step e l s p ih quiet y y'" "\<forall>q. finite (parked ih y q) \<and> card (parked ih y q) \<le> ih_threads ih q"
  shows "finite (parked ih y' q) \<and> card (parked ih y' q) \<le> ih_threads ih q"
  using assms(1)
proof cases
  case (moved i st fs')
  let ?more = "if waits st \<and> ih_process ih i = q then {i} else {}"
  have sub: "parked ih y' q \<subseteq> parked ih y q \<union> ?more" unfolding moved(1) by (rule parked_one)
  have "card (parked ih y q \<union> ?more) \<le> ih_threads ih q"
  proof (cases "waits st \<and> ih_process ih i = q")
    case True
    have "\<not> waits (ns_task y i)" using moved(2) by (cases "ns_task y i") (auto simp: moving_def)
    then have "takes_thread p s (ns_task y i)" and out: "i \<notin> parked ih y q"
      using install_move_waits [OF moved(4)] True by (auto simp: parked_def)
    then have "card (parked ih y q - {i}) < ih_threads ih q" using moved(3) True by (simp add: has_thread_def)
    then show ?thesis using True out assms(2) by (simp add: card_insert_if)
  next
    case False
    then have "?more = {}" by (simp only: if_False)
    then show ?thesis using assms(2) by (simp only: Un_empty_right)
  qed
  moreover have "finite (parked ih y q \<union> ?more)" using assms(2) by simp
  ultimately show ?thesis using finite_subset [OF sub] card_mono [OF _ sub] le_trans by blast
next
  case (granted i c f)
  have "parked ih y' q \<subseteq> parked ih y q" unfolding granted(1) by (auto simp: parked_def split: if_splits)
  then show ?thesis using assms(2) by (meson card_mono finite_subset le_trans)
next
  case (elsewhere fs')
  then show ?thesis using assms(2) by (simp add: parked_def)
qed

lemma threads_hold:
  assumes "(install_step e l s p ih quiet)\<^sup>*\<^sup>* (install_start fs) y"
  shows "finite (parked ih y q) \<and> card (parked ih y q) \<le> ih_threads ih q"
  using assms
proof (induction arbitrary: q)
  case base
  then show ?case by (simp add: parked_def install_start_def)
next
  case (step y z)
  then show ?case using threads_hold_step [OF step.hyps(2)] by blast
qed

lemma reached_inv:
  assumes "install_site e l s p d root R n a sn" "root_ok R n a fs" "\<forall>i z. node_at fs (R @ sn i # z) = None"
    and "(install_step e l s p ih (hands_off R n a sn))\<^sup>*\<^sup>* (install_start fs) y"
  shows "install_inv l s p d root R n a sn y"
proof -
  have "install_initial e l s p d root R n a sn (install_start fs)"
    using assms(1-3) by (simp add: install_initial_def install_start_def)
  then show ?thesis using installing.steps_inv [OF assms(4)] installing.inv_init by blast
qed

lemma all_free: "install_inv l s p d root R n a sn y \<Longrightarrow> \<forall>h. \<not> locked_stage (ns_task y h) \<Longrightarrow> ns_lock y f = None"
  unfolding install_inv_def by (metis not_None_eq)

subsection \<open>Properties\<close>

text \<open>
  C9.  However many calls, in this and in other processes, install one toolchain at once: no two
  of them are past the lock at the same time; when a call has returned the toolchain, the provider
  still finds it there, nobody is fetching, unpacking or promoting, nobody will turn to the network
  again, and of the calls that returned it at most one had fetched it, the others got the same.  The
  names of toolchain, archive, lock and stages do not collide, the unpackers stay in their directory
  and the provider's answer depends only on what is in the install directory (\<open>install_site\<close>); the
  rest of the host leaves these entries alone (\<open>hands_off\<close>); and calls run to their end.
\<close>

theorem installed_once:
  assumes "install_site e l s p d root R n a sn" "root_ok R n a fs" "\<forall>i z. node_at fs (R @ sn i # z) = None"
    and "(install_step e l s p ih (hands_off R n a sn))\<^sup>*\<^sup>* (install_start fs) y"
    and "(install_step e l s p ih (hands_off R n a sn))\<^sup>*\<^sup>* y y'"
  shows "(\<forall>i j. locked_stage (ns_task y i) \<and> locked_stage (ns_task y j) \<longrightarrow> i = j)
    \<and> (\<forall>i r. ns_task y i = IDone (Inr r) \<longrightarrow>
         (\<exists>layout. pr_layout p (ns_fs y) (path_join root (d_install_dir_name d)) s = Inr (Some layout)
            \<and> r = managed l (path_join root (d_install_dir_name d)) layout)
         \<and> (\<forall>j. \<not> working (ns_task y j)) \<and> ns_fetched y' = ns_fetched y
         \<and> (\<forall>j q. ns_task y j = IDone (Inr q) \<longrightarrow> q = r \<and> (i \<in> ns_fetched y \<and> j \<in> ns_fetched y \<longrightarrow> i = j)))"
proof -
  note site = assms(1) and inv = reached_inv [OF assms(1-4)]
  have quiet: "ns_fetched y' = ns_fetched y" if "ns_task y i = IDone (Inr r)" for i r
    using fetched_for_good [OF assms(5) site inv that] .
  have "q = r" if "ns_task y i = IDone (Inr r)" "ns_task y j = IDone (Inr q)" for i j q r
    using install_inv_success [OF inv that(1)] install_inv_success [OF inv that(2)] by force
  moreover have "i = j" if "ns_task y i = IDone (Inr r)" "ns_task y j = IDone (Inr q)" "i \<in> ns_fetched y" "j \<in> ns_fetched y"
    for i j q r
    using inv that unfolding install_inv_def by blast
  moreover note quiet
  ultimately show ?thesis
    using locked_once [OF inv] install_inv_success [OF inv] by blast
qed

text \<open>With the lock free, a call ends after at most one other call of its process has made room for it.\<close>

lemma finish_unlocked:
  assumes run: "(install_step e l s p ih (hands_off R n a sn))\<^sup>*\<^sup>* (install_start fs) y"
    and ok: "install_site e l s p d root R n a sn" "root_ok R n a fs" "\<forall>i z. node_at fs (R @ sn i # z) = None"
    and free: "\<forall>k. \<not> locked_stage (ns_task y k)" and threads: "\<forall>q. 0 < ih_threads ih q"
  shows "\<exists>y'. (install_step e l s p ih (hands_off R n a sn))\<^sup>*\<^sup>* y y' \<and> finished (ns_task y' i)"
proof -
  let ?step = "install_step e l s p ih (hands_off R n a sn)" and ?q = "ih_process ih i"
  have unlocked: "\<forall>f. ns_lock z f = None" if "?step\<^sup>*\<^sup>* y z" "\<forall>k. \<not> locked_stage (ns_task z k)" for z
    using all_free [OF reached_inv [OF ok rtranclp_trans [OF run that(1)]] that(2)] by blast
  have ends: ?thesis if z: "?step\<^sup>*\<^sup>* y z" "\<forall>k. \<not> locked_stage (ns_task z k)" "has_thread ih z i" for z
  proof -
    obtain y' st where "?step\<^sup>*\<^sup>* z y'" "ns_task y' = (ns_task z)(i := st)" "finished st"
      using finish_alone [where y = z and i = i and e = e and q = "hands_off R n a sn", OF z(3)] unlocked [OF z(1,2)] by blast
    then show ?thesis using rtranclp_trans [OF z(1)] by (intro exI [of _ y']) simp
  qed
  have cap: "finite (parked ih y ?q)" "card (parked ih y ?q) \<le> ih_threads ih ?q" using threads_hold [OF run] by blast+
  show ?thesis
  proof (cases "has_thread ih y i")
    case False
    have "card (parked ih y ?q - {i}) \<noteq> 0" using False threads by (metis has_thread_def)
    then have "parked ih y ?q - {i} \<noteq> {}" by (metis card.empty)
    then obtain j where j: "j \<in> parked ih y ?q" "j \<noteq> i" by blast
    have i: "card (parked ih y ?q - {j}) < ih_threads ih ?q"
      using card_Diff1_less [OF cap(1) j(1)] cap(2) by simp
    then have "has_thread ih y j" using j(1) by (simp add: has_thread_def parked_def)
    then obtain z st where z: "?step\<^sup>*\<^sup>* y z" "ns_task z = (ns_task y)(j := st)" "finished st"
      using finish_alone [where y = y and i = j and e = e and q = "hands_off R n a sn"] unlocked free by blast
    then have "parked ih z ?q \<subseteq> parked ih y ?q - {j}" by (auto simp: parked_def finished_def)
    then have "card (parked ih z ?q - {i}) \<le> card (parked ih y ?q - {j})" using cap(1) by (intro card_mono) auto
    then have "has_thread ih z i" using i by (simp add: has_thread_def)
    moreover have "\<forall>k. \<not> locked_stage (ns_task z k)" using z(2,3) free by (auto simp: finished_def)
    ultimately show ?thesis using ends [OF z(1)] by blast
  qed (use ends [of y] free in blast)
qed

text \<open>A holder that needs a thread when waiting calls have them all stays where it is, and they wait on.\<close>

definition starved :: "provider \<Rightarrow> runtime_settings \<Rightarrow> install_hosts \<Rightarrow> install_sys \<Rightarrow> nat \<Rightarrow> bool" where
  "starved p s ih y h \<longleftrightarrow> locked_stage (ns_task y h) \<and> takes_thread p s (ns_task y h) \<and> \<not> has_thread ih y h"

lemma locked_not_waits: "locked_stage st \<Longrightarrow> \<not> waits st"
  by (cases st) simp_all

lemma starved_step:
  assumes inv: "install_inv l s p d root R n a sn y" and step: "install_step e l s p ih quiet y y'"
    and h: "starved p s ih y h" and fin: "finite (parked ih y' (ih_process ih h))"
  shows "starved p s ih y' h \<and> ns_task y' h = ns_task y h
    \<and> (\<forall>j. waits (ns_task y j) \<longrightarrow> ns_task y' j = ns_task y j)"
proof -
  have keep: "(\<forall>j. j = h \<or> waits (ns_task y j) \<longrightarrow> ns_task y' j = ns_task y j)"
    using step
  proof cases
    case (moved i st fs')
    then have "i \<noteq> h" using h by (auto simp: starved_def)
    moreover have "\<not> waits (ns_task y i)" using moved(2) by (cases "ns_task y i") (auto simp: moving_def)
    ultimately show ?thesis using moved(1) by auto
  next
    case (granted i c f)
    have "f = R @ [lock_name n]" using inv granted(2) unfolding install_inv_def by (metis stage_ok.simps(3))
    then have "ns_lock y f = Some h" using inv h unfolding install_inv_def starved_def by blast
    then show ?thesis using granted(3) by simp
  qed simp
  have "parked ih y (ih_process ih h) \<subseteq> parked ih y' (ih_process ih h)" using keep by (auto simp: parked_def)
  then have "card (parked ih y (ih_process ih h) - {h}) \<le> card (parked ih y' (ih_process ih h) - {h})"
    using fin by (intro card_mono) auto
  then show ?thesis using h keep by (auto simp: starved_def has_thread_def)
qed

lemma starved_for_good:
  assumes run: "(install_step e l s p ih (hands_off R n a sn))\<^sup>*\<^sup>* y y'"
    and ok: "install_site e l s p d root R n a sn" "root_ok R n a fs" "\<forall>i z. node_at fs (R @ sn i # z) = None"
    and start: "(install_step e l s p ih (hands_off R n a sn))\<^sup>*\<^sup>* (install_start fs) y" and h: "starved p s ih y h"
  shows "starved p s ih y' h \<and> ns_task y' h = ns_task y h
    \<and> (\<forall>j. waits (ns_task y j) \<longrightarrow> ns_task y' j = ns_task y j)"
  using run
proof induction
  case base
  then show ?case using h by simp
next
  case (step b c)
  have b: "install_inv l s p d root R n a sn b" using reached_inv [OF ok rtranclp_trans [OF start step.hyps(1)]] .
  have "finite (parked ih c (ih_process ih h))"
    using threads_hold [OF rtranclp.rtrancl_into_rtrancl [OF rtranclp_trans [OF start step.hyps(1)] step.hyps(2)]] by blast
  from starved_step [OF b step.hyps(2) _ this] step.IH show ?case by auto
qed

text \<open>
  C18.  When an install can get stuck, and when not.  The calls of a process share its blocking threads,
  at least one, and each call that waits for the lock holds one.  If the process of the lock holder, if
  there is one, has a thread left, every call can still come to its end: the holder can end and give the
  lock back, and so on.  But if waiting calls have all its threads and the holder needs one for its next
  step, then, whatever happens, the holder never takes that step and those calls wait for ever.  As in C9
  the names of the cache do not collide, the unpackers stay inside and the rest of the host leaves the
  cache alone (\<open>install_site\<close>, \<open>hands_off\<close>), and calls run to their end.
\<close>

theorem install_can_finish:
  assumes "install_site e l s p d root R n a sn" "root_ok R n a fs" "\<forall>i z. node_at fs (R @ sn i # z) = None"
    and "\<forall>q. 0 < ih_threads ih q"
    and "(install_step e l s p ih (hands_off R n a sn))\<^sup>*\<^sup>* (install_start fs) y"
  shows "((\<forall>h. locked_stage (ns_task y h) \<longrightarrow> card (parked ih y (ih_process ih h)) < ih_threads ih (ih_process ih h)) \<longrightarrow>
      (\<forall>i. \<exists>y'. (install_step e l s p ih (hands_off R n a sn))\<^sup>*\<^sup>* y y' \<and> finished (ns_task y' i)))
    \<and> (\<forall>h y'. locked_stage (ns_task y h) \<and> takes_thread p s (ns_task y h)
          \<and> card (parked ih y (ih_process ih h)) = ih_threads ih (ih_process ih h)
          \<and> (install_step e l s p ih (hands_off R n a sn))\<^sup>*\<^sup>* y y' \<longrightarrow>
        ns_task y' h = ns_task y h \<and> (\<forall>j. waits (ns_task y j) \<longrightarrow> ns_task y' j = ns_task y j))"
proof -
  let ?step = "install_step e l s p ih (hands_off R n a sn)"
  have out: "parked ih y q - {h} = parked ih y q" if "locked_stage (ns_task y h)" for h q
    using locked_not_waits [OF that] by (auto simp: parked_def)
  have ends: "\<exists>y'. ?step\<^sup>*\<^sup>* y y' \<and> finished (ns_task y' i)"
    if "\<forall>h. locked_stage (ns_task y h) \<longrightarrow> card (parked ih y (ih_process ih h)) < ih_threads ih (ih_process ih h)" for i
  proof -
    have "\<exists>y1. ?step\<^sup>*\<^sup>* y y1 \<and> (\<forall>k. \<not> locked_stage (ns_task y1 k))"
    proof (cases "\<exists>h. locked_stage (ns_task y h)")
      case True
      then obtain h where h: "locked_stage (ns_task y h)" ..
      then have "\<not> early (ns_task y h)" "has_thread ih y h" using that out [OF h] by (auto simp: early_def has_thread_def)
      then obtain y1 st where y1: "?step\<^sup>*\<^sup>* y y1" "ns_task y1 = (ns_task y)(h := st)" "finished st"
        using finish_alone [where y = y and i = h and ih = ih] by blast
      have "\<not> locked_stage (ns_task y1 k)" for k
        using locked_once [OF reached_inv [OF assms(1-3,5)] h, of k] y1(2,3) by (auto simp: finished_def)
      then show ?thesis using y1(1) by blast
    qed blast
    then obtain y1 where y1: "?step\<^sup>*\<^sup>* y y1" "\<forall>k. \<not> locked_stage (ns_task y1 k)" by blast
    show ?thesis
      using finish_unlocked [OF rtranclp_trans [OF assms(5) y1(1)] assms(1-3) y1(2) assms(4)] rtranclp_trans [OF y1(1)] by blast
  qed
  have "ns_task y' h = ns_task y h \<and> (\<forall>j. waits (ns_task y j) \<longrightarrow> ns_task y' j = ns_task y j)"
    if "locked_stage (ns_task y h)" "takes_thread p s (ns_task y h)"
      "card (parked ih y (ih_process ih h)) = ih_threads ih (ih_process ih h)" "?step\<^sup>*\<^sup>* y y'" for h y'
  proof -
    have "starved p s ih y h" using that(1-3) out [OF that(1)] by (simp add: starved_def has_thread_def)
    then show ?thesis using starved_for_good [OF that(4) assms(1-3,5)] by blast
  qed
  then show ?thesis using ends by blast
qed

subsection \<open>Two calls to look at\<close>

definition demo_twin :: "nat \<Rightarrow> resolve_env" where
  "demo_twin i = demo_resolve\<lparr>ev_uuid := replicate i (CHR ''u'')\<rparr>"

definition demo_node :: distribution where
  "demo_node = with_install_dir_name ''node'' demo_distribution"

definition demo_builder :: provider where
  "demo_builder = demo_provider\<lparr>pr_select_distribution := (\<lambda>_. Inr demo_node),
     pr_layout := (\<lambda>fs dir _. Inr (if node_at fs [''c'', ''node''] = Some Dir then Some demo_layout else None))\<rparr>"

definition demo_cache_root :: fs where
  "demo_cache_root = [([''c''], Dir)]"


definition demo_stage :: "nat \<Rightarrow> string" where
  "demo_stage i = ''.stage-9-'' @ replicate i (CHR ''u'')"

lemma view_below_c: "CHR ''/'' \<notin> set x \<Longrightarrow> x \<noteq> [] \<Longrightarrow> x \<noteq> ''.'' \<Longrightarrow> x \<noteq> ''..'' \<Longrightarrow> view (''/c/'' @ x) = path_to [''c'', x]"
  by (simp add: view_def components_def component_of_def is_absolute_def starts_with_def split_on_free path_to_def)

lemma demo_entry_enclosed: "ze_enclosed demo_entry = Some rel \<Longrightarrow> enclosed rel"
  by (auto simp: demo_entry_def enclosed_def is_absolute_def starts_with_def components_def component_of_def)

lemma demo_site:
  "install_site demo_twin language_nodejs demo_settings demo_builder demo_node ''/c'' [''c''] ''node'' ''n.zip'' demo_stage"
proof -
  have root: "root_of (demo_twin i) language_nodejs demo_settings = ''/c''" for i
    by (simp add: demo_twin_def demo_resolve_def root_of_def cache_root_def cache_root_under_def demo_cache_dir)
  have ids: "ev_pid (demo_twin i) = 9" "ev_uuid (demo_twin i) = replicate i (CHR ''u'')" for i
    by (simp_all add: demo_twin_def demo_resolve_def)
  have "staging_of (demo_twin i) language_nodejs demo_settings = ''/c/'' @ demo_stage i" for i
    by (simp add: staging_of_def root ids staging_dir_def STAGING_PREFIX_def demo_stage_def path_join_def is_absolute_def
        starts_with_def ends_with_def strip_suffix_def dec_9)
  then have stage: "view (staging_of (demo_twin i) language_nodejs demo_settings) = path_to [''c'', demo_stage i]" for i
    using view_below_c [of "demo_stage i"] by (simp add: demo_stage_def)
  have below: "unpackers_stay (ev_archive (demo_twin i))" for i
    using demo_entry_enclosed by (auto simp: unpackers_stay_def stays_below_def sealed_def demo_twin_def demo_resolve_def)
  have views: "view ''/c'' = path_to [''c'']"
      "view (path_join ''/c'' (d_install_dir_name demo_node)) = path_to [''c'', ''node'']"
      "view (path_join ''/c'' (d_archive_name demo_node)) = path_to [''c'', ''n.zip'']"
    by code_simp+
  have other: "demo_stage i \<notin> {''node'', ''n.zip'', lock_name ''node''}" "inj demo_stage"
      "aside_name (demo_twin i) ''node'' \<notin> {''node'', ''n.zip''} \<union> range demo_stage"
      "distinct [''node'', ''n.zip'', lock_name ''node'']" for i
    by (auto simp: demo_stage_def lock_name_def aside_name_def inj_def file_stem_def)
  have "pr_select_distribution demo_builder demo_settings = Inr demo_node"
      "pr_layout demo_builder fs dir st = Inr (if node_at fs [''c'', ''node''] = Some Dir then Some demo_layout else None)"
      for fs dir st
    by (simp_all add: demo_builder_def)
  then show ?thesis using root stage below views other unfolding install_site_def by auto
qed

lemma demo_root_ok: "root_ok [''c''] ''node'' ''n.zip'' demo_cache_root"
  "\<forall>i z. node_at demo_cache_root ([''c''] @ demo_stage i # z) = None"
  by (simp_all add: root_ok_def at_most_file_def plain_check demo_cache_root_def node_at_def lock_name_def file_stem_def
      demo_stage_def)

lemma demo_paths:
  "root_of (demo_twin i) language_nodejs demo_settings = ''/c''" "view ''/c'' = path_to [''c'']"
  "view (installed_dir (demo_twin i) language_nodejs demo_settings demo_node) = path_to [''c'', ''node'']"
  "view (archive_of (demo_twin i) language_nodejs demo_settings demo_node) = path_to [''c'', ''n.zip'']"
  "view (staging_of (demo_twin i) language_nodejs demo_settings) = path_to [''c'', demo_stage i]"
  using demo_site by (simp_all add: install_site_def installed_dir_def archive_of_def)

lemma demo_twin_fields:
  "ev_root (demo_twin i) = None" "ev_cwd (demo_twin i) = []" "ev_fetch (demo_twin i) = demo_fetch"
  "ev_lock (demo_twin i) = \<lparr>lk_mkdir = None, lk_open = None, lk_lock = None, lk_panics = None\<rparr>"
  "ev_stage (demo_twin i) = demo_keep" "ev_cleanup (demo_twin i) = demo_keep" "ev_promote (demo_twin i) = demo_promote"
  "ev_promote_panics (demo_twin i) = None" "ev_archive (demo_twin i) = ev_archive demo_resolve"
  "ev_remove_archive (demo_twin i) = None" "pr_select_distribution demo_builder demo_settings = Inr demo_node"
  "pr_layout demo_builder fs dir st = Inr (if node_at fs [''c'', ''node''] = Some Dir then Some demo_layout else None)"
  by (simp_all add: demo_twin_def demo_resolve_def demo_builder_def)

lemma demo_node_fields: "d_expected_sha256 demo_node = Some ''03''" "d_format demo_node = Zip"
  by (simp_all add: demo_node_def demo_distribution_def with_install_dir_name_def with_sha256_def distribution_new_def)

lemma demo_digest_fits: "eq_ignore_ascii_case ''03'' (hex_encode [char_of (Suc (Suc (Suc 0)))])"
  using hex_3 by (simp add: eq_ignore_ascii_case_def numeral_3_eq_3)

lemma demo_entry_path: "components ''n/x'' = [Normal ''n'', Normal ''x'']" "\<not> is_absolute ''n/x''"
  by code_simp+

lemmas fs_run_defs = locate_def path_to_def node_at_def mkdir_def create_dir_all_def is_dir_def canonicalize_def
  parent_of_def write_file_def remove_file_def rename_def path_exists_def children_def remove_dir_all_def

definition demo_lock_there :: fs where
  "demo_lock_there = [([''c'', ''node.lock''], File []), ([''c''], Dir)]"

definition demo_archive_there :: fs where
  "demo_archive_there = ([''c'', ''n.zip''], File ''abc'') # demo_lock_there"

definition demo_unpacked :: fs where
  "demo_unpacked =
     [([''c'', ''.stage-9-'', ''n'', ''x''], File ''z''), ([''c'', ''.stage-9-'', ''n''], Dir), ([''c'', ''.stage-9-''], Dir)]
       @ demo_archive_there"

definition demo_promoted :: fs where
  "demo_promoted =
     [([''c'', ''node'', ''x''], File ''z''), ([''c'', ''node''], Dir), ([''c'', ''.stage-9-''], Dir)] @ demo_archive_there"

definition demo_kept :: fs where
  "demo_kept = [([''c'', ''node'', ''x''], File ''z''), ([''c'', ''node''], Dir)] @ demo_archive_there"

definition demo_node_there :: fs where
  "demo_node_there = [([''c'', ''node'', ''x''], File ''z''), ([''c'', ''node''], Dir)] @ demo_lock_there"

lemmas demo_trees = demo_cache_root_def demo_lock_there_def demo_archive_there_def demo_unpacked_def demo_promoted_def demo_kept_def
  demo_node_there_def

abbreviation demo_move :: "nat \<Rightarrow> install_stage \<Rightarrow> fs \<Rightarrow> install_stage \<times> fs" where
  "demo_move i \<equiv> install_move (demo_twin i) language_nodejs demo_settings demo_builder"

lemma demo_calls:
  "demo_move i IBegin demo_cache_root = (IOpen demo_node, demo_cache_root)"
  "demo_move i IBegin demo_lock_there = (IOpen demo_node, demo_lock_there)"
  "demo_move i (IOpen demo_node) demo_cache_root = (IWait demo_node [''c'', ''node.lock''], demo_lock_there)"
  "demo_move i (IOpen demo_node) demo_lock_there = (IWait demo_node [''c'', ''node.lock''], demo_lock_there)"
  "demo_move i (ICheck demo_node) demo_lock_there = (IFetch demo_node, demo_lock_there)"
  "\<exists>r. demo_move i (ICheck demo_node) demo_node_there = (IDone (Inr r), demo_node_there)"
  "\<exists>r. demo_move i (IVerify demo_node) demo_node_there = (IDone (Inr r), demo_node_there)"
  by (simp_all add: demo_twin_fields demo_paths ensure_root_def lock_acquire_def open_lock_file_def lock_path_def
      with_extension_def file_name_of_def file_stem_def fs_run_defs demo_trees)

lemma demo_fetches: "demo_move i (IFetch demo_node) demo_lock_there = (IClear demo_node, demo_archive_there)"
  by (simp add: demo_twin_fields demo_paths fetch_def stream_to_file_def demo_fetch_def fs_run_defs demo_trees
      demo_node_fields demo_digest_fits)

lemma demo_unpacks:
  "demo_move 0 (IClear demo_node) demo_archive_there = (IUnpack demo_node, demo_archive_there)"
  "demo_move 0 (IUnpack demo_node) demo_archive_there = (IPromote demo_node (path_to [''c'', ''.stage-9-'', ''n'']), demo_unpacked)"
  by (simp_all add: demo_twin_fields demo_paths demo_resolve_def archive_extract_def archive_unpack_def unpack_bytes_def open_archive_def
      single_root_def read_dir_def entry_destination_def demo_entry_path unzip_entry_def demo_entry_def fs_run_defs demo_trees
      demo_node_fields demo_stage_def discard_def)

lemma demo_promotes:
  "demo_move 0 (IPromote demo_node (path_to [''c'', ''.stage-9-'', ''n''])) demo_unpacked = (IClean demo_node (Inr ()), demo_promoted)"
  "demo_move 0 (IClean demo_node (Inr ())) demo_promoted = (IRemove demo_node (Inr ()), demo_kept)"
  "demo_move 0 (IRemove demo_node (Inr ())) demo_kept = (IVerify demo_node, demo_node_there)"
  by (simp_all add: demo_twin_fields demo_paths promote_def promote_blocking_def prepare_parent_def demo_promote_def
      fs_run_defs relocate_def demo_trees blocking_run_def discard_def demo_keep_def demo_stage_def remove_archive_def)

abbreviation demo_run :: "nat \<Rightarrow> nat \<Rightarrow> install_stage \<Rightarrow> fs \<Rightarrow> install_stage \<times> fs" where
  "demo_run n i \<equiv> run_stages n (demo_twin i) language_nodejs demo_settings demo_builder"

text \<open>All calls in one process of \<open>n\<close> blocking threads.\<close>

definition demo_hosts :: "nat \<Rightarrow> install_hosts" where
  "demo_hosts n = \<lparr>ih_process = (\<lambda>_. 0), ih_threads = (\<lambda>_. n)\<rparr>"

lemma demo_thread_left:
  assumes "\<forall>j. j \<noteq> 0 \<and> j \<noteq> 1 \<longrightarrow> \<not> waits (ns_task y j)" "i = 0 \<or> i = (1::nat)"
  shows "has_thread (demo_hosts 2) y i"
proof -
  have "parked (demo_hosts 2) y 0 - {i} \<subseteq> {1 - i}" using assms by (auto simp: parked_def demo_hosts_def)
  then have "card (parked (demo_hosts 2) y 0 - {i}) \<le> card {1 - i}" by (intro card_mono) simp
  then show ?thesis by (simp add: has_thread_def demo_hosts_def)
qed

lemma demo_thread_alone: "\<forall>j. \<not> waits (ns_task y j) \<Longrightarrow> has_thread (demo_hosts 1) y i"
  by (simp add: has_thread_def parked_def demo_hosts_def)

abbreviation demo_steps :: "nat \<Rightarrow> install_sys \<Rightarrow> install_sys \<Rightarrow> bool" where
  "demo_steps n \<equiv>
     (install_step demo_twin language_nodejs demo_settings demo_builder (demo_hosts n)
        (hands_off [''c''] ''node'' ''n.zip'' demo_stage))\<^sup>*\<^sup>*"

lemma demo_begins: "demo_run 2 1 IBegin demo_cache_root = (IWait demo_node [''c'', ''node.lock''], demo_lock_there)"
  by (simp add: numeral_2_eq_2 demo_calls del: install_move.simps)

lemma demo_installs: "\<exists>r. demo_run 12 0 IBegin demo_lock_there = (IDone (Inr r), demo_node_there)"
proof -
  obtain r where "demo_move 0 (IVerify demo_node) demo_node_there = (IDone (Inr r), demo_node_there)"
    using demo_calls(7) by blast
  then show ?thesis
    by (simp add: numeral_eq_Suc demo_calls demo_fetches demo_unpacks demo_promotes del: install_move.simps)
qed

lemma demo_finds:
  "\<exists>r. demo_run 2 1 (IWait demo_node [''c'', ''node.lock'']) demo_node_there = (IDone (Inr r), demo_node_there)"
  using demo_calls(6) [of 1] by (auto simp: numeral_2_eq_2 simp del: install_move.simps)

text \<open>Call 1 opens the lock file and waits; then call 0 gets the lock first.\<close>

lemma demo_waiting:
  "\<exists>y. demo_steps 2 (install_start demo_cache_root) y \<and> ns_fs y = demo_lock_there
     \<and> ns_task y = (\<lambda>_. IBegin)(1 := IWait demo_node [''c'', ''node.lock''])"
  using run_stages_steps [where n = 2 and e = demo_twin and i = 1 and y = "install_start demo_cache_root" and ih = "demo_hosts 2"]
    demo_begins demo_thread_left [of "install_start demo_cache_root" 1] by (simp add: install_start_def)

lemma demo_free:
  assumes "demo_steps n (install_start demo_cache_root) y" "\<forall>h. \<not> locked_stage (ns_task y h)"
  shows "ns_lock y f = None"
  using all_free [OF reached_inv [OF demo_site demo_root_ok assms(1)] assms(2)] .

theorem installed_once_witness:
  "\<exists>y r. demo_steps 2 (install_start demo_cache_root) y \<and> ns_task y 0 = IDone (Inr r) \<and> ns_task y 1 = IDone (Inr r)
     \<and> (0 \<notin> ns_fetched y \<or> 1 \<notin> ns_fetched y)"
proof -
  obtain y1 where y1: "demo_steps 2 (install_start demo_cache_root) y1" "ns_fs y1 = demo_lock_there"
      "ns_task y1 = (\<lambda>_. IBegin)(1 := IWait demo_node [''c'', ''node.lock''])"
    using demo_waiting by blast
  obtain r where "demo_run 12 0 (ns_task y1 0) (ns_fs y1) = (IDone (Inr r), demo_node_there)"
    using demo_installs y1 by auto
  from run_stages_steps [where e = demo_twin and y = y1 and i = 0 and ih = "demo_hosts 2", OF this]
    demo_thread_left [of y1 0] demo_free [OF y1(1)] y1(3)
  obtain y2 where y2: "demo_steps 2 y1 y2" "ns_fs y2 = demo_node_there"
      "ns_task y2 = (\<lambda>_. IBegin)(1 := IWait demo_node [''c'', ''node.lock''], 0 := IDone (Inr r))"
    by auto
  note s2 = rtranclp_trans [OF y1(1) y2(1)]
  obtain q where "demo_run 2 1 (ns_task y2 1) (ns_fs y2) = (IDone (Inr q), demo_node_there)"
    using demo_finds y2 by auto
  moreover have "\<forall>f. ns_lock y2 f = None" using demo_free [OF s2] y2(3) by simp
  moreover have "has_thread (demo_hosts 2) y2 1" by (rule demo_thread_left) (simp_all add: y2(3))
  ultimately have "\<exists>y'. demo_steps 2 y2 y' \<and> ns_fs y' = demo_node_there \<and> ns_task y' = (ns_task y2)(1 := IDone (Inr q))"
    by (intro run_stages_steps) auto
  then obtain y3 where "demo_steps 2 y2 y3" "ns_task y3 = (ns_task y2)(1 := IDone (Inr q))" by blast
  then have y3: "demo_steps 2 y2 y3" "ns_task y3 0 = IDone (Inr r)" "ns_task y3 1 = IDone (Inr q)"
    using y2(3) by simp_all
  note s3 = rtranclp_trans [OF s2 y3(1)]
  show ?thesis
    using installed_once [OF demo_site demo_root_ok s3 rtranclp.rtrancl_refl] y3 s3 zero_neq_one by metis
qed

text \<open>One thread: call 0 has the lock and must fetch, then call 1 parks on the thread.\<close>

lemma demo_holds: "demo_run 4 0 IBegin demo_cache_root = (IFetch demo_node, demo_lock_there)"
  by (simp add: numeral_eq_Suc demo_calls del: install_move.simps)

lemma moved_only:
  assumes "moving (ns_task y i)" "has_thread ih y i" "install_move (e i) l s p (ns_task y i) (ns_fs y) = (st, ns_fs y)"
    and "\<not> finished st" "\<And>d. ns_task y i \<noteq> IFetch d"
  shows "install_step e l s p ih quiet y (y\<lparr>ns_task := (ns_task y)(i := st)\<rparr>)"
proof -
  have "install_step e l s p ih quiet y (y\<lparr>ns_fs := ns_fs y, ns_task := (ns_task y)(i := st),
      ns_lock := release i st (ns_lock y),
      ns_fetched := (if \<exists>d. ns_task y i = IFetch d then insert i (ns_fetched y) else ns_fetched y)\<rparr>)"
    using install_step.moved [where y = y and i = i and e = e, OF assms(1) _ assms(3)] assms(2) by blast
  then show ?thesis using assms(4,5) by (simp add: release_def)
qed

lemma demo_opens:
  assumes "ns_fs y = demo_lock_there" "ns_task y 1 = IBegin" "\<forall>j. \<not> waits (ns_task y j)"
  shows "\<exists>y'. demo_steps 1 y y' \<and> ns_task y' = (ns_task y)(1 := IWait demo_node [''c'', ''node.lock''])"
proof -
  let ?step = "install_step demo_twin language_nodejs demo_settings demo_builder (demo_hosts 1)
      (hands_off [''c''] ''node'' ''n.zip'' demo_stage)"
  define z where "z = y\<lparr>ns_task := (ns_task y)(1 := IOpen demo_node)\<rparr>"
  let ?z = "z\<lparr>ns_task := (ns_task z)(1 := IWait demo_node [''c'', ''node.lock''])\<rparr>"
  have "?step y z"
    unfolding z_def
  proof (rule moved_only)
    show "demo_move 1 (ns_task y 1) (ns_fs y) = (IOpen demo_node, ns_fs y)"
      using demo_calls(2) [of 1] assms(1,2) by (simp only:)
  qed (use demo_thread_alone [OF assms(3)] assms(2) in \<open>simp_all add: moving_def finished_def\<close>)
  moreover have "?step z ?z"
  proof (rule moved_only)
    show "demo_move 1 (ns_task z 1) (ns_fs z) = (IWait demo_node [''c'', ''node.lock''], ns_fs z)"
      using demo_calls(4) [of 1] assms(1) by (simp add: z_def del: install_move.simps)
    have "\<forall>j. \<not> waits (ns_task z j)" using assms(3) by (simp add: z_def)
    then show "has_thread (demo_hosts 1) z 1" by (rule demo_thread_alone)
  qed (simp_all add: z_def moving_def finished_def)
  ultimately have "?step\<^sup>*\<^sup>* y ?z" by (meson converse_rtranclp_into_rtranclp rtranclp.rtrancl_refl)
  then show ?thesis by (intro exI [of _ ?z]) (simp add: z_def)
qed

lemma demo_starved:
  "\<exists>y. demo_steps 1 (install_start demo_cache_root) y
     \<and> ns_task y = (\<lambda>_. IBegin)(0 := IFetch demo_node, 1 := IWait demo_node [''c'', ''node.lock''])"
proof -
  let ?s = "install_start demo_cache_root"
  have "demo_run 4 0 (ns_task ?s 0) (ns_fs ?s) = (IFetch demo_node, demo_lock_there)"
    using demo_holds by (simp add: install_start_def del: run_stages.simps)
  moreover have "has_thread (demo_hosts 1) ?s 0" by (rule demo_thread_alone) (simp add: install_start_def)
  ultimately have "\<exists>y'. demo_steps 1 ?s y' \<and> ns_fs y' = demo_lock_there \<and> ns_task y' = (ns_task ?s)(0 := IFetch demo_node)"
    by (rule run_stages_steps) (simp add: install_start_def)
  then obtain y1 where y1: "demo_steps 1 ?s y1" "ns_fs y1 = demo_lock_there"
      "ns_task y1 = (\<lambda>_. IBegin)(0 := IFetch demo_node)"
    by (auto simp: install_start_def)
  have waits: "\<forall>j. \<not> waits (ns_task y1 j)" by (simp add: y1(3))
  then obtain y where "demo_steps 1 y1 y" "ns_task y = (ns_task y1)(1 := IWait demo_node [''c'', ''node.lock''])"
    using demo_opens [OF y1(2) _ waits] y1(3) by auto
  then show ?thesis using y1 rtranclp_trans [OF y1(1)] by (intro exI [of _ y]) simp
qed

theorem install_can_finish_witness:
  "(\<exists>y y'. demo_steps 2 (install_start demo_cache_root) y \<and> ns_task y 1 = IWait demo_node [''c'', ''node.lock'']
      \<and> demo_steps 2 y y' \<and> finished (ns_task y' 1))
   \<and> (\<exists>y. demo_steps 1 (install_start demo_cache_root) y \<and> ns_task y 0 = IFetch demo_node
      \<and> (\<forall>y'. demo_steps 1 y y' \<longrightarrow> ns_task y' 0 = IFetch demo_node
            \<and> ns_task y' 1 = IWait demo_node [''c'', ''node.lock'']))"
proof -
  obtain y1 where y1: "demo_steps 2 (install_start demo_cache_root) y1"
      "ns_task y1 = (\<lambda>_. IBegin)(1 := IWait demo_node [''c'', ''node.lock''])"
    using demo_waiting by auto
  have some: "\<forall>q. 0 < ih_threads (demo_hosts 2) q" "\<forall>q. 0 < ih_threads (demo_hosts 1) q" by (simp_all add: demo_hosts_def)
  have "\<not> locked_stage (ns_task y1 h)" for h using y1(2) by simp
  then have free: "\<exists>y'. demo_steps 2 y1 y' \<and> finished (ns_task y' 1)"
    using install_can_finish [OF demo_site demo_root_ok some(1) y1(1)] by blast
  obtain y where y: "demo_steps 1 (install_start demo_cache_root) y"
      "ns_task y = (\<lambda>_. IBegin)(0 := IFetch demo_node, 1 := IWait demo_node [''c'', ''node.lock''])"
    using demo_starved by blast
  have "parked (demo_hosts 1) y 0 = {1}" using y(2) by (auto simp: parked_def demo_hosts_def split: if_splits)
  then have all: "locked_stage (ns_task y 0)" "takes_thread demo_builder demo_settings (ns_task y 0)"
      "card (parked (demo_hosts 1) y (ih_process (demo_hosts 1) 0)) = ih_threads (demo_hosts 1) (ih_process (demo_hosts 1) 0)"
    using y(2) by (simp_all add: demo_hosts_def)
  have "waits (ns_task y 1)" using y(2) by simp
  then have "\<forall>y'. demo_steps 1 y y' \<longrightarrow> ns_task y' 0 = ns_task y 0 \<and> ns_task y' 1 = ns_task y 1"
    using install_can_finish [OF demo_site demo_root_ok some(2) y(1)] all by blast
  then have "demo_steps 1 (install_start demo_cache_root) y \<and> ns_task y 0 = IFetch demo_node
      \<and> (\<forall>y'. demo_steps 1 y y' \<longrightarrow> ns_task y' 0 = IFetch demo_node \<and> ns_task y' 1 = IWait demo_node [''c'', ''node.lock''])"
    using y by (simp del: One_nat_def)
  moreover have "ns_task y1 1 = IWait demo_node [''c'', ''node.lock'']" using y1(2) by simp
  ultimately show ?thesis using y1(1) free by blast
qed

end
