(* ===== verification/Process_Directory.thy ===== *)
theory Process_Directory
  imports Main
begin

text \<open>
  The crate \<open>crates/tinyruntime-process\<close>: a child's working directory bound to an open directory
  instead of a path.  A descriptor table maps numbers to open objects.  Cloning a descriptor and
  \<open>fchdir\<close> are calls of the crate \<open>rustix\<close>, which is not part of the repository, so they are fields
  of the record \<open>descriptor_ops\<close>; what the code relies on of them is the locale \<open>descriptors\<close>.  A
  command is the list of its \<open>pre_exec\<close> closures, which the standard library runs in the child
  after it replaced the three standard streams and before the program starts.
\<close>

subsection \<open>Descriptors\<close>

type_synonym object = nat
type_synonym descriptors_table = "nat \<rightharpoonup> object"

text \<open>
  Cloning answers the number of the clone, which is at least the given one; changing the directory
  answers the new working directory.
\<close>

record descriptor_ops =
  os_dup :: "descriptors_table \<Rightarrow> nat \<Rightarrow> nat \<Rightarrow> string + nat"
  os_fchdir :: "descriptors_table \<Rightarrow> nat \<Rightarrow> string + object"

text \<open>A closure gets the child's table and working directory and answers the directory after it.\<close>

type_synonym hook = "descriptors_table \<Rightarrow> object \<Rightarrow> string + object"

definition directory_callback :: "descriptor_ops \<Rightarrow> nat \<Rightarrow> hook" where
  "directory_callback os clone = (\<lambda>t _. os_fchdir os t clone)"

text \<open>
  The closure owns the clone, which stays open as long as the command exists.  The result is the
  command and the parent's table after the call.
\<close>

definition current_dir ::
  "descriptor_ops \<Rightarrow> nat \<Rightarrow> hook list \<Rightarrow> descriptors_table \<Rightarrow> string + hook list \<times> descriptors_table" where
  "current_dir os directory hooks t =
     (case os_dup os t directory 3 of
        Inl e \<Rightarrow> Inl e
      | Inr clone \<Rightarrow> Inr (hooks @ [directory_callback os clone], t(clone := t directory)))"

subsection \<open>Starting the child\<close>

fun run_hooks :: "hook list \<Rightarrow> descriptors_table \<Rightarrow> object \<Rightarrow> string + object" where
  "run_hooks [] t cwd = Inr cwd"
| "run_hooks (f # fs) t cwd =
     (case f t cwd of Inl e \<Rightarrow> Inl e | Inr d \<Rightarrow> run_hooks fs t d)"

text \<open>
  The child starts with a copy of the parent's table in which the standard streams are its own; the
  answer is the working directory the program starts in.
\<close>

definition child_table :: "descriptors_table \<Rightarrow> descriptors_table \<Rightarrow> descriptors_table" where
  "child_table stdio t = (\<lambda>n. if n < 3 then stdio n else t n)"

definition start_child ::
  "hook list \<Rightarrow> descriptors_table \<Rightarrow> descriptors_table \<Rightarrow> object \<Rightarrow> string + object" where
  "start_child hooks stdio t cwd = run_hooks hooks (child_table stdio t) cwd"

lemma run_hooks_append:
  "run_hooks (fs @ gs) t cwd =
     (case run_hooks fs t cwd of Inl e \<Rightarrow> Inl e | Inr d \<Rightarrow> run_hooks gs t d)"
  by (induction fs arbitrary: cwd) (auto split: sum.splits)

subsection \<open>What the operating system promises\<close>

text \<open>
  A clone has a free number not below the given one, and only an open descriptor can be cloned;
  \<open>fchdir\<close> looks at nothing but the object the descriptor stands for, and that object becomes the
  working directory.
\<close>

locale descriptors =
  fixes os :: descriptor_ops
  assumes dup_number: "os_dup os t fd least = Inr n \<Longrightarrow> least \<le> n \<and> t n = None \<and> t fd \<noteq> None"
    and fchdir_object: "t fd = t' fd' \<Longrightarrow> os_fchdir os t fd = os_fchdir os t' fd'"
    and fchdir_moves: "os_fchdir os t fd = Inr d \<Longrightarrow> t fd = Some d"
begin

lemma bound:
  assumes "current_dir os fd hooks t = Inr (hooks', t')"
  obtains n where "hooks' = hooks @ [directory_callback os n]" "t' = t(n := t fd)" "3 \<le> n" "t n = None"
  using assms dup_number by (auto simp: current_dir_def split: sum.splits)

text \<open>
  However the parent's table changed since, as long as the clone is still open, the directory that
  was open when it was bound decides.
\<close>

lemma pinned:
  assumes cd: "current_dir os fd hooks t = Inr (hooks', t')"
    and own: "\<forall>n. t n = None \<and> t' n \<noteq> None \<longrightarrow> t2 n = t' n"
    and before: "run_hooks hooks (child_table stdio t2) cwd = Inr cwd'"
  shows "start_child hooks' stdio t2 cwd = os_fchdir os t fd"
    and "start_child hooks' stdio t2 cwd = Inr d \<Longrightarrow> t fd = Some d"
proof -
  from bound [OF cd] obtain n where n: "hooks' = hooks @ [directory_callback os n]" "t' = t(n := t fd)"
      "3 \<le> n" "t n = None" .
  have open_fd: "t fd \<noteq> None" using cd dup_number by (auto simp: current_dir_def split: sum.splits)
  have "t2 n = t fd" using own n open_fd by auto
  then have "child_table stdio t2 n = t fd" using n(3) by (simp add: child_table_def)
  then have "os_fchdir os (child_table stdio t2) n = os_fchdir os t fd" by (rule fchdir_object)
  then show eq: "start_child hooks' stdio t2 cwd = os_fchdir os t fd"
    using before by (simp add: start_child_def n(1) run_hooks_append directory_callback_def split: sum.splits)
  show "start_child hooks' stdio t2 cwd = Inr d \<Longrightarrow> t fd = Some d"
    using eq fchdir_moves by simp
qed

end

subsection \<open>A reference model\<close>

text \<open>
  A table with a limit on the numbers, in which the lowest free one is taken, and a set of objects
  that are directories.
\<close>

definition table_descriptors :: "nat \<Rightarrow> (object \<Rightarrow> bool) \<Rightarrow> descriptor_ops" where
  "table_descriptors limit directory =
     \<lparr>os_dup = \<lambda>t fd least.
        (case t fd of
           None \<Rightarrow> Inl ''Bad file descriptor''
         | Some _ \<Rightarrow>
             (case List.find (\<lambda>n. t n = None) [least..<limit] of
                None \<Rightarrow> Inl ''Too many open files''
              | Some n \<Rightarrow> Inr n)),
      os_fchdir = \<lambda>t fd.
        (case t fd of
           None \<Rightarrow> Inl ''Bad file descriptor''
         | Some d \<Rightarrow> if directory d then Inr d else Inl ''Not a directory'')\<rparr>"

lemma table_dup:
  "os_dup (table_descriptors limit directory) t fd least = Inr n \<Longrightarrow> least \<le> n \<and> t n = None \<and> t fd \<noteq> None"
  by (auto simp: table_descriptors_def find_Some_iff split: option.splits)

lemma table_fchdir:
  "os_fchdir (table_descriptors limit directory) t fd =
     (case t fd of
        None \<Rightarrow> Inl ''Bad file descriptor''
      | Some d \<Rightarrow> if directory d then Inr d else Inl ''Not a directory'')"
  by (simp add: table_descriptors_def)

interpretation table_fds: descriptors "table_descriptors limit directory" for limit directory
proof unfold_locales
  show "os_fchdir (table_descriptors limit directory) t fd = Inr d \<Longrightarrow> t fd = Some d" for t fd d
    by (cases "t fd") (simp_all add: table_fchdir split: if_splits)
qed (simp add: table_dup, simp add: table_fchdir)

subsection \<open>The working directory is the one that was opened\<close>

text \<open>
  C28.  A child whose command was bound to an open directory starts in exactly that directory, or
  not at all.  Neither what the parent did to its other descriptors since, closing the original
  included, nor the child's own standard streams, nor any path, has a part in it.
\<close>

theorem child_directory_pinned:
  assumes "descriptors os" "current_dir os fd [] t = Inr (hooks, t')"
    and "\<forall>n. t n = None \<and> t' n \<noteq> None \<longrightarrow> t2 n = t' n"
  shows "start_child hooks stdio t2 cwd = os_fchdir os t fd
    \<and> (\<forall>d. start_child hooks stdio t2 cwd = Inr d \<longrightarrow> t fd = Some d)"
  using descriptors.pinned [OF assms(1,2,3), of stdio cwd cwd] by simp

text \<open>
  The parent opens directory 70 as descriptor 5, binds it, closes descriptor 5 and opens another
  directory under the same number; the child's standard streams are pipes.
\<close>

definition demo_descriptors :: descriptor_ops where
  "demo_descriptors = table_descriptors 16 (\<lambda>d. 50 \<le> d)"

definition demo_fds :: descriptors_table where
  "demo_fds = [0 \<mapsto> 1, 1 \<mapsto> 2, 2 \<mapsto> 3, 3 \<mapsto> 9, 5 \<mapsto> 70]"

theorem child_directory_pinned_witness:
  "\<exists>hooks t'. current_dir demo_descriptors 5 [] demo_fds = Inr (hooks, t')
     \<and> start_child hooks [0 \<mapsto> 31, 1 \<mapsto> 32, 2 \<mapsto> 33] (t'(5 \<mapsto> 80)) 60 = Inr 70"
proof -
  let ?hook = "directory_callback demo_descriptors 4" and ?t = "demo_fds(4 := demo_fds 5)"
  have law: "descriptors demo_descriptors"
    unfolding demo_descriptors_def by (rule table_fds.descriptors_axioms)
  have dup: "os_dup demo_descriptors demo_fds 5 3 = Inr 4"
    by (simp add: demo_descriptors_def table_descriptors_def demo_fds_def upt_rec)
  then have cd: "current_dir demo_descriptors 5 [] demo_fds = Inr ([?hook], ?t)"
    by (simp add: current_dir_def)
  have own: "\<forall>n. demo_fds n = None \<and> ?t n \<noteq> None \<longrightarrow> (?t(5 \<mapsto> 80)) n = ?t n"
    by (simp add: demo_fds_def)
  have "start_child [?hook] [0 \<mapsto> 31, 1 \<mapsto> 32, 2 \<mapsto> 33] (?t(5 \<mapsto> 80)) 60 = os_fchdir demo_descriptors demo_fds 5"
    by (rule child_directory_pinned [OF law cd own, THEN conjunct1])
  moreover have "os_fchdir demo_descriptors demo_fds 5 = Inr 70"
    by (simp add: demo_descriptors_def table_fchdir demo_fds_def)
  ultimately show ?thesis using cd by (metis (no_types))
qed

end
