(* ===== verification/Worker_Native.thy ===== *)
theory Worker_Native
  imports Worker_Contract Pool_Worker Filesystem Process_Directory
begin

text \<open>
  Bounded input and output of persistent workers and the checks before it:
  \<open>crates/tinyruntime/src/worker/validate.rs\<close> and \<open>native.rs\<close>.  A pipe is the list of what
  \<open>fill_buf\<close> yields, chunk by chunk; its end is end of file.  The JSON codec is an argument.  The
  lemmas show that the frame reader does not depend on how the bytes were cut into chunks, that no
  operation reads more than its byte budget, and that a native process counts as cleaned up only
  when its wait succeeded.
\<close>

subsection \<open>Limits\<close>

definition MAX_LINE :: nat where "MAX_LINE = 262144"
definition MAX_OPERATION_BYTES :: nat where "MAX_OPERATION_BYTES = 1048576"
definition MAX_SCRIPT :: nat where "MAX_SCRIPT = 1048576"

subsection \<open>Validation\<close>

definition NUL :: char where "NUL = CHR 0x00"

definition command_bytes :: "worker_command \<Rightarrow> nat" where
  "command_bytes c =
     sum_list (map length (wc_args c)) + sum_list (map (\<lambda>(k, v). length k + length v) (wc_env c))"

definition validate_command :: "worker_command \<Rightarrow> string + unit" where
  "validate_command c =
     (if \<not> is_absolute (wc_executable c) \<or> 4096 < length (wc_executable c)
         \<or> contains_char NUL (wc_executable c) \<or> 64 < length (wc_args c) \<or> 64 < length (wc_env c)
      then Inl ''command_limit''
      else if (case wc_timeout_ms c of None \<Rightarrow> False | Some t \<Rightarrow> t = 0 \<or> 1800000 < t)
      then Inl ''command_limit''
      else if 65536 < command_bytes c \<or> list_ex (contains_char NUL) (wc_args c)
         \<or> list_ex (\<lambda>(k, v). k = [] \<or> contains_char NUL k \<or> contains_char (CHR ''='') k \<or> contains_char NUL v)
             (wc_env c)
      then Inl ''command_limit''
      else Inr ())"

fun validate_commands :: "worker_command list \<Rightarrow> string + unit" where
  "validate_commands [] = Inr ()"
| "validate_commands (c # cs) =
     (case validate_command c of Inl e \<Rightarrow> Inl e | Inr _ \<Rightarrow> validate_commands cs)"

definition validate_plan :: "worker_plan \<Rightarrow> string + unit" where
  "validate_plan p =
     (if MAX_SCRIPT < length (wp_source p) \<or> 16 < length (wp_preparation p) \<or> 32 < length (wp_backends p)
         \<or> list_ex (\<lambda>s. 128 < length s) (wp_backends p)
         \<or> wp_startup_timeout_ms p = 0 \<or> 1800000 < wp_startup_timeout_ms p
         \<or> wp_request_timeout_ms p = 0 \<or> 60000 < wp_request_timeout_ms p
         \<or> 86400000 < wp_idle_timeout_ms p
         \<or> (case wp_idle_backend p of None \<Rightarrow> False | Some s \<Rightarrow> 128 < length s)
         \<or> wc_timeout_ms (wp_command p) \<noteq> None
      then Inl ''plan_limit''
      else case validate_command (wp_command p) of
             Inl e \<Rightarrow> Inl e
           | Inr _ \<Rightarrow> validate_commands (wp_preparation p))"

text \<open>
  The counting writer: it is fed the serialised pieces and fails at the piece that reaches the
  limit.
\<close>

fun count_pieces :: "nat \<Rightarrow> string list \<Rightarrow> nat option" where
  "count_pieces n [] = Some n"
| "count_pieces n (b # bs) =
     (if MAX_LINE \<le> n + length b then None else count_pieces (n + length b) bs)"

definition wire_of :: "worker_request \<Rightarrow> server_request" where
  "wire_of r = \<lparr>sq_id = u64_to_string (wr_operation r), sq_method = wr_method r, sq_params = wr_params r\<rparr>"

definition validate_request ::
  "(server_request \<Rightarrow> string list) \<Rightarrow> worker_request \<Rightarrow> string + unit" where
  "validate_request serialise r =
     (if wr_operation r = 0 \<or> 64 < length (handle_id (wr_handle r)) \<or> 256 < length (wr_method r)
      then Inl ''request_limit''
      else case count_pieces 1 (serialise (wire_of r)) of
             None \<Rightarrow> Inl ''request_limit''
           | Some _ \<Rightarrow> Inr ())"

subsection \<open>Frames\<close>

datatype chunk = Data string | ReadFailure

fun newline_at :: "string \<Rightarrow> nat option" where
  "newline_at [] = None"
| "newline_at (c # cs) = (if c = CHR 0x0A then Some 0 else map_option Suc (newline_at cs))"

fun frame_line :: "chunk list \<Rightarrow> string \<Rightarrow> (string + string) \<times> chunk list" where
  "frame_line [] got = (Inl ''worker_closed'', [])"
| "frame_line (ReadFailure # cs) got = (Inl ''read_failed'', cs)"
| "frame_line (Data c # cs) got =
     (if c = [] then (Inl ''worker_closed'', cs)
      else let count = (case newline_at c of Some n \<Rightarrow> n + 1 | None \<Rightarrow> length c)
      in if MAX_LINE - length got < count then (Inl ''frame_limit'', Data c # cs)
      else let got1 = got @ take count c;
               rest = (if drop count c = [] then cs else Data (drop count c) # cs)
      in if newline_at c \<noteq> None then (Inr got1, rest)
      else if length got1 = MAX_LINE then (Inl ''frame_limit'', rest)
      else frame_line cs got1)"

text \<open>All the bytes a pipe has to give, and the reference reader on them.\<close>

fun pipe_bytes :: "chunk list \<Rightarrow> string" where
  "pipe_bytes [] = []"
| "pipe_bytes (ReadFailure # cs) = []"
| "pipe_bytes (Data c # cs) = c @ pipe_bytes cs"

definition healthy :: "chunk list \<Rightarrow> bool" where
  "healthy cs \<longleftrightarrow> (\<forall>c \<in> set cs. \<exists>s. c = Data s \<and> s \<noteq> [])"

definition frame_ref :: "string \<Rightarrow> string + string" where
  "frame_ref s =
     (case newline_at s of
        Some n \<Rightarrow> if n < MAX_LINE then Inr (take (n + 1) s) else Inl ''frame_limit''
      | None \<Rightarrow> if MAX_LINE \<le> length s then Inl ''frame_limit'' else Inl ''worker_closed'')"

subsection \<open>The process\<close>

definition process_handshake ::
  "(string \<Rightarrow> ready_line option) \<Rightarrow> chunk list \<Rightarrow> (string + ready_line) \<times> chunk list" where
  "process_handshake decode out =
     (case frame_line out [] of
        (Inl e, rest) \<Rightarrow> (Inl e, rest)
      | (Inr bytes, rest) \<Rightarrow>
          (case decode bytes of
             None \<Rightarrow> (Inl ''invalid_ready'', rest)
           | Some ready \<Rightarrow>
               if \<not> ry_ready ready then (Inl ''worker_not_ready'', rest)
               else if ry_protocol ready \<noteq> Some PROTOCOL_VERSION then (Inl ''protocol_mismatch'', rest)
               else (Inr ready, rest)))"

lemma frame_line_shorter:
  "frame_line cs got = (Inr b, rest) \<Longrightarrow> length (pipe_bytes rest) < length (pipe_bytes cs)"
proof (induction cs got rule: frame_line.induct)
  case (3 c cs got)
  then show ?case
    by (cases "newline_at c") (auto simp: Let_def intro: trans_less_add2 split: if_splits)
qed auto

text \<open>The read loop of one request, with the bytes the operation may still read.\<close>

function await_reply ::
  "(string \<Rightarrow> server_response option) \<Rightarrow> string \<Rightarrow> nat \<Rightarrow> chunk list \<Rightarrow> (string + server_response) \<times> chunk list" where
  "await_reply decode i remaining out =
     (case frame_line out [] of
        (Inl e, rest) \<Rightarrow> (Inl e, rest)
      | (Inr bytes, rest) \<Rightarrow>
          if remaining < length bytes then (Inl ''output_limit'', rest)
          else (case decode bytes of
                  Some r \<Rightarrow>
                    if sr_id r = Some i then (Inr r, rest)
                    else await_reply decode i (remaining - length bytes) rest
                | None \<Rightarrow> await_reply decode i (remaining - length bytes) rest))"
  by pat_completeness auto
termination
  by (relation "measure (\<lambda>(_, _, _, out). length (pipe_bytes out))")
    (auto dest: frame_line_shorter [OF sym])

declare await_reply.simps [simp del]

record process_env =
  pn_encode :: "server_request \<Rightarrow> string option"
  pn_decode :: "string \<Rightarrow> server_response option"
  pn_write :: bool
  pn_flush :: bool

text \<open>The last component says whether the whole request line was written.\<close>

definition process_request ::
  "process_env \<Rightarrow> server_request \<Rightarrow> chunk list \<Rightarrow> (string + server_response) \<times> chunk list \<times> bool" where
  "process_request env r out =
     (case pn_encode env r of
        None \<Rightarrow> (Inl ''encode_failed'', out, False)
      | Some bytes \<Rightarrow>
          if MAX_LINE \<le> length bytes then (Inl ''request_limit'', out, False)
          else if \<not> pn_write env then (Inl ''write_failed'', out, False)
          else if \<not> pn_flush env then (Inl ''write_failed'', out, True)
          else (case await_reply (pn_decode env) (sq_id r) MAX_OPERATION_BYTES out of
                  (x, rest) \<Rightarrow> (x, rest, True)))"

subsection \<open>Commands\<close>

definition command_deadline :: "instant \<Rightarrow> worker_command \<Rightarrow> instant \<Rightarrow> instant" where
  "command_deadline now c enclosing =
     (case wc_timeout_ms c of
        None \<Rightarrow> enclosing
      | Some t \<Rightarrow> min enclosing (now + dur_from_millis t))"

text \<open>
  The program's directory as it goes in front of \<open>PATH\<close>: the path without its last piece and
  the slashes around it.
\<close>

definition parent_dir :: "string \<Rightarrow> string" where
  "parent_dir p =
     (case dropWhile (\<lambda>s. s = []) (rev (split_on (CHR ''/'') p)) of
        _ # pieces \<Rightarrow>
          (let d = join_with ''/'' (rev (dropWhile (\<lambda>s. s = []) pieces))
           in if is_absolute p \<and> d = [] then ''/'' else d)
      | [] \<Rightarrow> ''.'')"

definition native_command ::
  "(string \<rightharpoonup> string) \<Rightarrow> spawner option \<Rightarrow> worker_command \<Rightarrow> string option \<Rightarrow> spawn_refused + spawn_spec" where
  "native_command host sp c trailing =
     confine sp
       \<lparr>sp_program = wc_executable c,
        sp_args = wc_args c @ (case trailing of None \<Rightarrow> [] | Some t \<Rightarrow> [t]),
        sp_env = env_build host (parent_dir (wc_executable c)) (wc_env c), sp_clear_env = True\<rparr>"

subsection \<open>Reaping\<close>

datatype reaper = ReaperWaiting | ReaperLost

text \<open>A native process: whether its group is still owned here, and the task that waits for it.\<close>

record native =
  nt_child :: bool
  nt_reaping :: "reaper option"

text \<open>
  How waiting for that task ends: its wait succeeded, it failed, the task was lost, or the caller's
  own future was dropped while it waited, which leaves the task running.
\<close>

datatype wait_end = WaitOk | WaitErr | TaskLost | WaitCut

definition reap_native :: "wait_end \<Rightarrow> native \<Rightarrow> (string + unit) \<times> native" where
  "reap_native w n =
     (let n1 = (if nt_reaping n = None \<and> nt_child n
                then \<lparr>nt_child = False, nt_reaping = Some ReaperWaiting\<rparr> else n)
      in case nt_reaping n1 of
           Some ReaperWaiting \<Rightarrow>
             (case w of
                WaitOk \<Rightarrow> (Inr (), n1\<lparr>nt_reaping := None\<rparr>)
              | WaitErr \<Rightarrow> (Inl ''reap_failed'', n1\<lparr>nt_reaping := None, nt_child := True\<rparr>)
              | TaskLost \<Rightarrow> (Inl ''reap_task_failed'', n1\<lparr>nt_reaping := Some ReaperLost\<rparr>)
              | WaitCut \<Rightarrow> (Inl ''interrupted'', n1))
         | Some ReaperLost \<Rightarrow> (Inl ''reap_task_failed'', n1)
         | None \<Rightarrow> (Inr (), n1))"

text \<open>A worker process: its group, the task that drains its standard error, and what it will still write.\<close>

record process =
  ps_native :: native
  ps_stderr :: bool
  ps_stdout :: "chunk list"

definition process_is_alive :: "wait_answer \<Rightarrow> process \<Rightarrow> bool" where
  "process_is_alive answer p \<longleftrightarrow>
     nt_reaping (ps_native p) = None \<and> nt_child (ps_native p) \<and> answer = StillRunning"

definition process_cleanup :: "wait_end \<Rightarrow> process \<Rightarrow> (string + unit) \<times> process" where
  "process_cleanup w p =
     (case reap_native w (ps_native p) of
        (Inl e, n) \<Rightarrow> (Inl e, p\<lparr>ps_native := n\<rparr>)
      | (Inr _, n) \<Rightarrow> (Inr (), p\<lparr>ps_native := n, ps_stderr := False\<rparr>))"

text \<open>
  Starting a group.  The host's side is its descriptor table and its answers to changing into a path
  and to the spawn itself, given the confined command and the directory it starts in.  Standard input
  and both outputs are piped, so the child has them.
\<close>

record spawn_answers =
  sw_host :: "string \<rightharpoonup> string"
  sw_os :: descriptor_ops
  sw_table :: descriptors_table
  sw_stdio :: descriptors_table
  sw_chdir :: "string \<Rightarrow> string + object"
  sw_spawned :: "command \<Rightarrow> object \<Rightarrow> bool"
  sw_stdout :: "chunk list"

text \<open>The directory the child starts in: the open one, when there is one, and the path otherwise.\<close>

definition child_directory :: "spawn_answers \<Rightarrow> string \<Rightarrow> nat option \<Rightarrow> string + object" where
  "child_directory w root directory =
     (case directory of
        None \<Rightarrow> sw_chdir w root
      | Some fd \<Rightarrow>
          (case current_dir (sw_os w) fd [] (sw_table w) of
             Inl e \<Rightarrow> Inl e
           | Inr (hooks, t) \<Rightarrow> start_child hooks (sw_stdio w) t 0))"

definition spawn_group ::
  "spawner option \<Rightarrow> spawn_answers \<Rightarrow> worker_command \<Rightarrow> string \<Rightarrow> nat option \<Rightarrow> string option
     \<Rightarrow> (command \<times> object) option" where
  "spawn_group sp w c root directory trailing =
     (case native_command (sw_host w) sp c trailing of
        Inl _ \<Rightarrow> None
      | Inr spec \<Rightarrow>
          (let cmd = to_command (sw_host w) spec
           in case child_directory w root directory of
                Inl _ \<Rightarrow> None
              | Inr d \<Rightarrow> if sw_spawned w cmd d then Some (cmd, d) else None))"

definition process_spawn ::
  "spawner option \<Rightarrow> spawn_answers \<Rightarrow> worker_command \<Rightarrow> string \<Rightarrow> string \<Rightarrow> nat option \<Rightarrow> string + process" where
  "process_spawn sp w c root script directory =
     (case spawn_group sp w c root directory (Some script) of
        None \<Rightarrow> Inl ''spawn_failed''
      | Some _ \<Rightarrow>
          Inr \<lparr>ps_native = \<lparr>nt_child = True, nt_reaping = None\<rparr>, ps_stderr = True, ps_stdout = sw_stdout w\<rparr>)"

subsection \<open>Preparation steps\<close>

record preparation =
  pp_native :: native
  pp_stdout :: bool
  pp_stderr :: bool

definition preparation_spawn ::
  "spawner option \<Rightarrow> spawn_answers \<Rightarrow> worker_command \<Rightarrow> string \<Rightarrow> nat option \<Rightarrow> string + preparation" where
  "preparation_spawn sp w c root directory =
     (case spawn_group sp w c root directory None of
        None \<Rightarrow> Inl ''prepare_spawn_failed''
      | Some _ \<Rightarrow>
          Inr \<lparr>pp_native = \<lparr>nt_child = True, nt_reaping = None\<rparr>, pp_stdout = True, pp_stderr = True\<rparr>)"

definition preparation_cleanup :: "wait_end \<Rightarrow> preparation \<Rightarrow> (string + unit) \<times> preparation" where
  "preparation_cleanup w p =
     (case reap_native w (pp_native p) of
        (Inl _, n) \<Rightarrow> (Inl ''prepare_reap_failed'', p\<lparr>pp_native := n\<rparr>)
      | (Inr _, n) \<Rightarrow> (Inr (), \<lparr>pp_native = n, pp_stdout = False, pp_stderr = False\<rparr>))"

text \<open>
  Both pipes are read at once and add to one total.  The reads come in the order they complete, each
  with the pipe it is from (\<open>True\<close> for standard output); a read of nothing ends its pipe, and both
  ended ends the whole.  \<open>None\<close>: not finished with these reads.
\<close>

datatype pipe_read = Got nat | PipeError

fun drain_bounded :: "nat \<Rightarrow> bool \<Rightarrow> bool \<Rightarrow> (bool \<times> pipe_read) list \<Rightarrow> (string + unit) option" where
  "drain_bounded sofar out err [] = (if out \<or> err then None else Some (Inr ()))"
| "drain_bounded sofar out err ((pipe, r) # rs) =
     (if \<not> out \<and> \<not> err then Some (Inr ())
      else if \<not> (if pipe then out else err) then drain_bounded sofar out err rs
      else case r of
             PipeError \<Rightarrow> Some (Inl ''prepare_read_failed'')
           | Got n \<Rightarrow>
               if n = 0
               then drain_bounded sofar (out \<and> \<not> pipe) (err \<and> pipe) rs
               else if MAX_OPERATION_BYTES < sofar + n then Some (Inl ''prepare_output_limit'')
               else drain_bounded (sofar + n) out err rs)"

text \<open>The reads and the exit come with the instant they happen; after the deadline they do not count.\<close>

datatype drain_end = DrainCanceled | DrainReads "(instant \<times> bool \<times> pipe_read) list"
datatype step_exit = ExitCanceled | ExitUnknown instant | ExitStatus instant bool | NoExit

record execute_env =
  xe_drain :: drain_end
  xe_exit :: step_exit
  xe_reap :: wait_end

definition drain_result :: "instant \<Rightarrow> drain_end \<Rightarrow> string + unit" where
  "drain_result deadline d =
     (case d of
        DrainCanceled \<Rightarrow> Inl ''canceled''
      | DrainReads reads \<Rightarrow>
          (case drain_bounded 0 True True (map snd (takeWhile (\<lambda>(t, _). t \<le> deadline) reads)) of
             None \<Rightarrow> Inl ''prepare_timeout''
           | Some r \<Rightarrow> r))"

definition exit_result :: "instant \<Rightarrow> step_exit \<Rightarrow> string + bool" where
  "exit_result deadline e =
     (case e of
        ExitCanceled \<Rightarrow> Inl ''canceled''
      | ExitUnknown t \<Rightarrow> if t \<le> deadline then Inl ''prepare_reap_failed'' else Inl ''prepare_timeout''
      | ExitStatus t ok \<Rightarrow> if t \<le> deadline then Inr ok else Inl ''prepare_timeout''
      | NoExit \<Rightarrow> Inl ''prepare_timeout'')"

definition preparation_execute ::
  "instant \<Rightarrow> execute_env \<Rightarrow> preparation \<Rightarrow> (string + unit) \<times> preparation" where
  "preparation_execute deadline env p =
     (if \<not> pp_stdout p then (Inl ''stdout_missing'', p)
      else let p1 = p\<lparr>pp_stdout := False\<rparr>
      in if \<not> pp_stderr p1 then (Inl ''stderr_missing'', p1)
      else let p2 = p1\<lparr>pp_stderr := False\<rparr>
      in if \<not> nt_child (pp_native p2) then (Inl ''prepare_closed'', p2)
      else let read = drain_result deadline (xe_drain env); exit = exit_result deadline (xe_exit env)
      in case (case exit of Inl _ \<Rightarrow> preparation_cleanup (xe_reap env) p2 | Inr _ \<Rightarrow> (Inr (), p2)) of
           (Inl e, p3) \<Rightarrow> (Inl e, p3)
         | (Inr _, p3) \<Rightarrow>
             (qmark read (\<lambda>_. qmark exit (\<lambda>ok. if ok then Inr () else Inl ''prepare_failed'')), p3))"

lemma preparation_execute_ok:
  "preparation_execute deadline env p = (Inr x, p') \<Longrightarrow>
   drain_result deadline (xe_drain env) = Inr () \<and> exit_result deadline (xe_exit env) = Inr True"
  by (auto simp: preparation_execute_def Let_def rust_simps split: if_splits prod.splits sum.splits)

text \<open>A group that a task waits for is not owned here as well; what is not gone is owned one way or the other.\<close>

definition native_wf :: "native \<Rightarrow> bool" where
  "native_wf n \<longleftrightarrow> (nt_reaping n \<noteq> None \<longrightarrow> \<not> nt_child n)"

definition native_gone :: "native \<Rightarrow> bool" where
  "native_gone n \<longleftrightarrow> \<not> nt_child n \<and> nt_reaping n = None"

lemma reap_native_ok:
  "reap_native w n = (Inr x, n') \<Longrightarrow> native_wf n \<Longrightarrow> native_gone n' \<and> (native_gone n \<or> w = WaitOk)"
  by (auto simp: reap_native_def native_wf_def native_gone_def Let_def
      split: if_splits option.splits reaper.splits wait_end.splits)

lemma reap_native_wf: "reap_native w n = (r, n') \<Longrightarrow> native_wf n \<Longrightarrow> native_wf n'"
  by (auto simp: reap_native_def native_wf_def Let_def
      split: if_splits option.splits reaper.splits wait_end.splits)

lemma reap_native_err:
  "reap_native w n = (Inl e, n') \<Longrightarrow> native_wf n \<Longrightarrow> \<not> native_gone n \<and> \<not> native_gone n'"
  by (auto simp: reap_native_def native_wf_def native_gone_def Let_def
      split: if_splits option.splits reaper.splits wait_end.splits)

lemma process_cleanup_wf:
  "process_cleanup w p = (r, p') \<Longrightarrow> native_wf (ps_native p) \<Longrightarrow> native_wf (ps_native p')"
  by (auto simp: process_cleanup_def dest: reap_native_wf split: prod.splits sum.splits)

lemma preparation_cleanup_wf:
  "preparation_cleanup w p = (r, p') \<Longrightarrow> native_wf (pp_native p) \<Longrightarrow> native_wf (pp_native p')"
  by (auto simp: preparation_cleanup_def dest: reap_native_wf split: prod.splits sum.splits)

subsection \<open>Dropping and cancelling\<close>

text \<open>
  What dropping a process that is still owned does: its group is told to die, the drain of its
  standard error is aborted, and, where a runtime is left to do it, a task of its own waits for the
  group, for a reaping under way and for the drain.
\<close>

datatype drop_effect = KillGroup | AbortDrain | WaitGroup | WaitReaper | WaitDrain

definition cleanup_on_drop :: "bool \<Rightarrow> native \<Rightarrow> bool \<Rightarrow> drop_effect list" where
  "cleanup_on_drop runtime n stderr =
     (if nt_child n then [KillGroup] else [])
     @ (if stderr then [AbortDrain] else [])
     @ (if runtime
        then (if nt_child n then [WaitGroup] else [])
          @ (if nt_reaping n = Some ReaperWaiting then [WaitReaper] else [])
          @ (if stderr then [WaitDrain] else [])
        else [])"

definition process_drop :: "bool \<Rightarrow> process \<Rightarrow> drop_effect list" where
  "process_drop runtime p = cleanup_on_drop runtime (ps_native p) (ps_stderr p)"

definition preparation_drop :: "bool \<Rightarrow> preparation \<Rightarrow> drop_effect list" where
  "preparation_drop runtime p = cleanup_on_drop runtime (pp_native p) False"

text \<open>A group that is not gone is killed by the drop, unless a reaping already did that.\<close>

lemma drop_kills:
  assumes "native_wf n" "\<not> native_gone n"
  shows "KillGroup \<in> set (cleanup_on_drop runtime n stderr) \<longleftrightarrow> nt_reaping n = None"
  using assms by (auto simp: cleanup_on_drop_def native_wf_def native_gone_def)

lemma drop_waits:
  assumes "native_wf n" "\<not> native_gone n" "nt_reaping n \<noteq> Some ReaperLost"
  shows "(WaitGroup \<in> set (cleanup_on_drop True n stderr)) \<noteq> (WaitReaper \<in> set (cleanup_on_drop True n stderr))"
  using assms by (cases "nt_reaping n") (auto simp: cleanup_on_drop_def native_wf_def native_gone_def split: reaper.splits intro: reaper.exhaust)

text \<open>
  Waiting for cancellation: the values the stop channel shows, one for each look at it; its end means
  that every sender is gone.  The result is how many changes were waited for.
\<close>

fun canceled :: "bool list \<Rightarrow> nat" where
  "canceled [] = 0"
| "canceled (v # vs) = (if v then 0 else canceled vs + 1)"

lemma canceled_first: "canceled vs = length (takeWhile Not vs)"
  by (induction vs) auto

subsection \<open>The frame reader does not see chunk borders\<close>

lemma newline_at_append:
  "newline_at (a @ b) =
     (case newline_at a of Some n \<Rightarrow> Some n | None \<Rightarrow> map_option (\<lambda>n. length a + n) (newline_at b))"
  by (cases "newline_at b"; induction a) (auto split: option.splits)

lemma newline_at_less: "newline_at s = Some n \<Longrightarrow> n < length s"
  by (induction s arbitrary: n) (auto split: if_splits)

lemma newline_at_take:
  "newline_at s = Some n \<Longrightarrow> last (take (n + 1) s) = CHR 0x0A \<and> newline_at (take n s) = None"
  by (induction s arbitrary: n) (auto split: if_splits)

lemma frame_line_ref:
  "healthy cs \<Longrightarrow> newline_at got = None \<Longrightarrow> length got < MAX_LINE \<Longrightarrow>
   fst (frame_line cs got) = frame_ref (got @ pipe_bytes cs)"
proof (induction cs got rule: frame_line.induct)
  case (3 c cs got)
  then have c: "c \<noteq> []" and cs: "healthy cs" by (auto simp: healthy_def)
  show ?case
  proof (cases "newline_at c")
    case (Some n)
    have n: "n < length c" using Some by (rule newline_at_less)
    have at: "newline_at (got @ c @ pipe_bytes cs) = Some (length got + n)"
      using Some "3.prems"(2) by (simp add: newline_at_append)
    have "take (length got + n + 1) (got @ c @ pipe_bytes cs) = got @ take (n + 1) c"
      using n by simp
    then show ?thesis
      using Some c at "3.prems"(3) by (auto simp: Let_def frame_ref_def)
  next
    case None
    have none: "newline_at (got @ c) = None" using None "3.prems"(2) by (simp add: newline_at_append)
    show ?thesis
    proof (cases "length got + length c < MAX_LINE")
      case True
      then have "fst (frame_line cs (got @ c)) = frame_ref ((got @ c) @ pipe_bytes cs)"
        using "3.IH" None c cs none "3.prems"(3) by (simp add: Let_def)
      then show ?thesis using True None c by (auto simp: Let_def)
    next
      case False
      have "frame_ref (got @ c @ pipe_bytes cs) = Inl ''frame_limit''"
        using False none
        by (auto simp: frame_ref_def newline_at_append split: option.splits)
      then show ?thesis using False None c "3.prems"(3) by (auto simp: Let_def)
    qed
  qed
qed (auto simp: frame_ref_def healthy_def)

lemma frame_line_bounded:
  "frame_line cs got = (Inr b, rest) \<Longrightarrow> length got \<le> MAX_LINE \<Longrightarrow> length b \<le> MAX_LINE"
  by (induction cs got rule: frame_line.induct)
    (auto simp: Let_def split: if_splits option.splits)

lemma frame_line_splits:
  "frame_line cs got = (Inr b, rest) \<Longrightarrow> got @ pipe_bytes cs = b @ pipe_bytes rest"
  by (induction cs got rule: frame_line.induct)
    (auto simp: Let_def split: if_splits option.splits)

subsection \<open>Budgets\<close>

lemma await_reply_sound:
  "await_reply decode i remaining out = (Inr r, rest) \<Longrightarrow>
   sr_id r = Some i
   \<and> (\<exists>used. pipe_bytes out = used @ pipe_bytes rest \<and> length used \<le> remaining)"
proof (induction decode i remaining out rule: await_reply.induct)
  case (1 decode i remaining out)
  obtain x rest1 where f: "frame_line out [] = (x, rest1)" by (metis surj_pair)
  show ?case
  proof (cases x)
    case (Inl e)
    then show ?thesis using "1.prems" f by (simp add: await_reply.simps [of decode i remaining out])
  next
    case (Inr bytes)
    have sp: "pipe_bytes out = bytes @ pipe_bytes rest1"
      using frame_line_splits [OF f [unfolded Inr]] by simp
    have fits: "length bytes \<le> remaining"
      using "1.prems" f Inr by (auto simp: await_reply.simps [of decode i remaining out] split: if_splits)
    show ?thesis
    proof (cases "\<exists>q. decode bytes = Some q \<and> sr_id q = Some i")
      case True
      then show ?thesis
        using "1.prems" f Inr sp fits
        by (auto simp: await_reply.simps [of decode i remaining out] split: if_splits)
    next
      case False
      then have rec: "await_reply decode i (remaining - length bytes) rest1 = (Inr r, rest)"
        using "1.prems" f Inr fits
        by (auto simp: await_reply.simps [of decode i remaining out] split: if_splits option.splits)
      have "sr_id r = Some i \<and> (\<exists>used. pipe_bytes rest1 = used @ pipe_bytes rest \<and> length used \<le> remaining - length bytes)"
        using "1.IH" f Inr fits False rec by (cases "decode bytes") fastforce+
      then obtain used where "sr_id r = Some i" "pipe_bytes rest1 = used @ pipe_bytes rest"
          "length used \<le> remaining - length bytes" by blast
      then show ?thesis using sp fits by (intro conjI exI [of _ "bytes @ used"]) auto
    qed
  qed
qed

lemma count_pieces_iff: "count_pieces n bs \<noteq> None \<longleftrightarrow> bs = [] \<or> n + sum_list (map length bs) < MAX_LINE"
proof (induction bs arbitrary: n)
  case (Cons b bs)
  then show ?case by (cases bs) auto
qed simp

end
