(* ===== verification/Cache_Validate.thy ===== *)
theory Cache_Validate
  imports Worker_Native
begin

text \<open>
  What a cache recipe and a cache scope may name, before any file is touched:
  \<open>crates/tinyruntime/src/worker/cache/validate.rs\<close>, the overlap check of \<open>scopes\<close> in
  \<open>cache/mod.rs\<close>, and the identity file of \<open>cache/identity.rs\<close>.  The host's home directory is an
  argument, and so are the digest (SHA-256 as lower-case hexadecimal text) and the serialised recipe.
  The Unix branch of the conditional compilation is the one modelled.
\<close>

definition MAX_FILE :: nat where "MAX_FILE = 64 * 1024"

subsection \<open>Names\<close>

definition forbidden :: "string \<Rightarrow> bool" where
  "forbidden v \<longleftrightarrow>
     to_ascii_lowercase v \<in> {''.ssh'', ''.gnupg'', ''.aws'', ''.azure'', ''.kube'', ''.config''}"

definition valid_id :: "string \<Rightarrow> bool" where
  "valid_id s \<longleftrightarrow>
     s \<noteq> [] \<and> length s \<le> 64
     \<and> list_all (\<lambda>b. is_ascii_alphanumeric b \<or> b = CHR ''-'' \<or> b = CHR ''_'') s"

text \<open>
  \<open>char::is_control\<close> on the UTF-8 bytes: the control characters below a blank, delete, and
  U+0080 to U+009F, which take two bytes.
\<close>

fun has_control :: "string \<Rightarrow> bool" where
  "has_control [] = False"
| "has_control (c # cs) =
     (byte c < 32 \<or> byte c = 127
      \<or> (byte c = 0xC2 \<and> (case cs of d # _ \<Rightarrow> 0x80 \<le> byte d \<and> byte d \<le> 0x9F | [] \<Rightarrow> False))
      \<or> has_control cs)"

definition part_stem :: "string \<Rightarrow> string" where
  "part_stem part = to_ascii_uppercase (hd (split_on (CHR ''.'') part))"

definition device_name :: "string \<Rightarrow> bool" where
  "device_name stem \<longleftrightarrow>
     stem \<in> {''CON'', ''PRN'', ''AUX'', ''NUL''}
     \<or> (length stem = 4 \<and> (starts_with ''COM'' stem \<or> starts_with ''LPT'' stem)
        \<and> is_ascii_digit (stem ! 3))"

definition bad_part :: "string \<Rightarrow> bool" where
  "bad_part part \<longleftrightarrow>
     part = [] \<or> part = ''.'' \<or> part = ''..'' \<or> forbidden part
     \<or> ends_with ''.'' part \<or> ends_with '' '' part \<or> device_name (part_stem part)"

definition safe_relative :: "string \<Rightarrow> string + unit" where
  "safe_relative p =
     (if p = [] \<or> 512 < length p \<or> contains_char (CHR 0x5C) p \<or> contains_char (CHR '':'') p
         \<or> has_control p
      then Inl ''cache_path_invalid''
      else if list_ex bad_part (split_on (CHR ''/'') p) then Inl ''cache_path_invalid''
      else Inr ())"

definition relative :: "string \<Rightarrow> string + unit" where
  "relative p =
     (case safe_relative p of
        Inl e \<Rightarrow> Inl e
      | Inr _ \<Rightarrow>
          if list_ex (\<lambda>part. starts_with ''.tinyruntime-'' (to_ascii_lowercase part))
               (split_on (CHR ''/'') p)
          then Inl ''cache_path_invalid'' else Inr ())"

subsection \<open>Scopes\<close>

definition SYSTEM_ROOTS :: "string list" where
  "SYSTEM_ROOTS =
     [''/etc'', ''/proc'', ''/sys'', ''/dev'', ''/bin'', ''/sbin'', ''/usr'', ''/boot'']"

text \<open>The loop over the components: how many are names, or why the scope is refused.\<close>

fun scope_components :: "nat \<Rightarrow> component list \<Rightarrow> string + nat" where
  "scope_components n [] = Inr n"
| "scope_components n (Normal v # cs) =
     (if forbidden v then Inl ''cache_scope_forbidden'' else scope_components (n + 1) cs)"
| "scope_components n (c # cs) = Inl ''cache_scope_invalid''"

definition validate_scope :: "string option \<Rightarrow> worker_cache_scope \<Rightarrow> string + unit" where
  "validate_scope home s =
     (if \<not> valid_id (cs_id s) \<or> 4096 < length (cs_root s) \<or> \<not> is_absolute (cs_root s)
         \<or> contains_char NUL (cs_root s)
      then Inl ''cache_scope_invalid''
      else case scope_components 0 (components (cs_root s)) of
             Inl e \<Rightarrow> Inl e
           | Inr count \<Rightarrow>
               if count < 2 \<or> (case home of None \<Rightarrow> False | Some h \<Rightarrow> view (cs_root s) = view h)
               then Inl ''cache_scope_forbidden''
               else if list_ex (\<lambda>r. vpath_starts_with (view (cs_root s)) (view r)) SYSTEM_ROOTS
               then Inl ''cache_scope_forbidden''
               else Inr ())"

definition scope_conflict :: "worker_cache_scope \<Rightarrow> worker_cache_scope \<Rightarrow> bool" where
  "scope_conflict prior s \<longleftrightarrow>
     cs_id prior = cs_id s
     \<or> vpath_starts_with (view (cs_root s)) (view (cs_root prior))
     \<or> vpath_starts_with (view (cs_root prior)) (view (cs_root s))"

fun scopes_loop ::
  "string option \<Rightarrow> worker_cache_scope list \<Rightarrow> worker_cache_scope list \<Rightarrow> string + unit" where
  "scopes_loop home prior [] = Inr ()"
| "scopes_loop home prior (s # rest) =
     (case validate_scope home s of
        Inl e \<Rightarrow> Inl e
      | Inr _ \<Rightarrow>
          if list_ex (\<lambda>p. scope_conflict p s) prior then Inl ''cache_scope_conflict''
          else scopes_loop home (prior @ [s]) rest)"

definition validate_scopes :: "string option \<Rightarrow> worker_cache_scope list \<Rightarrow> string + unit" where
  "validate_scopes home ss =
     (if 32 < length ss then Inl ''cache_scope_limit'' else scopes_loop home [] ss)"

subsection \<open>Recipes\<close>

fun artifacts_loop :: "string list \<Rightarrow> nat \<Rightarrow> cache_artifact list \<Rightarrow> string + nat" where
  "artifacts_loop paths bytes [] = Inr bytes"
| "artifacts_loop paths bytes (a # rest) =
     (case relative (ca_path a) of
        Inl e \<Rightarrow> Inl e
      | Inr _ \<Rightarrow>
          if MAX_FILE < length (ca_bytes a) \<or> ca_path a \<in> set paths then Inl ''cache_artifact_limit''
          else artifacts_loop (ca_path a # paths) (bytes + length (ca_bytes a)) rest)"

fun required_loop :: "cache_entry list \<Rightarrow> string + unit" where
  "required_loop [] = Inr ()"
| "required_loop (e # rest) =
     (case relative (ce_path e) of Inl e \<Rightarrow> Inl e | Inr _ \<Rightarrow> required_loop rest)"

definition validate_recipe :: "cache_recipe \<Rightarrow> string + unit" where
  "validate_recipe r =
     (if \<not> valid_id (cr_scope r) \<or> 16 < length (cr_artifacts r) \<or> 32 < length (cr_required r)
         \<or> 16 < length (cr_steps r) \<or> cr_timeout_ms r = 0 \<or> 14400000 < cr_timeout_ms r
      then Inl ''cache_recipe_limit''
      else case artifacts_loop [] 0 (cr_artifacts r @ [cr_marker r]) of
             Inl e \<Rightarrow> Inl e
           | Inr bytes \<Rightarrow>
               if 1024 * 1024 < bytes then Inl ''cache_artifact_limit''
               else case required_loop (cr_required r) of
                      Inl e \<Rightarrow> Inl e
                    | Inr _ \<Rightarrow> validate_commands (cr_steps r))"

subsection \<open>Identity\<close>

definition recipe_identity ::
  "(string \<Rightarrow> string) \<Rightarrow> (cache_recipe \<Rightarrow> string option) \<Rightarrow> cache_recipe \<Rightarrow> string + cache_artifact" where
  "recipe_identity digest serialise r =
     (case serialise r of
        None \<Rightarrow> Inl ''cache_identity_failed''
      | Some text \<Rightarrow>
          Inr \<lparr>ca_path = ''.tinyruntime-recipe-'' @ digest (ca_path (cr_marker r)),
               ca_bytes = digest text\<rparr>)"

subsection \<open>What acceptance means\<close>

lemma safe_relative_parts:
  "safe_relative p = Inr () \<Longrightarrow> part \<in> set (split_on (CHR ''/'') p) \<Longrightarrow> \<not> bad_part part"
  by (auto simp: safe_relative_def list_ex_iff split: if_splits)

lemma relative_safe: "relative p = Inr () \<Longrightarrow> safe_relative p = Inr ()"
  by (auto simp: relative_def split: sum.splits)

lemma relative_not_own:
  "relative p = Inr () \<Longrightarrow> part \<in> set (split_on (CHR ''/'') p) \<Longrightarrow>
   \<not> starts_with ''.tinyruntime-'' (to_ascii_lowercase part)"
  by (auto simp: relative_def list_ex_iff split: sum.splits if_splits)

lemma artifacts_loop_ok:
  "artifacts_loop paths bytes as = Inr m \<Longrightarrow>
   distinct (map ca_path as) \<and> set (map ca_path as) \<inter> set paths = {}
   \<and> (\<forall>a \<in> set as. relative (ca_path a) = Inr () \<and> length (ca_bytes a) \<le> MAX_FILE)
   \<and> m = bytes + sum_list (map (\<lambda>a. length (ca_bytes a)) as)"
proof (induction as arbitrary: paths bytes)
  case (Cons a as)
  then have "relative (ca_path a) = Inr ()" "length (ca_bytes a) \<le> MAX_FILE" "ca_path a \<notin> set paths"
      and rest: "artifacts_loop (ca_path a # paths) (bytes + length (ca_bytes a)) as = Inr m"
    by (auto split: sum.splits if_splits)
  then show ?case using Cons.IH [OF rest] by auto
qed simp

lemma required_loop_ok:
  "required_loop es = Inr () \<Longrightarrow> e \<in> set es \<Longrightarrow> relative (ce_path e) = Inr ()"
  by (induction es) (auto split: sum.splits)

lemma validate_recipe_ok:
  assumes "validate_recipe r = Inr ()"
  shows "distinct (map ca_path (cr_artifacts r @ [cr_marker r]))"
    and "a \<in> set (cr_artifacts r @ [cr_marker r]) \<Longrightarrow>
         relative (ca_path a) = Inr () \<and> length (ca_bytes a) \<le> MAX_FILE"
    and "e \<in> set (cr_required r) \<Longrightarrow> relative (ce_path e) = Inr ()"
proof -
  from assms obtain bytes where "artifacts_loop [] 0 (cr_artifacts r @ [cr_marker r]) = Inr bytes"
      and req: "required_loop (cr_required r) = Inr ()"
    by (auto simp: validate_recipe_def split: if_splits sum.splits)
  note arts = artifacts_loop_ok [OF this(1)]
  from arts show "distinct (map ca_path (cr_artifacts r @ [cr_marker r]))" by blast
  from arts show "a \<in> set (cr_artifacts r @ [cr_marker r]) \<Longrightarrow>
      relative (ca_path a) = Inr () \<and> length (ca_bytes a) \<le> MAX_FILE" by blast
  from req show "e \<in> set (cr_required r) \<Longrightarrow> relative (ce_path e) = Inr ()" by (rule required_loop_ok)
qed

lemma ascii_lower_own: "to_ascii_lowercase ''.tinyruntime-'' = ''.tinyruntime-''"
  by code_simp

lemma own_part_prefix:
  "\<exists>part \<in> set (split_on (CHR ''/'') (''.tinyruntime-'' @ rest)).
     starts_with ''.tinyruntime-'' (to_ascii_lowercase part)"
proof -
  obtain q qs where q: "split_on (CHR ''/'') rest = q # qs" by (metis neq_Nil_conv split_on_not_Nil)
  have "split_on (CHR ''/'') (''.tinyruntime-'' @ rest) = (''.tinyruntime-'' @ q) # qs"
    using q by simp
  moreover have "to_ascii_lowercase (''.tinyruntime-'' @ q) = ''.tinyruntime-'' @ to_ascii_lowercase q"
    using ascii_lower_own by (simp add: to_ascii_lowercase_def)
  ultimately show ?thesis by (metis list.set_intros(1) starts_with_iff)
qed

lemma relative_avoids_own: "relative p = Inr () \<Longrightarrow> p \<noteq> ''.tinyruntime-'' @ rest"
  using own_part_prefix [of rest] relative_not_own [of p] by metis

subsection \<open>Scopes do not overlap\<close>

lemma scopes_loop_ok:
  "scopes_loop home prior ss = Inr () \<Longrightarrow>
   (\<forall>s \<in> set ss. validate_scope home s = Inr ())
   \<and> (\<forall>p \<in> set prior. \<forall>s \<in> set ss. \<not> scope_conflict p s)
   \<and> (\<forall>i j. i < j \<and> j < length ss \<longrightarrow> \<not> scope_conflict (ss ! i) (ss ! j))"
proof (induction ss arbitrary: prior)
  case (Cons s ss)
  from Cons.prems have v: "validate_scope home s = Inr ()"
      and c: "\<forall>p \<in> set prior. \<not> scope_conflict p s"
      and r: "scopes_loop home (prior @ [s]) ss = Inr ()"
    by (auto simp: list_ex_iff split: sum.splits if_splits)
  note ih = Cons.IH [OF r]
  have "\<not> scope_conflict ((s # ss) ! i) ((s # ss) ! j)" if "i < j" "j < length (s # ss)" for i j
    using that ih by (cases i; cases j) auto
  then show ?case using v c ih by auto
qed simp

lemma validate_scopes_ok:
  assumes "validate_scopes home ss = Inr ()"
  shows "s \<in> set ss \<Longrightarrow> validate_scope home s = Inr ()"
    and "i < j \<Longrightarrow> j < length ss \<Longrightarrow> \<not> scope_conflict (ss ! i) (ss ! j)"
proof -
  from assms have "scopes_loop home [] ss = Inr ()"
    by (auto simp: validate_scopes_def split: if_splits)
  note ok = scopes_loop_ok [OF this]
  from ok show "s \<in> set ss \<Longrightarrow> validate_scope home s = Inr ()" by blast
  from ok show "i < j \<Longrightarrow> j < length ss \<Longrightarrow> \<not> scope_conflict (ss ! i) (ss ! j)" by blast
qed

lemma scope_components_ok:
  "scope_components n cs = Inr m \<Longrightarrow>
   (\<exists>names. cs = map Normal names \<and> list_all (\<lambda>v. \<not> forbidden v) names \<and> m = n + length names)"
proof (induction n cs rule: scope_components.induct)
  case (2 n v cs)
  then obtain names where "cs = map Normal names" "list_all (\<lambda>v. \<not> forbidden v) names"
      "m = n + 1 + length names"
    by (auto split: if_splits)
  then show ?case using 2 by (intro exI [of _ "v # names"]) (auto split: if_splits)
qed auto

end
