(* ===== verification/Cache_Session.thy ===== *)
theory Cache_Session
  imports Cache_Validate
begin

text \<open>
  A persistent cache directory under its lock: \<open>cache/filesystem.rs\<close>, \<open>cache/staging.rs\<close> and the
  \<open>Session\<close> of \<open>cache/mod.rs\<close> under \<open>crates/tinyruntime/src/worker\<close>.  The directory handles
  are those of the crates \<open>cap-std\<close> and \<open>cap-fs-ext\<close>, which are not part of the repository: every
  call on them is a field of the record \<open>dir_ops\<close>, an argument of the definitions, over an
  unspecified type of filesystem states.  Reading calls answer from the state, writing calls return
  the state after them, failed ones included.
\<close>

subsection \<open>The calls on directory handles\<close>

type_synonym handle = nat
type_synonym file_handle = nat
type_synonym identity = "nat \<times> nat"

datatype file_kind = KFile | KDir | KLink | KOther

record meta =
  mt_kind :: file_kind
  mt_nlink :: nat
  mt_len :: nat
  mt_id :: identity

record 's dir_ops =
  op_ambient :: "'s \<Rightarrow> string \<Rightarrow> io_error + handle"
  op_clone :: "'s \<Rightarrow> handle \<Rightarrow> io_error option"
  op_open_dir :: "'s \<Rightarrow> handle \<Rightarrow> string \<Rightarrow> io_error + handle"
  op_create_dir :: "'s \<Rightarrow> handle \<Rightarrow> string \<Rightarrow> io_error option \<times> 's"
  op_dir_id :: "'s \<Rightarrow> handle \<Rightarrow> io_error + identity"
  op_dir_mode :: "'s \<Rightarrow> handle \<Rightarrow> nat \<Rightarrow> io_error option \<times> 's"
  op_stat :: "'s \<Rightarrow> handle \<Rightarrow> string \<Rightarrow> io_error + meta"
  op_open_read :: "'s \<Rightarrow> handle \<Rightarrow> string \<Rightarrow> io_error + file_handle"
  op_open_lock :: "'s \<Rightarrow> handle \<Rightarrow> string \<Rightarrow> (io_error + file_handle) \<times> 's"
  op_open_write :: "'s \<Rightarrow> handle \<Rightarrow> string \<Rightarrow> (io_error + file_handle) \<times> 's"
  op_create_new :: "'s \<Rightarrow> handle \<Rightarrow> string \<Rightarrow> (io_error + file_handle) \<times> 's"
  op_file_meta :: "'s \<Rightarrow> file_handle \<Rightarrow> io_error + meta"
  op_file_mode :: "'s \<Rightarrow> file_handle \<Rightarrow> nat \<Rightarrow> io_error option \<times> 's"
  op_set_len_zero :: "'s \<Rightarrow> file_handle \<Rightarrow> io_error option \<times> 's"
  op_read :: "'s \<Rightarrow> file_handle \<Rightarrow> nat \<Rightarrow> io_error + string"
  op_write_all :: "'s \<Rightarrow> file_handle \<Rightarrow> string \<Rightarrow> io_error option \<times> 's"
  op_sync_all :: "'s \<Rightarrow> file_handle \<Rightarrow> io_error option"
  op_rename :: "'s \<Rightarrow> handle \<Rightarrow> string \<Rightarrow> handle \<Rightarrow> string \<Rightarrow> io_error option \<times> 's"
  op_remove_file :: "'s \<Rightarrow> handle \<Rightarrow> string \<Rightarrow> io_error option \<times> 's"
  op_remove_entry :: "'s \<Rightarrow> handle \<Rightarrow> string \<Rightarrow> io_error option \<times> 's"
  op_remove_open_dir :: "'s \<Rightarrow> handle \<Rightarrow> io_error option \<times> 's"

text \<open>A call whose error is replaced by a fixed text, as \<open>map_err\<close> does.\<close>

definition or_fail :: "string \<Rightarrow> io_error + 'a \<Rightarrow> string + 'a" where
  "or_fail text r = (case r of Inl _ \<Rightarrow> Inl text | Inr x \<Rightarrow> Inr x)"

definition or_fail_s :: "string \<Rightarrow> (io_error + 'a) \<times> 's \<Rightarrow> (string + 'a) \<times> 's" where
  "or_fail_s text r = (or_fail text (fst r), snd r)"

definition done_or :: "string \<Rightarrow> io_error option \<times> 's \<Rightarrow> (string + unit) \<times> 's" where
  "done_or text r = (case fst r of None \<Rightarrow> Inr () | Some _ \<Rightarrow> Inl text, snd r)"

definition io_failed :: string where "io_failed = ''cache_io_failed''"

subsection \<open>Walking down\<close>

definition descend ::
  "'s dir_ops \<Rightarrow> handle \<Rightarrow> string \<Rightarrow> bool \<Rightarrow> 's \<Rightarrow> (string + handle) \<times> 's" where
  "descend ops d name create s =
     (case op_open_dir ops s d name of
        Inr child \<Rightarrow> (Inr child, s)
      | Inl e \<Rightarrow>
          if create \<and> e = NotFound
          then (case op_create_dir ops s d name of
                  (None, s1) \<Rightarrow> (or_fail io_failed (op_open_dir ops s1 d name), s1)
                | (Some e1, s1) \<Rightarrow>
                    if e1 = AlreadyExists then (or_fail io_failed (op_open_dir ops s1 d name), s1)
                    else (Inl io_failed, s1))
          else (Inl io_failed, s))"

fun descend_all ::
  "'s dir_ops \<Rightarrow> handle \<Rightarrow> string list \<Rightarrow> bool \<Rightarrow> 's \<Rightarrow> (string + handle) \<times> 's" where
  "descend_all ops d [] create s = (Inr d, s)"
| "descend_all ops d (n # ns) create s =
     qmark_s (descend ops d n create s) (\<lambda>child s1. descend_all ops child ns create s1)"

definition absolute :: "'s dir_ops \<Rightarrow> string \<Rightarrow> bool \<Rightarrow> 's \<Rightarrow> (string + handle) \<times> 's" where
  "absolute ops path create s =
     (if CurDir \<in> set (components path) \<or> ParentDir \<in> set (components path)
      then (Inl ''cache_scope_invalid'', s)
      else case op_ambient ops s (if is_absolute path then ''/'' else []) of
             Inl _ \<Rightarrow> (Inl io_failed, s)
           | Inr d \<Rightarrow>
               descend_all ops d (List.map_filter (\<lambda>c. case c of Normal n \<Rightarrow> Some n | _ \<Rightarrow> None) (components path))
                 create s)"

fun parent_loop ::
  "'s dir_ops \<Rightarrow> handle \<Rightarrow> string list \<Rightarrow> bool \<Rightarrow> 's \<Rightarrow> (string + handle \<times> string) \<times> 's" where
  "parent_loop ops d [] create s = (Inl ''cache_path_invalid'', s)"
| "parent_loop ops d [part] create s = (Inr (d, part), s)"
| "parent_loop ops d (part # q # parts) create s =
     qmark_s (descend ops d part create s) (\<lambda>child s1. parent_loop ops child (q # parts) create s1)"

definition fs_parent ::
  "'s dir_ops \<Rightarrow> handle \<Rightarrow> string \<Rightarrow> bool \<Rightarrow> 's \<Rightarrow> (string + handle \<times> string) \<times> 's" where
  "fs_parent ops d path create s =
     (case safe_relative path of
        Inl e \<Rightarrow> (Inl e, s)
      | Inr _ \<Rightarrow>
          (case op_clone ops s d of
             Some _ \<Rightarrow> (Inl io_failed, s)
           | None \<Rightarrow> parent_loop ops d (split_on (CHR ''/'') path) create s))"

definition same_directory :: "'s dir_ops \<Rightarrow> 's \<Rightarrow> handle \<Rightarrow> handle \<Rightarrow> string + bool" where
  "same_directory ops s a b =
     qmark (or_fail io_failed (op_dir_id ops s a)) (\<lambda>i.
     qmark (or_fail io_failed (op_dir_id ops s b)) (\<lambda>j. Inr (i = j)))"

subsection \<open>Entries\<close>

definition sound_file :: "meta \<Rightarrow> bool" where
  "sound_file m \<longleftrightarrow> mt_kind m = KFile \<and> mt_nlink m = 1"

definition fs_matches :: "'s dir_ops \<Rightarrow> 's \<Rightarrow> handle \<Rightarrow> cache_artifact \<Rightarrow> string + bool" where
  "fs_matches ops s d a =
     (case fst (fs_parent ops d (ca_path a) False s) of
        Inl _ \<Rightarrow> Inr False
      | Inr (p, name) \<Rightarrow>
          (case op_open_read ops s p name of
             Inl e \<Rightarrow> if e = NotFound then Inr False else Inl io_failed
           | Inr f \<Rightarrow>
               qmark (or_fail io_failed (op_file_meta ops s f)) (\<lambda>m.
                 if \<not> sound_file m then Inl ''cache_entry_unsafe''
                 else if MAX_FILE < mt_len m \<or> mt_len m \<noteq> length (ca_bytes a) then Inr False
                 else qmark (or_fail io_failed (op_read ops s f (MAX_FILE + 1))) (\<lambda>bytes.
                        Inr (bytes = ca_bytes a)))))"

definition regular_file_exists :: "'s dir_ops \<Rightarrow> 's \<Rightarrow> handle \<Rightarrow> string \<Rightarrow> string + bool" where
  "regular_file_exists ops s d path =
     (case fst (fs_parent ops d path False s) of
        Inl _ \<Rightarrow> Inr False
      | Inr (p, name) \<Rightarrow>
          (case op_stat ops s p name of
             Inr m \<Rightarrow> if sound_file m then Inr True else Inl ''cache_entry_unsafe''
           | Inl e \<Rightarrow> if e = NotFound then Inr False else Inl ''cache_io_failed''))"

definition fs_required :: "'s dir_ops \<Rightarrow> 's \<Rightarrow> handle \<Rightarrow> cache_entry \<Rightarrow> string + bool" where
  "fs_required ops s d entry =
     (case fst (fs_parent ops d (ce_path entry) False s) of
        Inl _ \<Rightarrow> Inr False
      | Inr (p, name) \<Rightarrow>
          (case op_stat ops s p name of
             Inl e \<Rightarrow> if e = NotFound then Inr False else Inl io_failed
           | Inr m \<Rightarrow>
               Inr (case ce_kind entry of
                      FileEntry \<Rightarrow> sound_file m
                    | DirectoryEntry \<Rightarrow> mt_kind m = KDir
                    | AnyEntry \<Rightarrow> mt_kind m = KFile \<or> mt_kind m = KDir \<or> mt_kind m = KLink)))"

definition fs_stage :: "'s dir_ops \<Rightarrow> handle \<Rightarrow> string \<Rightarrow> string \<Rightarrow> 's \<Rightarrow> (string + unit) \<times> 's" where
  "fs_stage ops d name bytes s =
     qmark_s (or_fail_s io_failed (op_create_new ops s d name)) (\<lambda>f s1.
     qmark_s (done_or io_failed (op_write_all ops s1 f bytes)) (\<lambda>_ s2.
       (case op_sync_all ops s2 f of None \<Rightarrow> Inr () | Some _ \<Rightarrow> Inl io_failed, s2)))"

definition fs_promote ::
  "'s dir_ops \<Rightarrow> handle \<Rightarrow> string \<Rightarrow> handle \<Rightarrow> string \<Rightarrow> 's \<Rightarrow> (string + unit) \<times> 's" where
  "fs_promote ops stage name root destination s =
     qmark_s (fs_parent ops root destination True s) (\<lambda>(p, target) s1.
       if (case op_stat ops s1 p target of Inr m \<Rightarrow> \<not> sound_file m | Inl _ \<Rightarrow> False)
       then (Inl ''cache_entry_unsafe'', s1)
       else done_or io_failed (op_rename ops s1 stage name p target))"

definition fs_invalidate :: "'s dir_ops \<Rightarrow> handle \<Rightarrow> string \<Rightarrow> 's \<Rightarrow> (string + unit) \<times> 's" where
  "fs_invalidate ops root path s =
     (case fst (fs_parent ops root path False s) of
        Inl _ \<Rightarrow> (Inr (), s)
      | Inr (p, name) \<Rightarrow>
          (case op_stat ops s p name of
             Inr m \<Rightarrow>
               if sound_file m then done_or io_failed (op_remove_file ops s p name)
               else (Inl ''cache_entry_unsafe'', s)
           | Inl e \<Rightarrow> if e = NotFound then (Inr (), s) else (Inl io_failed, s)))"

subsection \<open>The staging directory\<close>

record staging =
  sg_directory :: "handle option"
  sg_name :: string
  sg_identity :: identity

definition staging_open :: "'s dir_ops \<Rightarrow> 's \<Rightarrow> handle \<Rightarrow> string \<Rightarrow> string + staging" where
  "staging_open ops s root name =
     qmark (or_fail ''cache_stage_failed'' (op_open_dir ops s root name)) (\<lambda>d.
     qmark (or_fail ''cache_stage_failed'' (op_dir_id ops s d)) (\<lambda>i.
       Inr \<lparr>sg_directory = Some d, sg_name = name, sg_identity = i\<rparr>))"

definition staging_directory :: "staging \<Rightarrow> string + handle" where
  "staging_directory g =
     (case sg_directory g of None \<Rightarrow> Inl ''cache_stage_failed'' | Some d \<Rightarrow> Inr d)"

fun remove_staged :: "'s dir_ops \<Rightarrow> handle \<Rightarrow> string list \<Rightarrow> 's \<Rightarrow> (string + unit) \<times> 's" where
  "remove_staged ops d [] s = (Inr (), s)"
| "remove_staged ops d (n # ns) s =
     (case op_remove_entry ops s d n of
        (None, s1) \<Rightarrow> remove_staged ops d ns s1
      | (Some e, s1) \<Rightarrow>
          if e = NotFound then remove_staged ops d ns s1 else (Inl ''cache_stage_cleanup_failed'', s1))"

text \<open>
  The handle of the directory again, if an earlier removal already gave it up: only the directory
  with the same identity is accepted.
\<close>

definition staging_reopen :: "'s dir_ops \<Rightarrow> 's \<Rightarrow> handle \<Rightarrow> staging \<Rightarrow> string + staging" where
  "staging_reopen ops s root g =
     (case sg_directory g of
        Some _ \<Rightarrow> Inr g
      | None \<Rightarrow>
          qmark (or_fail ''cache_stage_cleanup_failed'' (op_open_dir ops s root (sg_name g))) (\<lambda>d.
          qmark (or_fail ''cache_stage_cleanup_failed'' (op_dir_id ops s d)) (\<lambda>i.
            if i \<noteq> sg_identity g then Inl ''cache_stage_cleanup_failed''
            else Inr (g\<lparr>sg_directory := Some d\<rparr>))))"

definition staging_cleanup ::
  "'s dir_ops \<Rightarrow> handle \<Rightarrow> string list \<Rightarrow> staging \<Rightarrow> 's \<Rightarrow> (string + unit) \<times> staging \<times> 's" where
  "staging_cleanup ops root staged g s =
     (case staging_reopen ops s root g of
        Inl e \<Rightarrow> (Inl e, g, s)
      | Inr g1 \<Rightarrow>
          (case staging_directory g1 of
             Inl _ \<Rightarrow> (Inl ''cache_stage_cleanup_failed'', g1, s)
           | Inr d \<Rightarrow>
               (case remove_staged ops d staged s of
                  (Inl e, s1) \<Rightarrow> (Inl e, g1, s1)
                | (Inr _, s1) \<Rightarrow>
                    (case done_or ''cache_stage_cleanup_failed'' (op_remove_open_dir ops s1 d) of
                       (r, s2) \<Rightarrow> (r, g1\<lparr>sg_directory := None\<rparr>, s2)))))"

subsection \<open>Sessions\<close>

record session =
  se_root :: handle
  se_path :: string
  se_lock :: bool
  se_lock_identity :: identity
  se_recipe_identity :: cache_artifact
  se_staging :: "staging option"
  se_staged :: "string list"
  se_cached :: bool
  se_legacy :: bool

datatype readiness = RCached | RLegacy | RRebuild

definition LOCK_NAME :: string where "LOCK_NAME = ''.tinyruntime-cache.lock''"

definition check_binding :: "'s dir_ops \<Rightarrow> session \<Rightarrow> 's \<Rightarrow> string + unit" where
  "check_binding ops se s =
     qmark (fst (absolute ops (se_path se) False s)) (\<lambda>current.
     qmark (same_directory ops s (se_root se) current) (\<lambda>same.
       if \<not> same then Inl ''cache_scope_changed''
       else qmark (or_fail ''cache_lock_changed'' (op_open_read ops s (se_root se) LOCK_NAME)) (\<lambda>f.
            qmark (or_fail ''cache_lock_changed'' (op_file_meta ops s f)) (\<lambda>m.
              if mt_nlink m \<noteq> 1 \<or> mt_id m \<noteq> se_lock_identity se then Inl ''cache_lock_changed''
              else Inr ()))))"

text \<open>The first entry that is not as demanded decides: \<open>Inr False\<close>, or the error met on the way.\<close>

fun all_hold :: "('a \<Rightarrow> string + bool) \<Rightarrow> 'a list \<Rightarrow> string + bool" where
  "all_hold f [] = Inr True"
| "all_hold f (x # xs) = qmark (f x) (\<lambda>b. if b then all_hold f xs else Inr False)"

definition session_readiness :: "'s dir_ops \<Rightarrow> session \<Rightarrow> cache_recipe \<Rightarrow> 's \<Rightarrow> string + readiness" where
  "session_readiness ops se r s =
     qmark (fs_matches ops s (se_root se) (cr_marker r)) (\<lambda>marked.
       if \<not> marked then Inr RRebuild
       else qmark (all_hold (fs_required ops s (se_root se)) (cr_required r)) (\<lambda>there.
       if \<not> there then Inr RRebuild
       else qmark (all_hold (fs_matches ops s (se_root se)) (cr_artifacts r)) (\<lambda>same.
       if \<not> same then Inr RRebuild
       else qmark (regular_file_exists ops s (se_root se) (ca_path (se_recipe_identity se))) (\<lambda>known.
       if known
       then qmark (fs_matches ops s (se_root se) (se_recipe_identity se)) (\<lambda>mine.
              Inr (if mine then RCached else RRebuild))
       else Inr (case cr_adoption r of Strict \<Rightarrow> RRebuild | AdoptVerifiedLegacy \<Rightarrow> RLegacy)))))"

text \<open>
  The loop that waits for the lock: the polls that found it contended, each with what the stop flag
  and the clock said before it and whether the sleep after it was cancelled, and the poll that did
  not.
\<close>

record contended =
  ct_stop :: bool
  ct_now :: instant
  ct_canceled :: bool

record lock_poll =
  lk_contended :: "contended list"
  lk_stop :: bool
  lk_now :: instant
  lk_taken :: bool

fun lock_loop :: "instant \<Rightarrow> contended list \<Rightarrow> lock_poll \<Rightarrow> string + unit" where
  "lock_loop deadline [] p =
     (if lk_stop p then Inl ''canceled''
      else if deadline \<le> lk_now p then Inl ''cache_timeout''
      else if lk_taken p then Inr () else Inl ''cache_lock_failed'')"
| "lock_loop deadline (c # cs) p =
     (if ct_stop c then Inl ''canceled''
      else if deadline \<le> ct_now c then Inl ''cache_timeout''
      else if ct_canceled c then Inl ''canceled''
      else lock_loop deadline cs p)"

record 's acquire_env =
  ae_digest :: "string \<Rightarrow> string"
  ae_serialise :: "cache_recipe \<Rightarrow> string option"
  ae_poll :: lock_poll
  ae_meanwhile :: "'s \<Rightarrow> 's"

definition session_acquire ::
  "'s dir_ops \<Rightarrow> 's acquire_env \<Rightarrow> string \<Rightarrow> cache_recipe \<Rightarrow> instant \<Rightarrow> 's \<Rightarrow> (string + session) \<times> 's" where
  "session_acquire ops env path r deadline s =
     (case recipe_identity (ae_digest env) (ae_serialise env) r of
        Inl e \<Rightarrow> (Inl e, s)
      | Inr own \<Rightarrow>
     qmark_s (absolute ops path True s) (\<lambda>root s1.
     qmark_s (or_fail_s ''cache_lock_failed'' (op_open_lock ops s1 root LOCK_NAME)) (\<lambda>f s2.
     case or_fail ''cache_lock_failed'' (op_file_meta ops s2 f) of
       Inl e \<Rightarrow> (Inl e, s2)
     | Inr m \<Rightarrow>
     if \<not> sound_file m then (Inl ''cache_lock_unsafe'', s2)
     else case lock_loop deadline (lk_contended (ae_poll env)) (ae_poll env) of
       Inl e \<Rightarrow> (Inl e, ae_meanwhile env s2)
     | Inr _ \<Rightarrow>
     let s3 = ae_meanwhile env s2;
         se = \<lparr>se_root = root, se_path = path, se_lock = True, se_lock_identity = mt_id m,
               se_recipe_identity = own, se_staging = None, se_staged = [],
               se_cached = False, se_legacy = False\<rparr>
     in (qmark (check_binding ops se s3) (\<lambda>_.
         qmark (session_readiness ops se r s3) (\<lambda>ready.
           Inr (case ready of
                  RCached \<Rightarrow> se\<lparr>se_cached := True\<rparr>
                | RLegacy \<Rightarrow> se\<lparr>se_legacy := True\<rparr>
                | RRebuild \<Rightarrow> se))), s3))))"

text \<open>
  Opening the stage: the directory is created under a fresh name and becomes the session's staging
  directory.
\<close>

definition open_stage ::
  "'s dir_ops \<Rightarrow> string \<Rightarrow> session \<times> 's \<Rightarrow> (string + handle) \<times> session \<times> 's" where
  "open_stage ops uuid = (\<lambda>(se, s).
     let name = ''.tinyruntime-stage-'' @ uuid
     in case op_create_dir ops s (se_root se) name of
          (Some _, s1) \<Rightarrow> (Inl ''cache_stage_failed'', se, s1)
        | (None, s1) \<Rightarrow>
            (case staging_open ops s1 (se_root se) name of
               Inl e \<Rightarrow> (Inl e, se, s1)
             | Inr g \<Rightarrow> (staging_directory g, se\<lparr>se_staging := Some g\<rparr>, s1)))"

text \<open>A file is remembered as staged before it is written.\<close>

definition stage_file ::
  "'s dir_ops \<Rightarrow> handle \<Rightarrow> string \<Rightarrow> string \<Rightarrow> session \<times> 's \<Rightarrow> (string + unit) \<times> session \<times> 's" where
  "stage_file ops d name bytes = (\<lambda>(se, s).
     case fs_stage ops d name bytes s of
       (r, s1) \<Rightarrow> (r, se\<lparr>se_staged := se_staged se @ [name]\<rparr>, s1))"

fun install_artifacts ::
  "'s dir_ops \<Rightarrow> handle \<Rightarrow> nat \<Rightarrow> cache_artifact list \<Rightarrow> session \<times> 's \<Rightarrow> (string + unit) \<times> session \<times> 's" where
  "install_artifacts ops d i [] st = (Inr (), st)"
| "install_artifacts ops d i (a # as) st =
     qmark_s (stage_file ops d (''artifact-'' @ dec i) (ca_bytes a) st) (\<lambda>_ (se, s).
     case check_binding ops se s of
       Inl e \<Rightarrow> (Inl e, se, s)
     | Inr _ \<Rightarrow>
         (case fs_promote ops d (''artifact-'' @ dec i) (se_root se) (ca_path a) s of
            (Inl e, s1) \<Rightarrow> (Inl e, se, s1)
          | (Inr _, s1) \<Rightarrow> install_artifacts ops d (i + 1) as (se, s1)))"

definition session_install ::
  "'s dir_ops \<Rightarrow> string \<Rightarrow> cache_recipe \<Rightarrow> session \<times> 's \<Rightarrow> (string + unit) \<times> session \<times> 's" where
  "session_install ops uuid r = (\<lambda>(se, s).
     case check_binding ops se s of
       Inl e \<Rightarrow> (Inl e, se, s)
     | Inr _ \<Rightarrow>
     (case fs_invalidate ops (se_root se) (ca_path (cr_marker r)) s of
       (Inl e, s1) \<Rightarrow> (Inl e, se, s1)
     | (Inr _, s1) \<Rightarrow>
     qmark_s (open_stage ops uuid (se, s1)) (\<lambda>d st.
     qmark_s (install_artifacts ops d 0 (cr_artifacts r) st) (\<lambda>_ st.
     qmark_s (stage_file ops d ''identity'' (ca_bytes (se_recipe_identity se)) st) (\<lambda>_ st.
       stage_file ops d ''marker'' (ca_bytes (cr_marker r)) st)))))"

definition session_adopt_legacy ::
  "'s dir_ops \<Rightarrow> string \<Rightarrow> cache_recipe \<Rightarrow> session \<times> 's \<Rightarrow> (string + unit) \<times> session \<times> 's" where
  "session_adopt_legacy ops uuid r = (\<lambda>(se, s).
     case check_binding ops se s of
       Inl e \<Rightarrow> (Inl e, se, s)
     | Inr _ \<Rightarrow>
     (case (if se_legacy se then session_readiness ops se r s else Inr RRebuild) of
       Inl e \<Rightarrow> (Inl e, se, s)
     | Inr ready \<Rightarrow>
     if ready \<noteq> RLegacy then (Inl ''cache_legacy_changed'', se, s)
     else
     qmark_s (open_stage ops uuid (se, s)) (\<lambda>d st.
     qmark_s (stage_file ops d ''identity'' (ca_bytes (se_recipe_identity se)) st) (\<lambda>_ (se1, s1).
     case check_binding ops se1 s1 of
       Inl e \<Rightarrow> (Inl e, se1, s1)
     | Inr _ \<Rightarrow>
     (case fs_promote ops d ''identity'' (se_root se1) (ca_path (se_recipe_identity se1)) s1 of
        (Inl e, s2) \<Rightarrow> (Inl e, se1, s2)
      | (Inr _, s2) \<Rightarrow> (Inr (), se1\<lparr>se_legacy := False, se_cached := True\<rparr>, s2))))))"

text \<open>What publication demands before it moves anything.\<close>

definition publish_checks :: "'s dir_ops \<Rightarrow> session \<Rightarrow> cache_recipe \<Rightarrow> 's \<Rightarrow> string + handle" where
  "publish_checks ops se r s =
     qmark (check_binding ops se s) (\<lambda>_.
     qmark (all_hold (fs_required ops s (se_root se)) (cr_required r)) (\<lambda>there.
       if \<not> there then Inl ''cache_required_missing''
       else qmark (all_hold (fs_matches ops s (se_root se)) (cr_artifacts r)) (\<lambda>same.
       if \<not> same then Inl ''cache_artifact_changed''
       else case se_staging se of None \<Rightarrow> Inl ''cache_stage_failed'' | Some g \<Rightarrow> staging_directory g)))"

definition session_publish ::
  "'s dir_ops \<Rightarrow> cache_recipe \<Rightarrow> session \<Rightarrow> 's \<Rightarrow> (string + unit) \<times> 's" where
  "session_publish ops r se s =
     (case publish_checks ops se r s of
        Inl e \<Rightarrow> (Inl e, s)
      | Inr d \<Rightarrow>
          qmark_s (fs_promote ops d ''identity'' (se_root se) (ca_path (se_recipe_identity se)) s) (\<lambda>_ s1.
            fs_promote ops d ''marker'' (se_root se) (ca_path (cr_marker r)) s1))"

definition session_cleanup ::
  "'s dir_ops \<Rightarrow> session \<Rightarrow> 's \<Rightarrow> (string + unit) \<times> session \<times> 's" where
  "session_cleanup ops se s =
     (case se_staging se of
        None \<Rightarrow> (Inr (), se\<lparr>se_staged := [], se_lock := False\<rparr>, s)
      | Some g \<Rightarrow>
          (case staging_cleanup ops (se_root se) (se_staged se) g s of
             (Inl e, g1, s1) \<Rightarrow> (Inl e, se\<lparr>se_staging := Some g1\<rparr>, s1)
           | (Inr _, g1, s1) \<Rightarrow> (Inr (), se\<lparr>se_staging := None, se_staged := [], se_lock := False\<rparr>, s1)))"

definition open_worker_directory ::
  "'s dir_ops \<Rightarrow> string option \<Rightarrow> string \<Rightarrow> 's \<Rightarrow> (string + handle) \<times> 's" where
  "open_worker_directory ops cwd path s =
     (if is_absolute path then absolute ops path True s
      else case cwd of
             None \<Rightarrow> (Inl ''worker_directory_failed'', s)
           | Some c \<Rightarrow> absolute ops (path_join c path) True s)"

end
