(* ===== verification/Worker_Actor.thy ===== *)
theory Worker_Actor
  imports Cache_Session
begin

text \<open>
  The supervisor of one persistent worker: \<open>crates/tinyruntime/src/worker/actor.rs\<close>.  Preparation
  through a cached recipe and the plan's own steps, starting with back-off and idle restart, the
  two-attempt dispatch, the bounded replay window and the final clean-up are functions on the actor's
  state; what the clock, the child and the host answer during one call is a record.  The last field
  of the actor is the filesystem it works on.  The supervisor's loop is the step relation
  \<open>actor_step\<close>, and its log remembers, for every call that sent its operation to a process, the
  operation and how often it was sent, so that replay can be stated.
\<close>

subsection \<open>State\<close>

definition REPLAY_WINDOW :: u64 where "REPLAY_WINDOW = 8"
definition BACKOFF :: duration where "BACKOFF = dur_from_secs 300"

definition outcome :: "worker_outcome_kind \<Rightarrow> string option \<Rightarrow> worker_outcome" where
  "outcome kind reason = \<lparr>wo_kind = kind, wo_response = None, wo_reason = reason\<rparr>"

record worker_state =
  wst_status :: worker_status
  wst_prepared :: "worker_outcome option"
  wst_closed :: bool
  wst_cleanup_failed :: bool

definition worker_state_new :: "worker_phase \<Rightarrow> worker_state" where
  "worker_state_new phase =
     \<lparr>wst_status = \<lparr>ws_phase = phase, ws_server = server_status_disabled ''worker_not_started''\<rparr>,
      wst_prepared = None, wst_closed = False, wst_cleanup_failed = False\<rparr>"

record cached =
  ch_recipe :: cache_recipe
  ch_root :: string

record 's actor =
  ac_plan :: worker_plan
  ac_root :: string
  ac_directory :: "handle option"
  ac_spawner :: "spawner option"
  ac_process :: "process option"
  ac_preparation :: "preparation option"
  ac_cached :: "cached option"
  ac_cache :: "session option"
  ac_ready_backends :: "string list"
  ac_last_used :: instant
  ac_retry_after :: "instant option"
  ac_stop :: bool
  ac_state :: worker_state
  ac_replies :: "u64 \<rightharpoonup> worker_request \<times> worker_outcome"
  ac_highest :: u64
  ac_disk :: 's

definition actor_new ::
  "worker_plan \<Rightarrow> string \<Rightarrow> cached option \<Rightarrow> spawner option \<Rightarrow> instant \<Rightarrow> 's \<Rightarrow> 's actor" where
  "actor_new plan root ch sp now s =
     \<lparr>ac_plan = plan, ac_root = root, ac_directory = None, ac_spawner = sp, ac_process = None,
      ac_preparation = None, ac_cached = ch, ac_cache = None, ac_ready_backends = [],
      ac_last_used = now, ac_retry_after = None, ac_stop = False,
      ac_state = worker_state_new Preparing, ac_replies = Map.empty, ac_highest = 0, ac_disk = s\<rparr>"

definition set_phase :: "worker_phase \<Rightarrow> 's actor \<Rightarrow> 's actor" where
  "set_phase ph a =
     a\<lparr>ac_state := (ac_state a)\<lparr>wst_status := (wst_status (ac_state a))\<lparr>ws_phase := ph\<rparr>\<rparr>\<rparr>"

definition set_server :: "server_status \<Rightarrow> 's actor \<Rightarrow> 's actor" where
  "set_server sv a =
     a\<lparr>ac_state := (ac_state a)\<lparr>wst_status := (wst_status (ac_state a))\<lparr>ws_server := sv\<rparr>\<rparr>\<rparr>"

definition is_prepared :: "'s actor \<Rightarrow> bool" where
  "is_prepared a =
     (case wst_prepared (ac_state a) of None \<Rightarrow> False | Some p \<Rightarrow> wo_kind p = OComplete)"

definition is_running :: "'s actor \<Rightarrow> bool" where
  "is_running a = ss_running (ws_server (wst_status (ac_state a)))"

definition plan_status :: "worker_plan \<Rightarrow> bool \<Rightarrow> string list \<Rightarrow> server_status" where
  "plan_status plan running ready =
     \<lparr>ss_enabled = True, ss_running = running,
      ss_backends = map (\<lambda>i. \<lparr>bs_id = i, bs_enabled = True, bs_ready = i \<in> set ready, bs_message = None\<rparr>)
                      (wp_backends plan),
      ss_message = None\<rparr>"

subsection \<open>Cleanup\<close>

definition not_running :: "'s actor \<Rightarrow> 's actor" where
  "not_running a =
     (let sv = ws_server (wst_status (ac_state a))
      in set_server (sv\<lparr>ss_running := False,
                        ss_backends := map (\<lambda>b. b\<lparr>bs_ready := False\<rparr>) (ss_backends sv)\<rparr>)
           (set_phase (if is_prepared a then Prepared else PFailed) a))"

text \<open>Each resource is given up only when its own clean-up succeeded, and kept otherwise.\<close>

definition cleanup_preparation :: "wait_end \<Rightarrow> 's actor \<Rightarrow> (string + unit) \<times> 's actor" where
  "cleanup_preparation w a =
     (case ac_preparation a of
        None \<Rightarrow> (Inr (), a)
      | Some p \<Rightarrow>
          (case preparation_cleanup w p of
             (Inl e, p1) \<Rightarrow> (Inl e, a\<lparr>ac_preparation := Some p1\<rparr>)
           | (Inr _, _) \<Rightarrow> (Inr (), a\<lparr>ac_preparation := None\<rparr>)))"

definition cleanup_cache :: "'s dir_ops \<Rightarrow> 's actor \<Rightarrow> (string + unit) \<times> 's actor" where
  "cleanup_cache ops a =
     (case ac_cache a of
        None \<Rightarrow> (Inr (), a)
      | Some se \<Rightarrow>
          (case session_cleanup ops se (ac_disk a) of
             (Inl e, se1, s1) \<Rightarrow> (Inl e, a\<lparr>ac_cache := Some se1, ac_disk := s1\<rparr>)
           | (Inr _, _, s1) \<Rightarrow> (Inr (), a\<lparr>ac_cache := None, ac_disk := s1\<rparr>)))"

definition cleanup_process :: "wait_end \<Rightarrow> 's actor \<Rightarrow> (string + unit) \<times> 's actor" where
  "cleanup_process w a =
     (case ac_process a of
        None \<Rightarrow> (Inr (), a)
      | Some p \<Rightarrow>
          (case process_cleanup w p of
             (Inl e, p1) \<Rightarrow> (Inl e, a\<lparr>ac_process := Some p1\<rparr>)
           | (Inr _, _) \<Rightarrow> (Inr (), a\<lparr>ac_process := None\<rparr>)))"

record cleanup_env =
  cl_preparation :: wait_end
  cl_process :: wait_end

definition actor_cleanup ::
  "'s dir_ops \<Rightarrow> cleanup_env \<Rightarrow> 's actor \<Rightarrow> (string + unit) \<times> 's actor" where
  "actor_cleanup ops w a =
     qmark_s (cleanup_preparation (cl_preparation w) (not_running a)) (\<lambda>_ a.
     qmark_s (cleanup_cache ops a) (\<lambda>_ a.
     qmark_s (cleanup_process (cl_process w) a) (\<lambda>_ a.
       (Inr (), not_running (a\<lparr>ac_ready_backends := []\<rparr>)))))"

subsection \<open>Preparation\<close>

record 's step_env =
  sn_stop :: bool
  sn_now :: instant
  sn_spawn :: spawn_answers
  sn_began :: instant
  sn_execute :: execute_env
  sn_effect :: "'s \<Rightarrow> 's"
  sn_reap :: wait_end

text \<open>
  One step: spawned in its directory, executed until its deadline, reaped.  While it runs it may change the
  filesystem in any way.  What a failed reaping is reported as is an argument.
\<close>

definition run_step ::
  "(string \<Rightarrow> string) \<Rightarrow> string \<Rightarrow> handle option \<Rightarrow> 's step_env \<Rightarrow> worker_command \<Rightarrow> instant \<Rightarrow> 's actor
     \<Rightarrow> (string + unit) \<times> 's actor" where
  "run_step report root directory sn c deadline a =
     (case preparation_spawn (ac_spawner a) (sn_spawn sn) c root directory of
        Inl e \<Rightarrow> (Inl e, a)
      | Inr p \<Rightarrow>
          (case preparation_execute (command_deadline (sn_began sn) c deadline) (sn_execute sn) p of
             (r, p1) \<Rightarrow>
               (case cleanup_preparation (sn_reap sn)
                       (a\<lparr>ac_preparation := Some p1, ac_disk := sn_effect sn (ac_disk a)\<rparr>) of
                  (Inl e, a1) \<Rightarrow> (Inl (report e), a1)
                | (Inr _, a1) \<Rightarrow> (r, a1))))"

fun provision_steps ::
  "'s dir_ops \<Rightarrow> string \<Rightarrow> (nat \<Rightarrow> 's step_env) \<Rightarrow> nat \<Rightarrow> instant \<Rightarrow> worker_command list \<Rightarrow> 's actor
     \<Rightarrow> (string + unit) \<times> 's actor" where
  "provision_steps ops root env i deadline [] a = (Inr (), a)"
| "provision_steps ops root env i deadline (c # cs) a =
     (if sn_stop (env i) then (Inl ''canceled'', a)
      else if deadline \<le> sn_now (env i) then (Inl ''cache_timeout'', a)
      else case ac_cache a of
             None \<Rightarrow> (Inl ''cache_session_missing'', a)
           | Some se \<Rightarrow>
               (case check_binding ops se (ac_disk a) of
                  Inl e \<Rightarrow> (Inl e, a)
                | Inr _ \<Rightarrow>
                    qmark_s (run_step (\<lambda>e. e) root (Some (se_root se)) (env i) c deadline a) (\<lambda>_ a.
                      provision_steps ops root env (i + 1) deadline cs a)))"

record 's provision_env =
  pv_uuid :: string
  pv_step :: "nat \<Rightarrow> 's step_env"
  pv_stop :: bool
  pv_now :: instant

text \<open>A session operation of the actor: it may change the session and the filesystem.\<close>

definition with_session ::
  "(session \<times> 's \<Rightarrow> (string + unit) \<times> session \<times> 's) \<Rightarrow> session \<Rightarrow> 's actor \<Rightarrow> (string + unit) \<times> 's actor" where
  "with_session f se a =
     (case f (se, ac_disk a) of (r, se1, s1) \<Rightarrow> (r, a\<lparr>ac_cache := Some se1, ac_disk := s1\<rparr>))"

definition provision_cache ::
  "'s dir_ops \<Rightarrow> 's provision_env \<Rightarrow> cached \<Rightarrow> instant \<Rightarrow> 's actor \<Rightarrow> (string + unit) \<times> 's actor" where
  "provision_cache ops env ch deadline a =
     (case ac_cache a of
        None \<Rightarrow> (Inl ''cache_session_missing'', a)
      | Some se \<Rightarrow>
          if se_legacy se then with_session (session_adopt_legacy ops (pv_uuid env) (ch_recipe ch)) se a
          else if se_cached se then (Inr (), a)
          else
            qmark_s (with_session (session_install ops (pv_uuid env) (ch_recipe ch)) se a) (\<lambda>_ a.
            qmark_s (provision_steps ops (ch_root ch) (pv_step env) 0 deadline (cr_steps (ch_recipe ch)) a) (\<lambda>_ a.
              if pv_stop env then (Inl ''canceled'', a)
              else if deadline \<le> pv_now env then (Inl ''cache_timeout'', a)
              else case ac_cache a of
                     None \<Rightarrow> (Inl ''cache_session_missing'', a)
                   | Some se1 \<Rightarrow>
                       (case session_publish ops (ch_recipe ch) se1 (ac_disk a) of
                          (r, s1) \<Rightarrow> (r, a\<lparr>ac_disk := s1\<rparr>)))))"

record 's prepare_env =
  pn_now :: instant
  pn_acquire :: "'s acquire_env"
  pn_provision :: "'s provision_env"
  pn_reap :: wait_end
  pn_cwd :: "string option"
  pn_started :: instant
  pn_step :: "nat \<Rightarrow> 's step_env"
  pn_stop :: bool

definition prepare_cache ::
  "'s dir_ops \<Rightarrow> 's prepare_env \<Rightarrow> 's actor \<Rightarrow> (string + unit) \<times> 's actor" where
  "prepare_cache ops env a =
     (case ac_cached a of
        None \<Rightarrow> (Inr (), a)
      | Some ch \<Rightarrow>
          (let deadline = pn_now env + dur_from_millis (cr_timeout_ms (ch_recipe ch))
           in case session_acquire ops (pn_acquire env) (ch_root ch) (ch_recipe ch) deadline (ac_disk a) of
                (Inl e, s1) \<Rightarrow> (Inl e, a\<lparr>ac_disk := s1\<rparr>)
              | (Inr se, s1) \<Rightarrow>
                  (case provision_cache ops (pn_provision env) ch deadline
                          (a\<lparr>ac_cache := Some se, ac_disk := s1\<rparr>) of
                     (result, a1) \<Rightarrow>
                       qmark_s (cleanup_preparation (pn_reap env) a1) (\<lambda>_ a2.
                       qmark_s (cleanup_cache ops a2) (\<lambda>_ a3. (result, a3))))))"

fun plan_steps ::
  "(nat \<Rightarrow> 's step_env) \<Rightarrow> nat \<Rightarrow> instant \<Rightarrow> worker_command list \<Rightarrow> 's actor \<Rightarrow> (string + unit) \<times> 's actor" where
  "plan_steps env i deadline [] a = (Inr (), a)"
| "plan_steps env i deadline (c # cs) a =
     qmark_s (run_step (\<lambda>_. ''cleanup_failed'') (ac_root a) (ac_directory a) (env i) c deadline a) (\<lambda>_ a.
       plan_steps env (i + 1) deadline cs a)"

text \<open>The modes are 0700 for the directory and 0600 for the script.\<close>

definition install_script ::
  "'s dir_ops \<Rightarrow> string option \<Rightarrow> 's actor \<Rightarrow> (string + unit) \<times> 's actor" where
  "install_script ops cwd a =
     (case open_worker_directory ops cwd (ac_root a) (ac_disk a) of
        (Inl e, s1) \<Rightarrow> (Inl e, a\<lparr>ac_disk := s1\<rparr>)
      | (Inr d, s1) \<Rightarrow>
          (case done_or ''mode'' (op_dir_mode ops s1 d 448) of
             (Inl e, s2) \<Rightarrow> (Inl e, a\<lparr>ac_disk := s2\<rparr>)
           | (Inr _, s2) \<Rightarrow>
               if op_clone ops s2 d \<noteq> None then (Inl ''clone'', a\<lparr>ac_disk := s2\<rparr>)
               else (case qmark_s (or_fail_s ''open'' (op_open_write ops s2 d ''worker-script'')) (\<lambda>f s3.
                            case op_file_meta ops s3 f of
                              Inl _ \<Rightarrow> (Inl ''metadata'', s3)
                            | Inr m \<Rightarrow>
                                if \<not> sound_file m then (Inl ''invalid input'', s3)
                                else qmark_s (done_or ''mode'' (op_file_mode ops s3 f 384)) (\<lambda>_ s4.
                                     qmark_s (done_or ''truncate'' (op_set_len_zero ops s4 f)) (\<lambda>_ s5.
                                       done_or ''write'' (op_write_all ops s5 f (wp_source (ac_plan a)))))) of
                       (r, s6) \<Rightarrow> (r, a\<lparr>ac_directory := Some d, ac_disk := s6\<rparr>))))"

definition actor_prepare ::
  "'s dir_ops \<Rightarrow> 's prepare_env \<Rightarrow> 's actor \<Rightarrow> worker_outcome \<times> 's actor" where
  "actor_prepare ops env a =
     (case prepare_cache ops env a of
        (Inl reason, a1) \<Rightarrow> (outcome OFailed (Some reason), a1)
      | (Inr _, a1) \<Rightarrow>
          (case install_script ops (pn_cwd env) a1 of
             (Inl _, a2) \<Rightarrow> (outcome OFailed (Some ''install_failed''), a2)
           | (Inr _, a2) \<Rightarrow>
               (case plan_steps (pn_step env) 0
                       (pn_started env + dur_from_millis (wp_startup_timeout_ms (ac_plan a)))
                       (wp_preparation (ac_plan a)) a2 of
                  (Inl reason, a3) \<Rightarrow> (outcome OFailed (Some reason), a3)
                | (Inr _, a3) \<Rightarrow>
                    (if pn_stop env then outcome OClosed (Some ''canceled'') else outcome OComplete None, a3))))"

definition finish_prepare :: "worker_outcome \<Rightarrow> 's actor \<Rightarrow> 's actor" where
  "finish_prepare prepared a =
     (let a1 = a\<lparr>ac_state := (ac_state a)\<lparr>wst_prepared := Some prepared\<rparr>\<rparr>
      in if wo_kind prepared = OComplete
         then set_phase Prepared (set_server (plan_status (ac_plan a1) False []) a1)
         else set_phase PFailed a1)"

subsection \<open>Start\<close>

definition idle_too_long :: "instant \<Rightarrow> 's actor \<Rightarrow> bool" where
  "idle_too_long now a \<longleftrightarrow>
     0 < wp_idle_timeout_ms (ac_plan a)
     \<and> (case wp_idle_backend (ac_plan a) of None \<Rightarrow> False | Some i \<Rightarrow> i \<in> set (wp_backends (ac_plan a)))
     \<and> dur_from_millis (wp_idle_timeout_ms (ac_plan a)) \<le> elapsed now (ac_last_used a)"

text \<open>
  How the handshake ends: cancelled, timed out, read to its end, or dropped together with the whole
  start because the deadline of the request that wanted it passed.
\<close>

datatype handshake_end = HsCanceled | HsTimeout | HsRead | HsCut

record start_env =
  te_idle_now :: instant
  te_idle_cleanup :: cleanup_env
  te_alive :: wait_answer
  te_dead_cleanup :: cleanup_env
  te_now :: instant
  te_spawn :: spawn_answers
  te_ready :: "string \<Rightarrow> ready_line option"
  te_handshake :: handshake_end
  te_stopped :: bool
  te_ready_at :: instant
  te_discard :: cleanup_env
  te_failed_at :: instant

datatype started = Started worker_outcome | CutOff

definition cleanup_refused :: "string \<Rightarrow> started" where
  "cleanup_refused e =
     (if e = ''interrupted'' then CutOff else Started (outcome OFailed (Some ''cleanup_failed'')))"

definition actor_handshake :: "start_env \<Rightarrow> process \<Rightarrow> (string + string list) \<times> process" where
  "actor_handshake env p =
     (case te_handshake env of
        HsCanceled \<Rightarrow> (Inl ''canceled'', p)
      | HsTimeout \<Rightarrow> (Inl ''handshake_timeout'', p)
      | HsCut \<Rightarrow> (Inl ''interrupted'', p)
      | HsRead \<Rightarrow>
          (case process_handshake (te_ready env) (ps_stdout p) of
             (Inl e, rest) \<Rightarrow> (Inl e, p\<lparr>ps_stdout := rest\<rparr>)
           | (Inr ready, rest) \<Rightarrow> (Inr (ry_backends ready), p\<lparr>ps_stdout := rest\<rparr>)))"

text \<open>Spawning and the handshake: the new process, and the backends it reports or the reason.\<close>

definition spawn_and_greet :: "start_env \<Rightarrow> 's actor \<Rightarrow> (string + string list) \<times> 's actor" where
  "spawn_and_greet env a =
     (case process_spawn (ac_spawner a) (te_spawn env) (wp_command (ac_plan a)) (ac_root a) ''./worker-script'' (ac_directory a) of
        Inl reason \<Rightarrow> (Inl reason, a)
      | Inr p \<Rightarrow> (case actor_handshake env p of (r, p1) \<Rightarrow> (r, a\<lparr>ac_process := Some p1\<rparr>)))"

definition launch_worker :: "'s dir_ops \<Rightarrow> start_env \<Rightarrow> 's actor \<Rightarrow> started \<times> 's actor" where
  "launch_worker ops env a =
     (case spawn_and_greet env (set_phase Starting a) of
        (result, a1) \<Rightarrow>
          if result = Inl ''interrupted'' then (CutOff, a1)
          else (case (result, te_stopped env) of
             (Inr backends, False) \<Rightarrow>
               (Started (outcome OComplete None),
                set_server (plan_status (ac_plan a1) True backends)
                  (set_phase Running
                    (a1\<lparr>ac_ready_backends := backends, ac_last_used := te_ready_at env,
                        ac_retry_after := None\<rparr>)))
           | _ \<Rightarrow>
               (case actor_cleanup ops (te_discard env) a1 of
                  (Inl e, a2) \<Rightarrow> (cleanup_refused e, a2)
                | (Inr _, a2) \<Rightarrow>
                    (Started (outcome OFailed (Some (case result of Inl reason \<Rightarrow> reason | Inr _ \<Rightarrow> ''canceled''))),
                     set_phase PFailed (a2\<lparr>ac_retry_after := Some (te_failed_at env + BACKOFF)\<rparr>)))))"

text \<open>After the idle and the liveness test: the back-off, then the launch.\<close>

definition start_fresh :: "'s dir_ops \<Rightarrow> start_env \<Rightarrow> 's actor \<Rightarrow> started \<times> 's actor" where
  "start_fresh ops env a =
     (if (case ac_retry_after a of None \<Rightarrow> False | Some after \<Rightarrow> te_now env < after)
      then (Started (outcome OFailed (Some ''startup_backoff'')), a)
      else launch_worker ops env a)"

definition actor_start :: "'s dir_ops \<Rightarrow> start_env \<Rightarrow> 's actor \<Rightarrow> started \<times> 's actor" where
  "actor_start ops env a =
     (if ac_stop a then (Started (outcome OClosed None), a)
      else if \<not> is_prepared a then (Started (outcome OFailed (Some ''prepare_failed'')), a)
      else case (if idle_too_long (te_idle_now env) a then actor_cleanup ops (te_idle_cleanup env) a
                 else (Inr (), a)) of
             (Inl e, a1) \<Rightarrow> (cleanup_refused e, a1)
           | (Inr _, a1) \<Rightarrow>
               (case ac_process a1 of
                  None \<Rightarrow> start_fresh ops env a1
                | Some p \<Rightarrow>
                    if is_running a1 \<and> process_is_alive (te_alive env) p
                    then (Started (outcome OComplete None), a1)
                    else (case actor_cleanup ops (te_dead_cleanup env) a1 of
                            (Inl e, a2) \<Rightarrow> (cleanup_refused e, a2)
                          | (Inr _, a2) \<Rightarrow> start_fresh ops env a2)))"

subsection \<open>Dispatch\<close>

text \<open>
  How one attempt's exchange ends: cancelled before the request future was first polled; cancelled
  or timed out after it was; or answered by the process.
\<close>

datatype exchange = NotPolled | Interrupted string | Answered process_env

record attempt_env =
  at_start :: start_env
  at_cut_cleanup :: cleanup_env
  at_exchange :: exchange
  at_answered :: instant
  at_cleanup :: cleanup_env
  at_stopped :: bool
  at_now :: instant

definition response_outcome :: "server_response \<Rightarrow> worker_outcome" where
  "response_outcome r = \<lparr>wo_kind = OResponse, wo_response = Some r, wo_reason = None\<rparr>"

definition exchange_with ::
  "exchange \<Rightarrow> server_request \<Rightarrow> process \<Rightarrow> (string + server_response) \<times> process" where
  "exchange_with x wire p =
     (case x of
        NotPolled \<Rightarrow> (Inl ''canceled'', p)
      | Interrupted reason \<Rightarrow> (Inl reason, p)
      | Answered env \<Rightarrow>
          (case process_request env wire (ps_stdout p) of (r, rest, _) \<Rightarrow> (r, p\<lparr>ps_stdout := rest\<rparr>)))"

text \<open>
  The loop over the attempts.  The second component counts the attempts whose request future was
  polled, each of which may have written the request to its process; the code's flag \<open>attempted\<close> says
  that there was one.  A last attempt's reply is final even if the worker reports a failure.
\<close>

fun attempts ::
  "'s dir_ops \<Rightarrow> server_request \<Rightarrow> instant \<Rightarrow> attempt_env list \<Rightarrow> nat \<Rightarrow> string \<Rightarrow> 's actor
     \<Rightarrow> worker_outcome \<times> nat \<times> 's actor" where
  "attempts ops wire deadline [] polled reason a = (outcome OFailed (Some reason), polled, a)"
| "attempts ops wire deadline (t # ts) polled reason a =
     (case actor_start ops (at_start t) a of
        (CutOff, a1) \<Rightarrow>
          (case actor_cleanup ops (at_cut_cleanup t) a1 of
             (Inl _, a2) \<Rightarrow> (outcome OFailed (Some ''cleanup_failed''), polled, a2)
           | (Inr _, a2) \<Rightarrow> (outcome OFailed (Some ''request_timeout''), polled, a2))
      | (Started result, a1) \<Rightarrow>
          if wo_kind result \<noteq> OComplete then (result, polled, a1)
          else (case ac_process a1 of
            None \<Rightarrow> (outcome OFailed (Some ''worker_closed''), polled, a1)
          | Some p \<Rightarrow>
            (case exchange_with (at_exchange t) wire p of (answer, p1) \<Rightarrow>
             let polled1 = (if at_exchange t = NotPolled then polled else polled + 1);
                 a2 = a1\<lparr>ac_process := Some p1\<rparr>
             in if (case answer of Inr r \<Rightarrow> sr_ok r \<or> ts = [] | Inl _ \<Rightarrow> False)
                then (case answer of
                        Inr r \<Rightarrow>
                          (response_outcome r, polled1,
                           if sr_ok r then a2\<lparr>ac_last_used := at_answered t\<rparr> else a2)
                      | Inl e \<Rightarrow> (outcome OFailed (Some e), polled1, a2))
                else (let reason1 = (case answer of Inr _ \<Rightarrow> ''remote_failed'' | Inl e \<Rightarrow> e)
                      in case actor_cleanup ops (at_cleanup t) a2 of
                           (Inl _, a3) \<Rightarrow> (outcome OFailed (Some ''cleanup_failed''), polled1, a3)
                         | (Inr _, a3) \<Rightarrow>
                             if at_stopped t \<or> deadline \<le> at_now t
                             then (outcome OFailed (Some reason1), polled1, a3)
                             else attempts ops wire deadline ts polled1 reason1 a3))))"

declare attempts.simps [simp del]

definition actor_dispatch ::
  "'s dir_ops \<Rightarrow> worker_request \<Rightarrow> instant \<Rightarrow> instant \<Rightarrow> attempt_env \<Rightarrow> attempt_env \<Rightarrow> 's actor
     \<Rightarrow> worker_outcome \<times> nat \<times> 's actor" where
  "actor_dispatch ops r now deadline t1 t2 a =
     (if deadline \<le> now then (outcome OFailed (Some ''request_timeout''), 0, a)
      else attempts ops (wire_of r) deadline [t1, t2] 0 ''worker_closed'' a)"

subsection \<open>Requests\<close>

definition horizon :: "'s actor \<Rightarrow> u64" where
  "horizon a = saturating_sub (ac_highest a) REPLAY_WINDOW"

definition record_reply :: "worker_request \<Rightarrow> worker_outcome \<Rightarrow> 's actor \<Rightarrow> 's actor" where
  "record_reply r result a =
     (let a1 = a\<lparr>ac_highest := max (ac_highest a) (wr_operation r)\<rparr>
      in a1\<lparr>ac_replies :=
              ((\<lambda>i. if horizon a1 < i then ac_replies a1 i else None)(wr_operation r \<mapsto> (r, result)))\<rparr>)"

record request_env =
  rn_now :: instant
  rn_dispatch_now :: instant
  rn_first :: attempt_env
  rn_second :: attempt_env

text \<open>The last component counts the sends of this call; the code records a reply if there was one.\<close>

definition actor_request ::
  "'s dir_ops \<Rightarrow> request_env \<Rightarrow> worker_request \<Rightarrow> instant \<Rightarrow> 's actor \<Rightarrow> worker_outcome \<times> 's actor \<times> nat" where
  "actor_request ops env r deadline a =
     (if deadline \<le> rn_now env then (outcome OFailed (Some ''request_timeout''), a, 0)
      else case ac_replies a (wr_operation r) of
             Some (previous, result) \<Rightarrow>
               if wr_method previous = wr_method r \<and> wr_params previous = wr_params r then (result, a, 0)
               else (outcome OInvalid (Some ''operation_conflict''), a, 0)
           | None \<Rightarrow>
               if wr_operation r \<le> horizon a then (outcome OExpired None, a, 0)
               else (case actor_dispatch ops r (rn_dispatch_now env) deadline (rn_first env) (rn_second env) a of
                       (result, polled, a1) \<Rightarrow>
                         (result, if 0 < polled then record_reply r result a1 else a1, polled)))"

subsection \<open>The supervisor's loop\<close>

definition supervise :: "'s dir_ops \<Rightarrow> wait_answer \<Rightarrow> cleanup_env \<Rightarrow> 's actor \<Rightarrow> 's actor" where
  "supervise ops alive w a =
     (let unusable = (case ac_process a of None \<Rightarrow> False | Some p \<Rightarrow> \<not> process_is_alive alive p);
          failed_preparation = (\<not> is_prepared a \<and> (ac_preparation a \<noteq> None \<or> ac_cache a \<noteq> None))
      in if unusable \<or> failed_preparation then snd (actor_cleanup ops w a) else a)"

text \<open>
  One round of the last loop: clean up and remove the worker's directory, or note the failure.  The
  removal's answer is \<open>None\<close>, the error otherwise.
\<close>

definition final_round ::
  "'s dir_ops \<Rightarrow> cleanup_env \<Rightarrow> ('s \<Rightarrow> io_error option \<times> 's) \<Rightarrow> 's actor \<Rightarrow> bool \<times> 's actor" where
  "final_round ops w remove a =
     (let unclean = (\<lambda>a. (False, a\<lparr>ac_state := (ac_state a)\<lparr>wst_cleanup_failed := True\<rparr>\<rparr>))
      in case actor_cleanup ops w a of
           (Inl _, a1) \<Rightarrow> unclean a1
         | (Inr _, a1) \<Rightarrow>
             (case remove (ac_disk a1) of
                (e, s1) \<Rightarrow>
                  if e = None \<or> e = Some NotFound then (True, a1\<lparr>ac_disk := s1\<rparr>)
                  else unclean (a1\<lparr>ac_disk := s1\<rparr>)))"

definition close_actor :: "'s actor \<Rightarrow> 's actor" where
  "close_actor a =
     set_phase PClosed
       (set_server ((ws_server (wst_status (ac_state a)))\<lparr>ss_running := False\<rparr>)
         (a\<lparr>ac_state := (ac_state a)\<lparr>wst_closed := True\<rparr>\<rparr>))"

subsection \<open>What every operation keeps\<close>

text \<open>
  No operation below a request touches the replay window, the closed flag, the stop flag or the plan;
  a worker reported as running is an owned process; and what is owned is owned consistently.
\<close>

definition window :: "'s actor \<Rightarrow> (u64 \<rightharpoonup> worker_request \<times> worker_outcome) \<times> u64" where
  "window a = (ac_replies a, ac_highest a)"

definition frame :: "'s actor \<Rightarrow> (u64 \<rightharpoonup> worker_request \<times> worker_outcome) \<times> u64 \<times> bool \<times> bool \<times> worker_plan" where
  "frame a = (ac_replies a, ac_highest a, wst_closed (ac_state a), ac_stop a, ac_plan a)"

definition truthful :: "'s actor \<Rightarrow> bool" where
  "truthful a \<longleftrightarrow>
     (is_running a \<longrightarrow> ac_process a \<noteq> None)
     \<and> (case ac_process a of None \<Rightarrow> True | Some p \<Rightarrow> native_wf (ps_native p))
     \<and> (case ac_preparation a of None \<Rightarrow> True | Some p \<Rightarrow> native_wf (pp_native p))"

definition keeps :: "'s actor \<Rightarrow> 's actor \<Rightarrow> bool" where
  "keeps a a' \<longleftrightarrow> frame a' = frame a \<and> (truthful a \<longrightarrow> truthful a')"

named_theorems keeps_intros \<open>operations that keep the frame and the truth of the status\<close>

lemma keeps_refl [simp]: "keeps a a"
  by (simp add: keeps_def)

lemma keeps_trans: "keeps a b \<Longrightarrow> keeps b c \<Longrightarrow> keeps a c"
  by (simp add: keeps_def)

lemma keeps_window: "keeps a a' \<Longrightarrow> window a' = window a"
  by (simp add: keeps_def frame_def window_def)

lemmas actor_views = is_running_def is_prepared_def set_phase_def set_server_def frame_def truthful_def keeps_def

lemma keeps_not_running [simp]: "keeps a (not_running a)"
  by (simp add: not_running_def Let_def actor_views)

lemma not_running_parts [simp]:
  "ac_process (not_running a) = ac_process a" "ac_preparation (not_running a) = ac_preparation a"
  "ac_cache (not_running a) = ac_cache a" "is_running (not_running a) = False"
  "ac_disk (not_running a) = ac_disk a" "frame (not_running a) = frame a"
  by (simp_all add: not_running_def Let_def actor_views)

lemma keeps_cleanup_preparation [keeps_intros]: "cleanup_preparation w a = (r, a') \<Longrightarrow> keeps a a'"
  by (auto simp: cleanup_preparation_def actor_views dest: preparation_cleanup_wf
      split: option.splits prod.splits sum.splits)

lemma keeps_cleanup_cache [keeps_intros]: "cleanup_cache ops a = (r, a') \<Longrightarrow> keeps a a'"
  by (auto simp: cleanup_cache_def actor_views split: option.splits prod.splits sum.splits)

lemma cleanup_process_frame:
  "cleanup_process w a = (r, a') \<Longrightarrow> \<not> is_running a \<Longrightarrow> keeps a a' \<and> \<not> is_running a'"
  by (auto simp: cleanup_process_def actor_views dest: process_cleanup_wf
      split: option.splits prod.splits sum.splits)

lemma cleanup_preparation_running [simp]: "is_running (snd (cleanup_preparation w a)) = is_running a"
  by (auto simp: cleanup_preparation_def actor_views split: option.splits prod.splits sum.splits)

lemma cleanup_cache_running [simp]: "is_running (snd (cleanup_cache ops a)) = is_running a"
  by (auto simp: cleanup_cache_def actor_views split: option.splits prod.splits sum.splits)

lemma keeps_ready [simp]: "keeps a (a\<lparr>ac_ready_backends := b\<rparr>)"
  by (simp add: actor_views)

lemma keeps_cleanup [keeps_intros]:
  assumes "actor_cleanup ops w a = (r, a')"
  shows "keeps a a'"
proof -
  obtain r1 a1 where c1: "cleanup_preparation (cl_preparation w) (not_running a) = (r1, a1)"
    by (metis surj_pair)
  obtain r2 a2 where c2: "cleanup_cache ops a1 = (r2, a2)" by (metis surj_pair)
  obtain r3 a3 where c3: "cleanup_process (cl_process w) a2 = (r3, a3)" by (metis surj_pair)
  have k1: "keeps a a1" using keeps_trans [OF keeps_not_running keeps_cleanup_preparation [OF c1]] .
  have k2: "keeps a a2" using keeps_trans [OF k1 keeps_cleanup_cache [OF c2]] .
  have "\<not> is_running a2"
    using cleanup_preparation_running [of "cl_preparation w" "not_running a"] cleanup_cache_running [of ops a1]
    by (simp add: c1 c2)
  then have k3: "keeps a a3" using keeps_trans [OF k2] cleanup_process_frame [OF c3] by blast
  have k4: "keeps a (not_running (a3\<lparr>ac_ready_backends := []\<rparr>))"
    using keeps_trans [OF k3 keeps_trans [OF keeps_ready keeps_not_running]] .
  show ?thesis
    using assms k1 k2 k3 k4
    by (cases r1; cases r2; cases r3) (auto simp: actor_cleanup_def c1 c2 c3)
qed

lemma cleanup_preparation_ok:
  "cleanup_preparation w a = (Inr u, a') \<Longrightarrow>
   ac_preparation a' = None \<and> ac_process a' = ac_process a \<and> ac_cache a' = ac_cache a"
  by (auto simp: cleanup_preparation_def split: option.splits prod.splits sum.splits)

lemma cleanup_cache_ok:
  "cleanup_cache ops a = (Inr u, a') \<Longrightarrow>
   ac_cache a' = None \<and> ac_process a' = ac_process a \<and> ac_preparation a' = ac_preparation a"
  by (auto simp: cleanup_cache_def split: option.splits prod.splits sum.splits)

lemma cleanup_process_ok:
  "cleanup_process w a = (Inr u, a') \<Longrightarrow>
   ac_process a' = None \<and> ac_cache a' = ac_cache a \<and> ac_preparation a' = ac_preparation a"
  by (auto simp: cleanup_process_def split: option.splits prod.splits sum.splits)

lemma cleanup_stages:
  assumes "actor_cleanup ops w a = (Inr u, a')"
  obtains a1 a2 a3 where "cleanup_preparation (cl_preparation w) (not_running a) = (Inr (), a1)"
    "cleanup_cache ops a1 = (Inr (), a2)" "cleanup_process (cl_process w) a2 = (Inr (), a3)"
    "a' = not_running (a3\<lparr>ac_ready_backends := []\<rparr>)"
  using assms by (auto simp: actor_cleanup_def rust_simps)

lemma cleanup_done:
  assumes "actor_cleanup ops w a = (Inr u, a')"
  shows "ac_process a' = None \<and> ac_preparation a' = None \<and> ac_cache a' = None \<and> \<not> is_running a'"
  using assms
  by (elim cleanup_stages) (auto dest!: cleanup_preparation_ok cleanup_cache_ok cleanup_process_ok)

text \<open>A process is given up only when waiting for its whole group succeeded, or it was gone before.\<close>

lemma cleanup_honest:
  assumes "actor_cleanup ops w a = (Inr u, a')" and "truthful a" and "ac_process a = Some p"
  shows "native_gone (ps_native p) \<or> cl_process w = WaitOk"
proof -
  from assms(1) obtain a1 a2 a3 where c: "cleanup_preparation (cl_preparation w) (not_running a) = (Inr (), a1)"
      "cleanup_cache ops a1 = (Inr (), a2)" "cleanup_process (cl_process w) a2 = (Inr (), a3)"
    by (rule cleanup_stages)
  have "ac_process a2 = Some p"
    using cleanup_preparation_ok [OF c(1)] cleanup_cache_ok [OF c(2)] assms(3) by simp
  then obtain n where "reap_native (cl_process w) (ps_native p) = (Inr (), n)"
    using c(3) by (auto simp: cleanup_process_def process_cleanup_def split: prod.splits sum.splits)
  then show ?thesis
    using reap_native_ok assms(2,3) by (auto simp: truthful_def)
qed

subsection \<open>Preparation keeps the frame\<close>

lemma preparation_execute_wf:
  "preparation_execute deadline env p = (r, p') \<Longrightarrow> native_wf (pp_native p) \<Longrightarrow> native_wf (pp_native p')"
  by (auto simp: preparation_execute_def Let_def dest: preparation_cleanup_wf
      split: if_splits prod.splits sum.splits)

lemma keeps_run_step [keeps_intros]:
  assumes "run_step report root directory sn c deadline a = (r, a')"
  shows "keeps a a'"
proof (cases "preparation_spawn (ac_spawner a) (sn_spawn sn) c root directory")
  case (Inl e)
  then show ?thesis using assms by (simp add: run_step_def)
next
  case (Inr p)
  then have p: "native_wf (pp_native p)"
    by (auto simp: preparation_spawn_def native_wf_def split: option.splits)
  obtain x p1 where ex: "preparation_execute (command_deadline (sn_began sn) c deadline) (sn_execute sn) p = (x, p1)"
    by (metis surj_pair)
  define a0 where "a0 = a\<lparr>ac_preparation := Some p1, ac_disk := sn_effect sn (ac_disk a)\<rparr>"
  obtain y a1 where cl: "cleanup_preparation (sn_reap sn) a0 = (y, a1)" by (metis surj_pair)
  have "keeps a a0"
    using preparation_execute_wf [OF ex p] by (auto simp: a0_def actor_views)
  then have "keeps a a1" using keeps_trans keeps_cleanup_preparation [OF cl] by blast
  moreover have "a' = a1" using assms Inr ex cl by (cases y) (auto simp: run_step_def a0_def)
  ultimately show ?thesis by simp
qed

lemma keeps_qmark:
  assumes "qmark_s m k = (r, a')" and "\<And>x b. m = (x, b) \<Longrightarrow> keeps a b"
    and "\<And>x b r a'. m = (Inr x, b) \<Longrightarrow> k x b = (r, a') \<Longrightarrow> keeps b a'"
  shows "keeps a a'"
  using assms keeps_trans by (cases m; cases "fst m") (fastforce simp: qmark_s_def)+

lemma keeps_provision_steps [keeps_intros]:
  "provision_steps ops root env i deadline cs a = (r, a') \<Longrightarrow> keeps a a'"
proof (induction cs arbitrary: i a r a')
  case (Cons c cs)
  then show ?case
    by (auto elim!: keeps_qmark intro: keeps_intros split: if_splits option.splits sum.splits)
qed simp

lemma keeps_plan_steps [keeps_intros]: "plan_steps env i deadline cs a = (r, a') \<Longrightarrow> keeps a a'"
proof (induction cs arbitrary: i a r a')
  case (Cons c cs)
  then show ?case by (auto elim!: keeps_qmark intro: keeps_intros)
qed simp

lemma keeps_disk [simp]:
  "keeps a (a\<lparr>ac_disk := s\<rparr>)" "keeps a (a\<lparr>ac_cache := c, ac_disk := s\<rparr>)"
  "keeps a (a\<lparr>ac_directory := d, ac_disk := s\<rparr>)"
  by (simp_all add: actor_views)

lemma keeps_with_session [keeps_intros]: "with_session f se a = (r, a') \<Longrightarrow> keeps a a'"
  by (auto simp: with_session_def split: prod.splits)

lemma keeps_provision_cache [keeps_intros]:
  assumes "provision_cache ops env ch deadline a = (r, a')"
  shows "keeps a a'"
  using assms
  by (auto simp: provision_cache_def elim!: keeps_qmark intro: keeps_intros
      split: option.splits if_splits prod.splits)

lemma keeps_prepare_cache [keeps_intros]:
  assumes "prepare_cache ops env a = (r, a')"
  shows "keeps a a'"
proof (cases "ac_cached a")
  case None
  then show ?thesis using assms by (simp add: prepare_cache_def)
next
  case (Some ch)
  define dl where "dl = pn_now env + dur_from_millis (cr_timeout_ms (ch_recipe ch))"
  obtain x s1 where ac: "session_acquire ops (pn_acquire env) (ch_root ch) (ch_recipe ch) dl (ac_disk a) = (x, s1)"
    by (metis surj_pair)
  show ?thesis
  proof (cases x)
    case (Inl e)
    then show ?thesis using assms Some ac by (auto simp: prepare_cache_def dl_def)
  next
    case (Inr se)
    obtain y a1 where pr: "provision_cache ops (pn_provision env) ch dl (a\<lparr>ac_cache := Some se, ac_disk := s1\<rparr>) = (y, a1)"
      by (metis surj_pair)
    have k1: "keeps a a1" using keeps_trans [OF keeps_disk(2) keeps_provision_cache [OF pr]] .
    have "qmark_s (cleanup_preparation (pn_reap env) a1) (\<lambda>_ a2. qmark_s (cleanup_cache ops a2) (\<lambda>_ a3. (y, a3))) = (r, a')"
      using assms Some ac Inr pr by (simp add: prepare_cache_def dl_def)
    then have "keeps a1 a'" by (auto elim!: keeps_qmark intro: keeps_intros)
    then show ?thesis using k1 keeps_trans by blast
  qed
qed

lemma keeps_install_script [keeps_intros]: "install_script ops cwd a = (r, a') \<Longrightarrow> keeps a a'"
  by (auto simp: install_script_def split: prod.splits sum.splits if_splits)

lemma keeps_prepare [keeps_intros]:
  assumes "actor_prepare ops env a = (r, a')"
  shows "keeps a a'"
proof -
  let ?dl = "pn_started env + dur_from_millis (wp_startup_timeout_ms (ac_plan a))"
  obtain x1 a1 where p1: "prepare_cache ops env a = (x1, a1)" by (metis surj_pair)
  obtain x2 a2 where p2: "install_script ops (pn_cwd env) a1 = (x2, a2)" by (metis surj_pair)
  obtain x3 a3 where p3: "plan_steps (pn_step env) 0 ?dl (wp_preparation (ac_plan a)) a2 = (x3, a3)"
    by (metis surj_pair)
  have k1: "keeps a a1" using keeps_prepare_cache [OF p1] .
  have k2: "keeps a a2" using keeps_trans [OF k1 keeps_install_script [OF p2]] .
  have k3: "keeps a a3" using keeps_trans [OF k2 keeps_plan_steps [OF p3]] .
  have "a' = a1 \<or> a' = a2 \<or> a' = a3"
    using assms by (auto simp: actor_prepare_def p1 p2 p3 split: sum.splits)
  then show ?thesis using k1 k2 k3 by blast
qed

subsection \<open>Starting and dispatching keep the frame\<close>

lemma handshake_native: "actor_handshake env p = (r, p') \<Longrightarrow> ps_native p' = ps_native p"
  by (auto simp: actor_handshake_def split: handshake_end.splits prod.splits sum.splits)

lemma process_spawn_wf: "process_spawn sp w c root script directory = Inr p \<Longrightarrow> native_wf (ps_native p)"
  by (auto simp: process_spawn_def native_wf_def split: option.splits)

lemma keeps_greet:
  assumes "spawn_and_greet env a = (r, a')"
  shows "keeps a a'"
proof (cases "process_spawn (ac_spawner a) (te_spawn env) (wp_command (ac_plan a)) (ac_root a) ''./worker-script'' (ac_directory a)")
  case (Inl e)
  then show ?thesis using assms by (simp add: spawn_and_greet_def)
next
  case (Inr p)
  obtain x p1 where h: "actor_handshake env p = (x, p1)" by (metis surj_pair)
  have "a' = a\<lparr>ac_process := Some p1\<rparr>" using assms Inr h by (simp add: spawn_and_greet_def)
  then show ?thesis
    using handshake_native [OF h] process_spawn_wf [OF Inr] by (auto simp: actor_views)
qed

lemma keeps_phase [simp]: "keeps a (set_phase ph a)"
  by (simp add: actor_views)

lemma keeps_launch [keeps_intros]:
  assumes "launch_worker ops env a = (r, a')"
  shows "keeps a a'"
proof -
  obtain x a1 where sg: "spawn_and_greet env (set_phase Starting a) = (x, a1)" by (metis surj_pair)
  have k1: "keeps a a1" using keeps_trans [OF keeps_phase keeps_greet [OF sg]] .
  have proc: "x = Inr bs \<Longrightarrow> ac_process a1 \<noteq> None" for bs
    using sg by (auto simp: spawn_and_greet_def split: sum.splits prod.splits)
  have up: "x = Inr bs \<Longrightarrow>
      keeps a1 (set_server (plan_status (ac_plan a1) True bs) (set_phase Running
        (a1\<lparr>ac_ready_backends := bs, ac_last_used := te_ready_at env, ac_retry_after := None\<rparr>)))" for bs
    using proc by (auto simp: actor_views plan_status_def)
  have down: "keeps b (set_phase PFailed (b\<lparr>ac_retry_after := t\<rparr>))" for b t
    by (simp add: actor_views)
  obtain y a2 where cl: "actor_cleanup ops (te_discard env) a1 = (y, a2)" by (metis surj_pair)
  have k2: "keeps a a2" using keeps_trans [OF k1 keeps_cleanup [OF cl]] .
  have k3: "keeps a (set_phase PFailed (a2\<lparr>ac_retry_after := t\<rparr>))" for t
    using keeps_trans [OF k2 down] .
  show ?thesis
    using assms k1 k2 k3 keeps_trans [OF k1 up]
    by (cases x; cases "te_stopped env"; cases y) (auto simp: launch_worker_def sg cl split: if_splits)
qed

lemma keeps_start_fresh [keeps_intros]: "start_fresh ops env a = (r, a') \<Longrightarrow> keeps a a'"
  by (auto simp: start_fresh_def dest: keeps_launch split: if_splits)

lemma keeps_start [keeps_intros]:
  assumes "actor_start ops env a = (r, a')"
  shows "keeps a a'"
proof (cases "ac_stop a \<or> \<not> is_prepared a")
  case True
  then show ?thesis using assms by (auto simp: actor_start_def split: if_splits)
next
  case False
  obtain x a1 where c1: "(if idle_too_long (te_idle_now env) a then actor_cleanup ops (te_idle_cleanup env) a
      else (Inr (), a)) = (x, a1)" by (metis surj_pair)
  obtain y a2 where c2: "actor_cleanup ops (te_dead_cleanup env) a1 = (y, a2)" by (metis surj_pair)
  have k1: "keeps a a1" using c1 by (auto dest: keeps_cleanup split: if_splits)
  have k2: "keeps a a2" using keeps_trans [OF k1 keeps_cleanup [OF c2]] .
  show ?thesis
    using assms False k1 k2 keeps_trans [OF k1] keeps_trans [OF k2]
    by (cases x; cases y)
      (auto simp: actor_start_def c1 c2 dest!: keeps_start_fresh split: option.splits if_splits)
qed

lemma exchange_native [simp]: "exchange_with x wire p = (r, p') \<Longrightarrow> ps_native p' = ps_native p"
  by (auto simp: exchange_with_def split: exchange.splits prod.splits)

lemma keeps_exchange:
  "exchange_with x wire p = (r, p') \<Longrightarrow> ac_process a = Some p \<Longrightarrow> keeps a (a\<lparr>ac_process := Some p'\<rparr>)"
  by (auto simp: actor_views)

lemma keeps_used [simp]: "keeps a (a\<lparr>ac_last_used := t\<rparr>)"
  by (simp add: actor_views)

lemma keeps_attempts:
  "attempts ops wire deadline ts b reason a = (r, b', a') \<Longrightarrow> keeps a a'"
proof (induction ts arbitrary: b reason a)
  case Nil
  then show ?case by (simp add: attempts.simps)
next
  case (Cons t ts)
  obtain x a1 where st: "actor_start ops (at_start t) a = (x, a1)" by (metis surj_pair)
  have k1: "keeps a a1" using keeps_start [OF st] .
  show ?case
  proof (cases x)
    case CutOff
    then show ?thesis
      using Cons.prems k1
      by (auto simp: attempts.simps st dest!: keeps_cleanup intro: keeps_trans split: prod.splits sum.splits)
  next
    case (Started result)
    show ?thesis
    proof (cases "wo_kind result \<noteq> OComplete \<or> ac_process a1 = None")
      case True
      then show ?thesis using Cons.prems k1 Started by (auto simp: attempts.simps st split: if_splits option.splits)
    next
      case False
      then obtain p where p: "ac_process a1 = Some p" and ok: "wo_kind result = OComplete" by auto
      obtain answer p1 where x: "exchange_with (at_exchange t) wire p = (answer, p1)" by (metis surj_pair)
      define a2 where "a2 = a1\<lparr>ac_process := Some p1\<rparr>"
      have k2: "keeps a a2" using keeps_trans [OF k1 keeps_exchange [OF x p]] by (simp add: a2_def)
      show ?thesis
        using Cons.prems Cons.IH k2
        by (auto simp: attempts.simps st Started p ok x a2_def [symmetric] Let_def dest!: keeps_cleanup
            intro: keeps_trans split: if_splits sum.splits prod.splits)
    qed
  qed
qed

lemma keeps_dispatch: "actor_dispatch ops q now deadline t1 t2 a = (r, b, a') \<Longrightarrow> keeps a a'"
  by (auto simp: actor_dispatch_def dest: keeps_attempts split: if_splits)

lemma keeps_supervise: "keeps a (supervise ops alive w a)"
  by (cases "actor_cleanup ops w a") (auto simp: supervise_def Let_def dest: keeps_cleanup)

subsection \<open>The supervisor as a transition system\<close>

text \<open>
  A supervisor with its stage and its log: one entry for each call that sent its operation, with the
  number of times the call sent it, in order.  Its own
  steps are labelled with the command they take from its queue, if any; it serves requests with a
  positive operation number, as validation guarantees, and skips one whose caller is gone.  Between
  two of them the manager may raise the stop flag or clear the note of a failed clean-up, and other
  processes may change the filesystem.
\<close>

datatype stage = Born | Serving | Ending | Ended

record 's actor_sys =
  as_actor :: "'s actor"
  as_stage :: stage
  as_log :: "(u64 \<times> nat) list"

datatype taken = TakenNone | TakenStart | TakenRequest worker_request instant

text \<open>
  A panic unwinds \<open>serve\<close> wherever it was and leaves the actor half way through any update.  What is
  known of it are the fields no line of \<open>serve\<close> assigns: the plan, the root, the spawner, the recipe,
  the stop flag and the two notes the last loop writes.  The status, what it owns and the replay
  window may be anything; and the request it was serving may have been sent once or twice without
  being recorded.
\<close>

definition unwound :: "'s actor \<Rightarrow> 's actor \<Rightarrow> bool" where
  "unwound a a' \<longleftrightarrow>
     ac_plan a' = ac_plan a \<and> ac_root a' = ac_root a \<and> ac_spawner a' = ac_spawner a
     \<and> ac_cached a' = ac_cached a \<and> ac_stop a' = ac_stop a
     \<and> wst_closed (ac_state a') = wst_closed (ac_state a)
     \<and> wst_cleanup_failed (ac_state a') = wst_cleanup_failed (ac_state a)"

definition may_send :: "'s actor \<Rightarrow> taken \<Rightarrow> (u64 \<times> nat) list \<Rightarrow> bool" where
  "may_send a t sent \<longleftrightarrow>
     sent = []
     \<or> (\<exists>q deadline n. t = TakenRequest q deadline \<and> sent = [(wr_operation q, n)] \<and> 1 \<le> n \<and> n \<le> 2
          \<and> wr_operation q \<notin> dom (ac_replies a) \<and> horizon a < wr_operation q)"

inductive sup_step :: "'s dir_ops \<Rightarrow> taken \<Rightarrow> 's actor_sys \<Rightarrow> 's actor_sys \<Rightarrow> bool" for ops where
  prepared: "as_stage s = Born \<Longrightarrow> actor_prepare ops env (as_actor s) = (p, a) \<Longrightarrow>
    sup_step ops TakenNone s (s\<lparr>as_actor := finish_prepare p a, as_stage := Serving\<rparr>)"
| started: "as_stage s = Serving \<Longrightarrow> actor_start ops env1 (as_actor s) = (Started r, a) \<Longrightarrow>
    sup_step ops TakenStart s (s\<lparr>as_actor := a\<rparr>)"
| served: "as_stage s = Serving \<Longrightarrow> wr_operation q \<noteq> 0 \<Longrightarrow>
    actor_request ops env2 q deadline (as_actor s) = (r, a, polled) \<Longrightarrow>
    sup_step ops (TakenRequest q deadline) s
      (s\<lparr>as_actor := a, as_log := as_log s @ (if 0 < polled then [(wr_operation q, polled)] else [])\<rparr>)"
| skipped: "as_stage s = Serving \<Longrightarrow> sup_step ops (TakenRequest q deadline) s s"
| ticked: "as_stage s = Serving \<Longrightarrow>
    sup_step ops TakenNone s (s\<lparr>as_actor := supervise ops alive w (as_actor s)\<rparr>)"
| ending: "as_stage s = Serving \<Longrightarrow> sup_step ops TakenNone s (s\<lparr>as_stage := Ending\<rparr>)"
| panicked: "as_stage s = Serving \<or> as_stage s = Born \<and> t = TakenNone \<Longrightarrow> unwound (as_actor s) a \<Longrightarrow>
    may_send (as_actor s) t sent \<Longrightarrow>
    sup_step ops t s (s\<lparr>as_actor := a, as_stage := Ending, as_log := as_log s @ sent\<rparr>)"
| unclean: "as_stage s = Ending \<Longrightarrow> final_round ops w remove (as_actor s) = (False, a) \<Longrightarrow>
    sup_step ops TakenNone s (s\<lparr>as_actor := a\<rparr>)"
| finished: "as_stage s = Ending \<Longrightarrow> final_round ops w remove (as_actor s) = (True, a) \<Longrightarrow>
    sup_step ops TakenNone s (s\<lparr>as_actor := close_actor a, as_stage := Ended\<rparr>)"
| others: "sup_step ops TakenNone s (s\<lparr>as_actor := (as_actor s)\<lparr>ac_disk := d\<rparr>\<rparr>)"

definition raise_stop :: "'s actor_sys \<Rightarrow> 's actor_sys" where
  "raise_stop s =
     s\<lparr>as_actor := (as_actor s)\<lparr>ac_stop := True,
         ac_state := (ac_state (as_actor s))\<lparr>wst_cleanup_failed := False\<rparr>\<rparr>\<rparr>"

inductive actor_step :: "'s dir_ops \<Rightarrow> 's actor_sys \<Rightarrow> 's actor_sys \<Rightarrow> bool" for ops where
  own: "sup_step ops t s s' \<Longrightarrow> actor_step ops s s'"
| told: "actor_step ops s (raise_stop s)"

definition actor_sys_init :: "'s actor \<Rightarrow> 's actor_sys" where
  "actor_sys_init a = \<lparr>as_actor = a, as_stage = Born, as_log = []\<rparr>"

definition newborn :: "'s actor \<Rightarrow> bool" where
  "newborn a \<longleftrightarrow> (\<exists>plan root ch sp now s. a = actor_new plan root ch sp now s)"

abbreviation actor_reachable :: "'s dir_ops \<Rightarrow> 's actor_sys \<Rightarrow> bool" where
  "actor_reachable ops \<equiv> reach (\<lambda>s. \<exists>a. newborn a \<and> s = actor_sys_init a) (actor_step ops)"

subsection \<open>The replay window\<close>

text \<open>
  As long as requests are served: every operation sent is in the window or below it, and what is in
  the window was sent.  One call at most sends an operation, once or twice.
\<close>

fun at_work :: "stage \<Rightarrow> bool" where
  "at_work Born = True"
| "at_work Serving = True"
| "at_work Ending = False"
| "at_work Ended = False"

definition replay_inv :: "'s actor_sys \<Rightarrow> bool" where
  "replay_inv s \<longleftrightarrow>
     distinct (map fst (as_log s))
     \<and> (\<forall>(i, n) \<in> set (as_log s). 1 \<le> n \<and> n \<le> 2)
     \<and> (at_work (as_stage s) \<longrightarrow>
         (\<forall>i \<in> fst ` set (as_log s). i \<in> dom (ac_replies (as_actor s)) \<or> i \<le> horizon (as_actor s))
         \<and> (\<forall>i \<in> dom (ac_replies (as_actor s)).
              i \<in> fst ` set (as_log s) \<and> horizon (as_actor s) < i \<and> i \<le> ac_highest (as_actor s)))"

lemma horizon_unat: "unat (horizon a) = unat (ac_highest a) - 8"
  by (simp add: horizon_def REPLAY_WINDOW_def unat_saturating_sub)

lemma replay_inv_window:
  "window (as_actor s') = window (as_actor s) \<Longrightarrow> as_log s' = as_log s \<Longrightarrow>
   (at_work (as_stage s') \<longrightarrow> at_work (as_stage s)) \<Longrightarrow>
   replay_inv s \<Longrightarrow> replay_inv s'"
  by (simp add: replay_inv_def window_def horizon_def)

lemma attempts_polled:
  "attempts ops wire deadline ts n reason a = (r, n', a') \<Longrightarrow> n' \<le> n + length ts"
proof (induction ts arbitrary: n reason a)
  case (Cons t ts)
  then show ?case
    by (fastforce simp: attempts.simps Let_def split: started.splits prod.splits sum.splits option.splits if_splits)
qed (simp add: attempts.simps)

lemma dispatch_polled: "actor_dispatch ops q now deadline t1 t2 a = (r, n, a') \<Longrightarrow> n \<le> 2"
  by (auto simp: actor_dispatch_def dest: attempts_polled split: if_splits)

lemma window_request:
  assumes "actor_request ops env q deadline a = (r, a', polled)"
  shows "(polled = 0 \<and> window a' = window a)
    \<or> (1 \<le> polled \<and> polled \<le> 2 \<and> wr_operation q \<notin> dom (ac_replies a) \<and> horizon a < wr_operation q
       \<and> (\<exists>a1. window a1 = window a \<and> a' = record_reply q r a1))"
proof -
  obtain x b a1 where d: "actor_dispatch ops q (rn_dispatch_now env) deadline (rn_first env) (rn_second env) a = (x, b, a1)"
    by (metis prod_cases3)
  have w: "window a1 = window a" using keeps_window [OF keeps_dispatch [OF d]] .
  have "b \<le> 2" using dispatch_polled [OF d] .
  then show ?thesis
    using assms w by (auto simp: actor_request_def d split: if_splits option.splits)
qed

lemma replay_inv_record:
  assumes inv: "replay_inv s" and w: "window a1 = window (as_actor s)"
    and op: "wr_operation q \<noteq> 0" "wr_operation q \<notin> dom (ac_replies (as_actor s))"
      "horizon (as_actor s) < wr_operation q" and serving: "as_stage s = Serving" and n: "1 \<le> n" "n \<le> 2"
  shows "replay_inv (s\<lparr>as_actor := record_reply q r a1, as_log := as_log s @ [(wr_operation q, n)]\<rparr>)"
proof -
  let ?op = "wr_operation q" and ?a = "record_reply q r a1" and ?old = "as_actor s"
  have rep: "ac_replies a1 = ac_replies ?old" and hi: "ac_highest a1 = ac_highest ?old"
    using w by (simp_all add: window_def)
  have hi': "ac_highest ?a = max (ac_highest ?old) ?op" by (simp add: record_reply_def Let_def hi)
  have hor: "unat (horizon ?a) = max (unat (ac_highest ?old)) (unat ?op) - 8"
    by (simp add: horizon_unat hi' max_def word_le_nat_alt)
  have above: "horizon ?a < ?op"
    using op(1,3) hor horizon_unat [of ?old] by (auto simp: word_less_nat_alt unat_gt_0 max_def)
  have up: "horizon ?old \<le> horizon ?a"
    using hor horizon_unat [of ?old] by (simp add: word_le_nat_alt)
  have h1: "horizon (a1\<lparr>ac_highest := max (ac_highest a1) ?op\<rparr>) = horizon ?a"
    by (simp add: horizon_def record_reply_def Let_def)
  have dom: "dom (ac_replies ?a) = insert ?op {i \<in> dom (ac_replies ?old). horizon ?a < i}"
    using h1 rep by (auto simp: record_reply_def Let_def dom_def split: if_splits)
  let ?log = "fst ` set (as_log s)"
  have log: "?op \<notin> ?log"
    using inv op(2,3) serving by (fastforce simp: replay_inv_def)
  have kept: "i \<in> dom (ac_replies ?a) \<or> i \<le> horizon ?a" if "i \<in> ?log" for i
  proof (cases "i \<in> dom (ac_replies ?old)")
    case True
    then show ?thesis by (auto simp: dom not_less)
  next
    case False
    then have "i \<le> horizon ?old" using inv serving that by (auto simp: replay_inv_def)
    then show ?thesis using up by (meson order_trans)
  qed
  have range: "i \<in> insert ?op ?log \<and> horizon ?a < i \<and> i \<le> ac_highest ?a" if "i \<in> dom (ac_replies ?a)" for i
  proof (cases "i = ?op")
    case False
    then have "i \<in> dom (ac_replies ?old)" "horizon ?a < i" using that unfolding dom by auto
    then show ?thesis using inv serving by (auto simp: replay_inv_def hi' le_max_iff_disj)
  qed (use above in \<open>simp add: hi'\<close>)
  have "distinct (map fst (as_log s @ [(?op, n)]))" using inv log by (simp add: replay_inv_def)
  moreover have "\<forall>i \<in> insert ?op ?log. i \<in> dom (ac_replies ?a) \<or> i \<le> horizon ?a"
    using kept unfolding dom by simp
  ultimately show ?thesis using inv n range unfolding replay_inv_def by simp
qed

lemma window_final: "final_round ops w remove a = (b, a') \<Longrightarrow> window a' = window a"
  by (cases "actor_cleanup ops w a")
    (auto simp: final_round_def Let_def window_def frame_def keeps_def dest!: keeps_cleanup
      split: sum.splits prod.splits if_splits)

lemma replay_inv_own: "sup_step ops t s s' \<Longrightarrow> replay_inv s \<Longrightarrow> replay_inv s'"
proof (induction rule: sup_step.induct)
  case (served s q env2 deadline r a polled)
  from window_request [OF served.hyps(3)] show ?case
  proof (elim disjE conjE exE)
    assume "polled = 0" "window a = window (as_actor s)"
    with served.prems show ?thesis by (auto intro: replay_inv_window [of _ s])
  next
    fix a1 assume "1 \<le> polled" "polled \<le> 2" "wr_operation q \<notin> dom (ac_replies (as_actor s))"
      "horizon (as_actor s) < wr_operation q" "window a1 = window (as_actor s)" "a = record_reply q r a1"
    with served.prems served.hyps(1,2) show ?thesis using replay_inv_record [of s a1 q polled r] by simp
  qed
next
  case (prepared s env p a)
  have "window (finish_prepare p a) = window a"
    by (simp add: finish_prepare_def Let_def window_def set_phase_def set_server_def)
  then show ?case
    using prepared.prems prepared.hyps(1) keeps_window [OF keeps_prepare [OF prepared.hyps(2)]]
    by (auto intro: replay_inv_window [of _ s])
next
  case (started s env1 r a)
  then show ?case
    using keeps_window [OF keeps_start [OF started.hyps(2)]] by (auto intro: replay_inv_window [of _ s])
next
  case (ticked s alive w)
  then show ?case
    using keeps_window [OF keeps_supervise [of "as_actor s" ops alive w]]
    by (auto intro: replay_inv_window [of _ s])
next
  case (panicked s t a sent)
  have "at_work (as_stage s)" using panicked.hyps(1) by auto
  then show ?case
    using panicked.hyps(3) panicked.prems by (fastforce simp: may_send_def replay_inv_def)
next
  case (unclean s w remove a)
  then show ?case using window_final [OF unclean.hyps(2)] by (auto intro: replay_inv_window [of _ s])
next
  case (finished s w remove a)
  have "window (close_actor a) = window a" by (simp add: close_actor_def window_def set_phase_def set_server_def)
  then show ?case
    using finished.prems window_final [OF finished.hyps(2)] by (auto intro: replay_inv_window [of _ s])
qed (auto simp: window_def intro: replay_inv_window [of _ s for s])

lemma replay_inv_step: "actor_step ops s s' \<Longrightarrow> replay_inv s \<Longrightarrow> replay_inv s'"
  by (induction rule: actor_step.induct)
    (auto simp: raise_stop_def window_def intro: replay_inv_own replay_inv_window [of _ s for s])

lemma replay_inv_init: "newborn a \<Longrightarrow> replay_inv (actor_sys_init a)"
  by (auto simp: replay_inv_def actor_sys_init_def newborn_def actor_new_def)

interpretation replay: invariant_of "\<lambda>s. \<exists>a. newborn a \<and> s = actor_sys_init a" "actor_step ops" replay_inv for ops
  by unfold_locales (auto intro: replay_inv_init replay_inv_step)

text \<open>The window holds at most eight replies.\<close>

lemma window_card:
  assumes "replay_inv s" "at_work (as_stage s)"
  shows "finite (dom (ac_replies (as_actor s))) \<and> card (dom (ac_replies (as_actor s))) \<le> 8"
proof -
  let ?d = "dom (ac_replies (as_actor s))" and ?h = "unat (ac_highest (as_actor s))"
  have "unat ` ?d \<subseteq> {?h - 8 <.. ?h}"
    using assms horizon_unat [of "as_actor s"]
    by (auto simp: replay_inv_def word_less_nat_alt word_le_nat_alt)
  then have "finite (unat ` ?d) \<and> card (unat ` ?d) \<le> 8"
    using card_mono [of "{?h - 8 <.. ?h}" "unat ` ?d"] finite_subset [of "unat ` ?d" "{?h - 8 <.. ?h}"]
    by simp
  moreover have "inj_on unat ?d" by (simp add: inj_on_def word_unat_eq_iff)
  ultimately show ?thesis by (simp add: card_image finite_image_iff)
qed

subsection \<open>Ownership\<close>

text \<open>
  The status is truthful as long as requests are served, and a supervisor is closed exactly when it has
  ended, with no process, no preparation step and no cache session left, whatever state a panic left
  the last loop to clean up.
\<close>

definition owns_nothing :: "'s actor \<Rightarrow> bool" where
  "owns_nothing a \<longleftrightarrow> ac_process a = None \<and> ac_preparation a = None \<and> ac_cache a = None"

definition owner_inv :: "'s actor_sys \<Rightarrow> bool" where
  "owner_inv s \<longleftrightarrow>
     (at_work (as_stage s) \<longrightarrow> truthful (as_actor s))
     \<and> (wst_closed (ac_state (as_actor s)) \<longleftrightarrow> as_stage s = Ended)
     \<and> (as_stage s = Ended \<longrightarrow> owns_nothing (as_actor s) \<and> \<not> is_running (as_actor s))"

lemma truthful_request:
  assumes "actor_request ops env q deadline a = (r, a', polled)" "truthful a"
  shows "truthful a' \<and> wst_closed (ac_state a') = wst_closed (ac_state a)"
proof -
  obtain x b a1 where d: "actor_dispatch ops q (rn_dispatch_now env) deadline (rn_first env) (rn_second env) a = (x, b, a1)"
    by (metis prod_cases3)
  have k: "truthful a1 \<and> wst_closed (ac_state a1) = wst_closed (ac_state a)"
    using keeps_dispatch [OF d] assms(2) by (auto simp: keeps_def frame_def)
  have rr: "truthful (record_reply q x a1) = truthful a1 \<and> ac_state (record_reply q x a1) = ac_state a1"
    by (simp add: record_reply_def Let_def truthful_def is_running_def)
  show ?thesis
    using assms k rr by (auto simp: actor_request_def d split: if_splits option.splits)
qed

lemma final_round_owns:
  assumes "final_round ops w remove a = (b, a')"
  shows "wst_closed (ac_state a') = wst_closed (ac_state a) \<and> (b \<longrightarrow> owns_nothing a' \<and> \<not> is_running a')"
proof -
  obtain x a1 where c: "actor_cleanup ops w a = (x, a1)" by (metis surj_pair)
  have k: "wst_closed (ac_state a1) = wst_closed (ac_state a)"
    using keeps_cleanup [OF c] by (auto simp: keeps_def frame_def)
  have "x = Inr () \<Longrightarrow> owns_nothing a1 \<and> \<not> is_running a1"
    using cleanup_done [of ops w a "()" a1] c by (simp add: owns_nothing_def)
  then show ?thesis
    using assms(1) k
    by (auto simp: final_round_def c Let_def is_running_def owns_nothing_def
        split: sum.splits prod.splits if_splits)
qed

lemma owner_inv_own: "sup_step ops t s s' \<Longrightarrow> owner_inv s \<Longrightarrow> owner_inv s'"
proof (induction rule: sup_step.induct)
  case (prepared s env p a)
  have "keeps (as_actor s) a" using keeps_prepare [OF prepared.hyps(2)] .
  moreover have "truthful a \<Longrightarrow> truthful (finish_prepare p a)"
      "wst_closed (ac_state (finish_prepare p a)) = wst_closed (ac_state a)"
    by (auto simp: finish_prepare_def Let_def actor_views plan_status_def)
  ultimately show ?case using prepared by (auto simp: owner_inv_def keeps_def frame_def)
next
  case (started s env1 r a)
  then show ?case using keeps_start [OF started.hyps(2)] by (auto simp: owner_inv_def keeps_def frame_def)
next
  case (served s q env2 deadline r a polled)
  then show ?case using truthful_request [OF served.hyps(3)] by (auto simp: owner_inv_def)
next
  case (ticked s alive w)
  then show ?case
    using keeps_supervise [of "as_actor s" ops alive w] by (auto simp: owner_inv_def keeps_def frame_def)
next
  case (panicked s t a sent)
  then show ?case by (auto simp: owner_inv_def unwound_def)
next
  case (unclean s w remove a)
  then show ?case using final_round_owns [OF unclean.hyps(2)] by (auto simp: owner_inv_def)
next
  case (finished s w remove a)
  then have "owns_nothing a" using final_round_owns [OF finished.hyps(2)] by simp
  then show ?case
    by (simp add: owner_inv_def close_actor_def owns_nothing_def is_running_def set_phase_def set_server_def)
qed (auto simp: owner_inv_def truthful_def is_running_def owns_nothing_def)

lemma owner_inv_told: "owner_inv s \<Longrightarrow> owner_inv (raise_stop s)"
  by (simp add: raise_stop_def owner_inv_def truthful_def is_running_def owns_nothing_def)

lemma owner_inv_step: "actor_step ops s s' \<Longrightarrow> owner_inv s \<Longrightarrow> owner_inv s'"
  by (induction rule: actor_step.induct) (auto intro: owner_inv_own owner_inv_told)

text \<open>Once ended, a supervisor stays so; none of its steps touches the stop flag.\<close>

lemma ended_stays: "sup_step ops t s s' \<Longrightarrow> as_stage s = Ended \<Longrightarrow> as_stage s' = Ended"
  by (induction rule: sup_step.induct) auto

lemma stop_flag_request:
  "actor_request ops env q deadline a = (r, a', polled) \<Longrightarrow> ac_stop a' = ac_stop a"
  by (cases "actor_dispatch ops q (rn_dispatch_now env) deadline (rn_first env) (rn_second env) a")
    (auto simp: actor_request_def record_reply_def Let_def keeps_def frame_def dest!: keeps_dispatch
      split: if_splits option.splits)

lemma stop_flag_final: "final_round ops w remove a = (b, a') \<Longrightarrow> ac_stop a' = ac_stop a"
  by (cases "actor_cleanup ops w a")
    (auto simp: final_round_def Let_def frame_def keeps_def dest!: keeps_cleanup
      split: sum.splits prod.splits if_splits)

lemma stop_flag_own: "sup_step ops t s s' \<Longrightarrow> ac_stop (as_actor s') = ac_stop (as_actor s)"
proof (induction rule: sup_step.induct)
  case (prepared s env p a)
  then show ?case using keeps_prepare [OF prepared.hyps(2)]
    by (simp add: keeps_def frame_def finish_prepare_def Let_def set_phase_def set_server_def)
next
  case (started s env1 r a)
  then show ?case using keeps_start [OF started.hyps(2)] by (simp add: keeps_def frame_def)
next
  case (ticked s alive w)
  then show ?case using keeps_supervise [of "as_actor s" ops alive w] by (simp add: keeps_def frame_def)
next
  case (panicked s t a sent)
  then show ?case by (simp add: unwound_def)
qed (auto simp: close_actor_def set_phase_def set_server_def dest: stop_flag_request stop_flag_final)

lemma owner_inv_init: "newborn a \<Longrightarrow> owner_inv (actor_sys_init a)"
  by (auto simp: owner_inv_def actor_sys_init_def newborn_def actor_new_def worker_state_new_def
      server_status_disabled_def truthful_def is_running_def)

interpretation owner: invariant_of "\<lambda>s. \<exists>a. newborn a \<and> s = actor_sys_init a" "actor_step ops" owner_inv for ops
  by unfold_locales (auto intro: owner_inv_init owner_inv_step)

end
