(* ===== verification/Worker_Manager.thy ===== *)
theory Worker_Manager
  imports Worker_Actor
begin

text \<open>
  The manager of persistent workers: \<open>crates/tinyruntime/src/worker/mod.rs\<close>.  Each public call is
  cut where it gives the book's lock back: the locked part is a function on the book, and what the
  call sees afterwards (snapshots of the watched state, the supervisor's reply, the book as others
  left it) is an argument of the whole call.  The step relation \<open>manager_step\<close> interleaves the
  locked parts with the supervisors of \<open>Worker_Actor\<close>.  Its invariant says that at most sixteen
  workers are ever alive, that no supervisor outlives its slot, and that a finished stop or shutdown
  has left none of the supervisors it waited for.
\<close>

subsection \<open>State\<close>

definition CAPACITY :: nat where "CAPACITY = 16"
definition QUEUE :: nat where "QUEUE = 8"
definition RESERVATION_LIFETIME :: duration where "RESERVATION_LIFETIME = dur_from_secs 30"

text \<open>A command in the queue; the reply channel is the caller's and is not part of it.\<close>

datatype worker_cmd = CmdStart | CmdRequest worker_request instant

text \<open>
  A slot: what its two watch channels hold, and, once it is prepared, its queue.
\<close>

record slot =
  sl_reserved_at :: instant
  sl_plan :: "worker_plan option"
  sl_cached :: "cached option"
  sl_commands :: "worker_cmd list option"
  sl_stop :: bool
  sl_state :: worker_state

type_synonym slots = "(worker_handle \<times> slot) list"

record book =
  bk_nonce :: string
  bk_issued :: u64
  bk_terminal :: bool
  bk_slots :: slots

record manager =
  mg_root :: string
  mg_scopes :: "(string \<times> string) list"
  mg_spawner :: "spawner option"

definition book_new :: "string \<Rightarrow> book" where
  "book_new nonce = \<lparr>bk_nonce = nonce, bk_issued = 0, bk_terminal = False, bk_slots = []\<rparr>"

definition manager_new :: "string \<Rightarrow> manager" where
  "manager_new root = \<lparr>mg_root = root, mg_scopes = [], mg_spawner = None\<rparr>"

definition with_spawner :: "spawner \<Rightarrow> manager \<Rightarrow> manager" where
  "with_spawner sp m = m\<lparr>mg_spawner := Some sp\<rparr>"

definition with_cache_scopes ::
  "string option \<Rightarrow> worker_cache_scope list \<Rightarrow> manager \<Rightarrow> string + manager" where
  "with_cache_scopes home ss m =
     (case validate_scopes home ss of
        Inl e \<Rightarrow> Inl e
      | Inr _ \<Rightarrow> Inr (m\<lparr>mg_scopes := map (\<lambda>s. (cs_id s, cs_root s)) ss\<rparr>))"

definition expired :: "instant \<Rightarrow> slot \<Rightarrow> bool" where
  "expired now sl \<longleftrightarrow> sl_plan sl = None \<and> RESERVATION_LIFETIME \<le> elapsed now (sl_reserved_at sl)"

definition put_slot :: "worker_handle \<Rightarrow> slot \<Rightarrow> slots \<Rightarrow> slots" where
  "put_slot h sl = map (\<lambda>(k, x). (k, if k = h then sl else x))"

definition drop_slot :: "worker_handle \<Rightarrow> slots \<Rightarrow> slots" where
  "drop_slot h = filter (\<lambda>(k, _). k \<noteq> h)"

subsection \<open>Reservation\<close>

definition handle_of :: "string \<Rightarrow> u64 \<Rightarrow> worker_handle" where
  "handle_of nonce n = WorkerHandle (nonce @ '':'' @ u64_to_string n)"

definition slot_new :: "instant \<Rightarrow> slot" where
  "slot_new now =
     \<lparr>sl_reserved_at = now, sl_plan = None, sl_cached = None, sl_commands = None, sl_stop = False,
      sl_state = worker_state_new Reserved\<rparr>"

definition retained :: "instant \<Rightarrow> slots \<Rightarrow> slots" where
  "retained now =
     filter (\<lambda>(_, sl). \<not> wst_closed (sl_state sl)
               \<and> (sl_plan sl \<noteq> None \<or> elapsed now (sl_reserved_at sl) < RESERVATION_LIFETIME))"

definition manager_reserve :: "instant \<Rightarrow> book \<Rightarrow> (worker_outcome + worker_handle) \<times> book" where
  "manager_reserve now b =
     (if bk_terminal b then (Inl (outcome OClosed (Some ''manager_shutdown'')), b)
      else let b1 = b\<lparr>bk_slots := retained now (bk_slots b)\<rparr>
      in if CAPACITY \<le> length (bk_slots b1) then (Inl (outcome OBusy (Some ''worker_capacity'')), b1)
      else case checked_add_one (bk_issued b1) of
             None \<Rightarrow> (Inl (outcome OFailed (Some ''identity_exhausted'')), b1)
           | Some n \<Rightarrow>
               (let h = handle_of (bk_nonce b1) n
                in (Inr h, b1\<lparr>bk_issued := n, bk_slots := (h, slot_new now) # bk_slots b1\<rparr>)))"

definition missing :: "book \<Rightarrow> worker_handle \<Rightarrow> worker_outcome" where
  "missing b h =
     (let known = (case strip_prefix (bk_nonce b @ '':'') (handle_id h) of
                     None \<Rightarrow> False
                   | Some s \<Rightarrow>
                       (case parse_u64 s of None \<Rightarrow> False | Some n \<Rightarrow> 0 < n \<and> n \<le> bk_issued b))
      in outcome (if known then OClosed else OUnknown) None)"

subsection \<open>Preparing\<close>

definition worker_root :: "manager \<Rightarrow> worker_handle \<Rightarrow> string" where
  "worker_root m h = path_join (mg_root m) (replace_char (CHR '':'') (CHR ''_'') (handle_id h))"

text \<open>
  The locked part: an outcome, or whether a supervisor has to be spawned for the slot.
\<close>

definition prepare_locked ::
  "instant \<Rightarrow> worker_handle \<Rightarrow> worker_plan \<Rightarrow> cached option \<Rightarrow> book \<Rightarrow> (worker_outcome + bool) \<times> book" where
  "prepare_locked now h plan ch b =
     (if bk_terminal b then (Inl (outcome OClosed (Some ''manager_shutdown'')), b)
      else case map_of (bk_slots b) h of
             None \<Rightarrow> (Inl (missing b h), b)
           | Some sl \<Rightarrow>
               if wst_closed (sl_state sl) \<or> sl_stop sl then (Inl (outcome OClosed None), b)
               else (case sl_plan sl of
                  Some p \<Rightarrow>
                    if p \<noteq> plan \<or> sl_cached sl \<noteq> ch
                    then (Inl (outcome OInvalid (Some ''plan_conflict'')), b)
                    else (Inr False, b)
                | None \<Rightarrow>
                    if RESERVATION_LIFETIME \<le> elapsed now (sl_reserved_at sl)
                    then (Inl (outcome OClosed (Some ''reservation_expired'')), b)
                    else (Inr True,
                          b\<lparr>bk_slots := put_slot h (sl\<lparr>sl_plan := Some plan, sl_cached := ch,
                              sl_commands := Some [], sl_state := worker_state_new Preparing\<rparr>) (bk_slots b)\<rparr>)))"

text \<open>The snapshots are what the watch yields in turn; its end means that every sender is gone.\<close>

fun await_prepared :: "worker_state list \<Rightarrow> worker_outcome" where
  "await_prepared [] = outcome OFailed (Some ''supervisor_closed'')"
| "await_prepared (s # ss) =
     (if wst_closed s then outcome OClosed None
      else case wst_prepared s of Some p \<Rightarrow> p | None \<Rightarrow> await_prepared ss)"

definition manager_prepare_inner ::
  "instant \<Rightarrow> worker_state list \<Rightarrow> worker_prepare \<Rightarrow> cached option \<Rightarrow> book \<Rightarrow> worker_outcome \<times> book" where
  "manager_prepare_inner now snaps req ch b =
     (case validate_plan (wpr_plan req) of
        Inl reason \<Rightarrow> (outcome OInvalid (Some reason), b)
      | Inr _ \<Rightarrow>
          (case prepare_locked now (wpr_handle req) (wpr_plan req) ch b of
             (Inl o', b1) \<Rightarrow> (o', b1)
           | (Inr _, b1) \<Rightarrow> (await_prepared snaps, b1)))"

definition manager_prepare ::
  "instant \<Rightarrow> worker_state list \<Rightarrow> worker_prepare \<Rightarrow> book \<Rightarrow> worker_outcome \<times> book" where
  "manager_prepare now snaps req b = manager_prepare_inner now snaps req None b"

definition manager_prepare_cached ::
  "manager \<Rightarrow> instant \<Rightarrow> worker_state list \<Rightarrow> worker_prepare_cached \<Rightarrow> book \<Rightarrow> worker_outcome \<times> book" where
  "manager_prepare_cached m now snaps req b =
     (case validate_recipe (wpc_recipe req) of
        Inl reason \<Rightarrow> (outcome OInvalid (Some reason), b)
      | Inr _ \<Rightarrow>
          (case map_of (mg_scopes m) (cr_scope (wpc_recipe req)) of
             None \<Rightarrow> (outcome OInvalid (Some ''cache_scope_unapproved''), b)
           | Some root \<Rightarrow>
               manager_prepare_inner now snaps
                 \<lparr>wpr_handle = wpc_handle req, wpr_plan = wpc_plan req\<rparr>
                 (Some \<lparr>ch_recipe = wpc_recipe req, ch_root = root\<rparr>) b))"

subsection \<open>Commands\<close>

definition submit_locked ::
  "instant \<Rightarrow> worker_handle \<Rightarrow> worker_cmd \<Rightarrow> bool \<Rightarrow> book \<Rightarrow> worker_outcome option \<times> book" where
  "submit_locked now h c receiving b =
     (if bk_terminal b then (Some (outcome OClosed (Some ''manager_shutdown'')), b)
      else case map_of (bk_slots b) h of
             None \<Rightarrow> (Some (missing b h), b)
           | Some sl \<Rightarrow>
               if expired now sl then (Some (outcome OClosed (Some ''reservation_expired'')), b)
               else if sl_stop sl \<or> wst_closed (sl_state sl) then (Some (outcome OClosed None), b)
               else (case sl_commands sl of
                  None \<Rightarrow> (Some (outcome OInvalid (Some ''not_prepared'')), b)
                | Some q \<Rightarrow>
                    if QUEUE \<le> length q \<or> \<not> receiving
                    then (Some (outcome OBusy (Some ''worker_queue'')), b)
                    else (None, b\<lparr>bk_slots := put_slot h (sl\<lparr>sl_commands := Some (q @ [c])\<rparr>) (bk_slots b)\<rparr>)))"

text \<open>The reply is \<open>None\<close> when the supervisor dropped the reply channel.\<close>

definition manager_submit ::
  "instant \<Rightarrow> worker_handle \<Rightarrow> worker_cmd \<Rightarrow> bool \<Rightarrow> worker_outcome option \<Rightarrow> book \<Rightarrow> worker_outcome \<times> book" where
  "manager_submit now h c receiving reply b =
     (case submit_locked now h c receiving b of
        (Some o', b1) \<Rightarrow> (o', b1)
      | (None, b1) \<Rightarrow>
          (case reply of
             Some r \<Rightarrow> r
           | None \<Rightarrow> outcome OClosed (Some ''supervisor_closed''), b1))"

definition manager_start ::
  "instant \<Rightarrow> worker_handle \<Rightarrow> bool \<Rightarrow> worker_outcome option \<Rightarrow> book \<Rightarrow> worker_outcome \<times> book" where
  "manager_start now h receiving reply b = manager_submit now h CmdStart receiving reply b"

text \<open>
  How the submission inside the request's deadline ends: it submits at some instant to the book as
  it is then and gets the reply, or the deadline passes first, before or after the command was
  queued.
\<close>

record submit_answers =
  sa_now :: instant
  sa_receiving :: bool
  sa_reply :: "worker_outcome option"
  sa_timed_out :: bool
  sa_queued :: bool

definition request_deadline ::
  "instant \<Rightarrow> worker_handle \<Rightarrow> book \<Rightarrow> worker_outcome + instant" where
  "request_deadline now h b =
     (case map_of (bk_slots b) h of
        None \<Rightarrow> Inl (missing b h)
      | Some sl \<Rightarrow>
          if expired now sl then Inl (outcome OClosed (Some ''reservation_expired''))
          else (case sl_plan sl of
                  None \<Rightarrow> Inl (outcome OInvalid (Some ''not_prepared''))
                | Some plan \<Rightarrow> Inr (now + dur_from_millis (wp_request_timeout_ms plan))))"

definition manager_request ::
  "(server_request \<Rightarrow> string list) \<Rightarrow> instant \<Rightarrow> (book \<Rightarrow> book) \<Rightarrow> submit_answers \<Rightarrow> worker_request \<Rightarrow> book
     \<Rightarrow> worker_outcome \<times> book" where
  "manager_request serialise now meanwhile sa r b =
     (case validate_request serialise r of
        Inl reason \<Rightarrow> (outcome OInvalid (Some reason), b)
      | Inr _ \<Rightarrow>
          (case request_deadline now (wr_handle r) b of
             Inl o' \<Rightarrow> (o', b)
           | Inr deadline \<Rightarrow>
               if sa_timed_out sa \<and> \<not> sa_queued sa
               then (outcome OFailed (Some ''request_timeout''), meanwhile b)
               else (case manager_submit (sa_now sa) (wr_handle r) (CmdRequest r deadline) (sa_receiving sa)
                       (sa_reply sa) (meanwhile b) of
                  (o', b1) \<Rightarrow>
                    (if sa_timed_out sa then outcome OFailed (Some ''request_timeout'') else o', b1))))"

definition manager_status :: "instant \<Rightarrow> worker_handle \<Rightarrow> book \<Rightarrow> worker_outcome + worker_status" where
  "manager_status now h b =
     (case map_of (bk_slots b) h of
        None \<Rightarrow> Inl (missing b h)
      | Some sl \<Rightarrow> if expired now sl then Inl (missing b h) else Inr (wst_status (sl_state sl)))"

subsection \<open>Stopping\<close>

definition stopped :: "slot \<Rightarrow> slot" where
  "stopped sl = sl\<lparr>sl_state := (sl_state sl)\<lparr>wst_cleanup_failed := False\<rparr>, sl_stop := True\<rparr>"

text \<open>\<open>None\<close>: the call goes on to wait for the supervisor.\<close>

definition stop_locked :: "worker_handle \<Rightarrow> book \<Rightarrow> worker_outcome option \<times> book" where
  "stop_locked h b =
     (case map_of (bk_slots b) h of
        None \<Rightarrow> (Some (missing b h), b)
      | Some sl \<Rightarrow>
          if sl_commands sl = None
          then (Some (outcome OComplete None), b\<lparr>bk_slots := drop_slot h (bk_slots b)\<rparr>)
          else (None, b\<lparr>bk_slots := put_slot h (stopped sl) (bk_slots b)\<rparr>))"

fun wait_closed :: "worker_state list \<Rightarrow> bool" where
  "wait_closed [] = False"
| "wait_closed (s # ss) =
     (if wst_closed s then True else if wst_cleanup_failed s then False else wait_closed ss)"

definition stop_finish :: "worker_handle \<Rightarrow> book \<Rightarrow> book" where
  "stop_finish h b = b\<lparr>bk_slots := drop_slot h (bk_slots b)\<rparr>"

definition manager_stop ::
  "worker_state list \<Rightarrow> (book \<Rightarrow> book) \<Rightarrow> worker_handle \<Rightarrow> book \<Rightarrow> worker_outcome \<times> book" where
  "manager_stop snaps meanwhile h b =
     (case stop_locked h b of
        (Some o', b1) \<Rightarrow> (o', b1)
      | (None, b1) \<Rightarrow>
          if \<not> wait_closed snaps then (outcome OFailed (Some ''cleanup_failed''), meanwhile b1)
          else (outcome OComplete None, stop_finish h (meanwhile b1)))"

text \<open>The handles whose supervisors the shutdown waits for.\<close>

definition shutdown_locked :: "book \<Rightarrow> worker_handle list \<times> book" where
  "shutdown_locked b =
     (map fst (filter (\<lambda>(_, sl). sl_commands sl \<noteq> None) (bk_slots b)),
      b\<lparr>bk_terminal := True, bk_slots := map (\<lambda>(h, sl). (h, stopped sl)) (bk_slots b)\<rparr>)"

definition shutdown_finish :: "book \<Rightarrow> book" where
  "shutdown_finish b = b\<lparr>bk_slots := []\<rparr>"

definition manager_shutdown ::
  "(worker_handle \<Rightarrow> worker_state list) \<Rightarrow> (book \<Rightarrow> book) \<Rightarrow> book \<Rightarrow> worker_outcome \<times> book" where
  "manager_shutdown snaps meanwhile b =
     (case shutdown_locked b of
        (hs, b1) \<Rightarrow>
          if list_all (\<lambda>h. wait_closed (snaps h)) hs
          then (outcome OComplete None, shutdown_finish (meanwhile b1))
          else (outcome OFailed (Some ''cleanup_failed''), meanwhile b1))"

subsection \<open>The manager with its supervisors\<close>

text \<open>
  The supervisors ever spawned, by handle; the handle lists of the shutdowns that are waiting; and
  which stops and whether a shutdown has answered that it is complete.
\<close>

record 's sys =
  sy_book :: book
  sy_sups :: "(worker_handle \<times> 's actor_sys) list"
  sy_waiting :: "worker_handle list list"
  sy_stopped :: "worker_handle list"
  sy_down :: bool

text \<open>A supervisor's step writes the watched state of its slot.\<close>

definition publish_state :: "worker_handle \<Rightarrow> worker_state \<Rightarrow> slots \<Rightarrow> slots" where
  "publish_state h st = map (\<lambda>(k, sl). (k, if k = h then sl\<lparr>sl_state := st\<rparr> else sl))"

definition put_sup ::
  "worker_handle \<Rightarrow> 's actor_sys \<Rightarrow> (worker_handle \<times> 's actor_sys) list \<Rightarrow> (worker_handle \<times> 's actor_sys) list" where
  "put_sup h a = map (\<lambda>(k, x). (k, if k = h then a else x))"

definition advance :: "worker_handle \<Rightarrow> 's actor_sys \<Rightarrow> 's sys \<Rightarrow> 's sys" where
  "advance h a s =
     s\<lparr>sy_sups := put_sup h a (sy_sups s),
       sy_book := (sy_book s)\<lparr>bk_slots :=
         publish_state h (ac_state (as_actor a)) (bk_slots (sy_book s))\<rparr>\<rparr>"

text \<open>Raising the stop flag of a slot is seen by its supervisor, if it has one.\<close>

definition tell :: "(worker_handle \<Rightarrow> bool) \<Rightarrow> 's sys \<Rightarrow> 's sys" where
  "tell P s =
     s\<lparr>sy_sups := map (\<lambda>(k, a). (k, if P k \<and> k \<in> fst ` set (bk_slots (sy_book s)) then raise_stop a else a))
         (sy_sups s)\<rparr>"

fun takes :: "worker_cmd list \<Rightarrow> taken \<Rightarrow> worker_cmd list \<Rightarrow> bool" where
  "takes q TakenNone q' \<longleftrightarrow> q' = q"
| "takes q TakenStart q' \<longleftrightarrow> q = CmdStart # q'"
| "takes q (TakenRequest r d) q' \<longleftrightarrow> q = CmdRequest r d # q'"

definition closed_in :: "'s sys \<Rightarrow> worker_handle \<Rightarrow> bool" where
  "closed_in s h \<longleftrightarrow>
     (case map_of (sy_sups s) h of None \<Rightarrow> False | Some a \<Rightarrow> wst_closed (ac_state (as_actor a)))"

inductive manager_step :: "'s dir_ops \<Rightarrow> manager \<Rightarrow> 's sys \<Rightarrow> 's sys \<Rightarrow> bool" for ops m where
  reserve: "manager_reserve now (sy_book s) = (r, b) \<Longrightarrow> manager_step ops m s (s\<lparr>sy_book := b\<rparr>)"
| prepare_known: "prepare_locked now h plan ch (sy_book s) = (r, b) \<Longrightarrow> r \<noteq> Inr True \<Longrightarrow>
    manager_step ops m s (s\<lparr>sy_book := b\<rparr>)"
| prepare_spawn: "validate_plan plan = Inr () \<Longrightarrow>
    prepare_locked now h plan ch (sy_book s) = (Inr True, b) \<Longrightarrow>
    manager_step ops m s (s\<lparr>sy_book := b,
      sy_sups := (h, actor_sys_init (actor_new plan (worker_root m h) ch (mg_spawner m) born d)) # sy_sups s\<rparr>)"
| submit: "submit_locked now h c receiving (sy_book s) = (r, b) \<Longrightarrow> manager_step ops m s (s\<lparr>sy_book := b\<rparr>)"
| supervisor: "map_of (sy_sups s) h = Some a \<Longrightarrow> map_of (bk_slots (sy_book s)) h = Some sl \<Longrightarrow>
    sl_commands sl = Some q \<Longrightarrow> sup_step ops t a a' \<Longrightarrow> takes q t q' \<Longrightarrow>
    manager_step ops m s
      (advance h a' (s\<lparr>sy_book := (sy_book s)\<lparr>bk_slots :=
         put_slot h (sl\<lparr>sl_commands := Some q'\<rparr>) (bk_slots (sy_book s))\<rparr>\<rparr>))"
| orphan: "map_of (sy_sups s) h = Some a \<Longrightarrow> map_of (bk_slots (sy_book s)) h = None \<Longrightarrow>
    sup_step ops t a a' \<Longrightarrow> manager_step ops m s (advance h a' s)"
| stop_begin: "stop_locked h (sy_book s) = (r, b) \<Longrightarrow>
    manager_step ops m s ((tell (\<lambda>k. k = h) s)\<lparr>sy_book := b,
      sy_stopped := (if r = Some (outcome OComplete None) then h # sy_stopped s else sy_stopped s)\<rparr>)"
| stop_end: "closed_in s h \<Longrightarrow>
    manager_step ops m s (s\<lparr>sy_book := stop_finish h (sy_book s), sy_stopped := h # sy_stopped s\<rparr>)"
| shutdown_begin: "shutdown_locked (sy_book s) = (hs, b) \<Longrightarrow>
    manager_step ops m s ((tell (\<lambda>k. True) s)\<lparr>sy_book := b, sy_waiting := hs # sy_waiting s\<rparr>)"
| shutdown_end: "hs \<in> set (sy_waiting s) \<Longrightarrow> list_all (closed_in s) hs \<Longrightarrow>
    manager_step ops m s (s\<lparr>sy_book := shutdown_finish (sy_book s), sy_down := True\<rparr>)"

definition sys_init :: "string \<Rightarrow> 's sys" where
  "sys_init nonce =
     \<lparr>sy_book = book_new nonce, sy_sups = [], sy_waiting = [], sy_stopped = [], sy_down = False\<rparr>"

abbreviation manager_reachable :: "'s dir_ops \<Rightarrow> manager \<Rightarrow> string \<Rightarrow> 's sys \<Rightarrow> bool" where
  "manager_reachable ops m nonce \<equiv> reach (\<lambda>s. s = sys_init nonce) (manager_step ops m)"

subsection \<open>Looking up\<close>

declare map_of_eq_Some_iff [simp del]

lemma fst_put_slot [simp]: "map fst (put_slot h sl ss) = map fst ss"
  by (simp add: put_slot_def comp_def case_prod_beta)

lemma fst_put_sup [simp]: "map fst (put_sup h a ss) = map fst ss"
  by (simp add: put_sup_def comp_def case_prod_beta)

lemma fst_publish [simp]: "map fst (publish_state h st ss) = map fst ss"
  by (simp add: publish_state_def comp_def case_prod_beta)

lemma fst_map_val [simp]: "map (fst \<circ> (\<lambda>(h, x). (h, f h x))) xs = map fst xs"
  by (simp add: comp_def case_prod_beta)

lemma length_put_slot [simp]: "length (put_slot h sl ss) = length ss"
  by (simp add: put_slot_def)

lemma length_publish [simp]: "length (publish_state h st ss) = length ss"
  by (simp add: publish_state_def)

lemma map_of_map_val: "map_of (map (\<lambda>(k, x). (k, f k x)) xs) h = map_option (f h) (map_of xs h)"
  by (induction xs) auto

lemma map_of_put_slot [simp]:
  "map_of (put_slot h sl ss) k = (if k = h \<and> map_of ss h \<noteq> None then Some sl else map_of ss k)"
  unfolding put_slot_def map_of_map_val by (cases "map_of ss k") auto

lemma map_of_put_sup [simp]:
  "map_of (put_sup h a ss) k = (if k = h \<and> map_of ss h \<noteq> None then Some a else map_of ss k)"
  unfolding put_sup_def map_of_map_val by (cases "map_of ss k") auto

lemma map_of_publish [simp]:
  "map_of (publish_state h st ss) k = map_option (\<lambda>sl. if k = h then sl\<lparr>sl_state := st\<rparr> else sl) (map_of ss k)"
  unfolding publish_state_def map_of_map_val by simp

lemma map_of_drop_slot [simp]: "map_of (drop_slot h ss) k = (if k = h then None else map_of ss k)"
  by (induction ss) (auto simp: drop_slot_def)

lemma map_of_filter_distinct:
  "distinct (map fst xs) \<Longrightarrow>
   map_of (filter P xs) h = (case map_of xs h of None \<Rightarrow> None | Some v \<Rightarrow> if P (h, v) then Some v else None)"
proof (induction xs)
  case (Cons x xs)
  then show ?case
    by (cases x) (auto split: option.splits dest!: map_of_SomeD simp: image_iff)
qed simp

lemma keys_map_of: "h \<in> fst ` set ss \<longleftrightarrow> map_of ss h \<noteq> None"
  by (metis map_of_eq_None_iff)

subsection \<open>The book\<close>

definition issued_by :: "book \<Rightarrow> worker_handle \<Rightarrow> bool" where
  "issued_by b h \<longleftrightarrow> (\<exists>n. 0 < n \<and> n \<le> bk_issued b \<and> h = handle_of (bk_nonce b) n)"

definition slot_wf :: "slot \<Rightarrow> bool" where
  "slot_wf sl \<longleftrightarrow>
     (case sl_commands sl of
        None \<Rightarrow> sl_plan sl = None \<and> \<not> wst_closed (sl_state sl)
      | Some q \<Rightarrow> sl_plan sl \<noteq> None \<and> length q \<le> QUEUE)"

definition book_inv :: "book \<Rightarrow> bool" where
  "book_inv b \<longleftrightarrow>
     distinct (map fst (bk_slots b)) \<and> length (bk_slots b) \<le> CAPACITY
     \<and> (\<forall>h sl. map_of (bk_slots b) h = Some sl \<longrightarrow> issued_by b h \<and> slot_wf sl)"

lemma handle_of_inj: "handle_of nonce m = handle_of nonce n \<Longrightarrow> m = n"
  by (auto simp: handle_of_def dest: u64_to_string_inj)

lemma issued_next:
  assumes "checked_add_one (bk_issued b) = Some n"
  shows "\<not> issued_by b (handle_of (bk_nonce b) n)"
    and "issued_by (b\<lparr>bk_issued := n, bk_slots := ss\<rparr>) (handle_of (bk_nonce b) n)"
    and "issued_by b h \<Longrightarrow> issued_by (b\<lparr>bk_issued := n, bk_slots := ss\<rparr>) h"
proof -
  have n: "unat n = unat (bk_issued b) + 1" using assms checked_add_one_Some by blast
  show "\<not> issued_by b (handle_of (bk_nonce b) n)"
    using n by (auto simp: issued_by_def word_le_nat_alt dest!: handle_of_inj)
  show "issued_by (b\<lparr>bk_issued := n, bk_slots := ss\<rparr>) (handle_of (bk_nonce b) n)"
    using n unat_gt_0 [of n] word_neq_0_conv [of n] by (force simp: issued_by_def)
  show "issued_by b h \<Longrightarrow> issued_by (b\<lparr>bk_issued := n, bk_slots := ss\<rparr>) h"
    using n by (auto simp: issued_by_def word_le_nat_alt)
qed

lemma issued_by_slots [simp]:
  "issued_by (b\<lparr>bk_slots := ss\<rparr>) h = issued_by b h"
  "issued_by (b\<lparr>bk_terminal := t\<rparr>) h = issued_by b h"
  by (simp_all add: issued_by_def)

text \<open>The slots after a change of one of them, or after dropping some.\<close>

lemma book_inv_put:
  "book_inv b \<Longrightarrow> map_of (bk_slots b) h = Some sl0 \<Longrightarrow> slot_wf sl \<Longrightarrow>
   book_inv (b\<lparr>bk_slots := put_slot h sl (bk_slots b)\<rparr>)"
  by (auto simp: book_inv_def)

lemma book_inv_filter: "book_inv b \<Longrightarrow> book_inv (b\<lparr>bk_slots := filter P (bk_slots b)\<rparr>)"
  by (auto simp: book_inv_def distinct_map_filter map_of_filter_distinct intro: le_trans [OF length_filter_le]
      split: option.splits if_splits)

lemma book_inv_retained: "book_inv b \<Longrightarrow> book_inv (b\<lparr>bk_slots := retained now (bk_slots b)\<rparr>)"
  unfolding retained_def by (rule book_inv_filter)

lemma book_inv_drop: "book_inv b \<Longrightarrow> book_inv (b\<lparr>bk_slots := drop_slot h (bk_slots b)\<rparr>)"
  unfolding drop_slot_def by (rule book_inv_filter)

lemma book_inv_reserve:
  assumes "manager_reserve now b = (r, b')" "book_inv b"
  shows "book_inv b'"
proof -
  define b1 where "b1 = b\<lparr>bk_slots := retained now (bk_slots b)\<rparr>"
  have i1: "book_inv b1" using assms(2) by (simp add: b1_def book_inv_retained)
  show ?thesis
  proof (cases "bk_terminal b \<or> CAPACITY \<le> length (bk_slots b1) \<or> checked_add_one (bk_issued b1) = None")
    case True
    then show ?thesis
      using assms i1 by (auto simp: manager_reserve_def b1_def [symmetric] Let_def split: if_splits)
  next
    case False
    then obtain n where n: "checked_add_one (bk_issued b1) = Some n" by auto
    let ?h = "handle_of (bk_nonce b1) n"
    have b': "b' = b1\<lparr>bk_issued := n, bk_slots := (?h, slot_new now) # bk_slots b1\<rparr>"
      using assms(1) False n by (auto simp: manager_reserve_def b1_def [symmetric] Let_def)
    have "?h \<notin> fst ` set (bk_slots b1)"
      using i1 issued_next(1) [OF n] unfolding keys_map_of book_inv_def by blast
    then show ?thesis
      using i1 False issued_next(2,3) [OF n]
      by (auto simp: b' book_inv_def slot_wf_def slot_new_def worker_state_new_def)
  qed
qed

lemma book_inv_prepare: "prepare_locked now h plan ch b = (r, b') \<Longrightarrow> book_inv b \<Longrightarrow> book_inv b'"
  by (auto simp: prepare_locked_def slot_wf_def split: if_splits option.splits intro!: book_inv_put)

lemma book_inv_submit: "submit_locked now h c receiving b = (r, b') \<Longrightarrow> book_inv b \<Longrightarrow> book_inv b'"
proof -
  assume *: "submit_locked now h c receiving b = (r, b')" "book_inv b"
  have "slot_wf (sl\<lparr>sl_commands := Some (q @ [c])\<rparr>)"
    if "map_of (bk_slots b) h = Some sl" "sl_commands sl = Some q" "\<not> QUEUE \<le> length q" for sl q
    using that *(2) by (auto simp: book_inv_def slot_wf_def split: option.splits)
  then show ?thesis
    using * by (auto simp: submit_locked_def split: if_splits option.splits intro!: book_inv_put)
qed

lemma slot_wf_stopped [simp]: "slot_wf (stopped sl) = slot_wf sl"
  by (cases sl) (simp add: slot_wf_def stopped_def split: option.splits)

lemma book_inv_stop: "stop_locked h b = (r, b') \<Longrightarrow> book_inv b \<Longrightarrow> book_inv b'"
  by (auto simp: stop_locked_def book_inv_drop book_inv_put split: if_splits option.splits)
    (auto simp: book_inv_def intro!: book_inv_put [unfolded book_inv_def])

lemma book_inv_shutdown: "shutdown_locked b = (hs, b') \<Longrightarrow> book_inv b \<Longrightarrow> book_inv b'"
  by (auto simp: shutdown_locked_def book_inv_def map_of_map_val)

subsection \<open>The whole system\<close>

abbreviation slot_at :: "'s sys \<Rightarrow> worker_handle \<Rightarrow> slot option" where
  "slot_at s \<equiv> map_of (bk_slots (sy_book s))"

abbreviation sup_at :: "'s sys \<Rightarrow> worker_handle \<Rightarrow> 's actor_sys option" where
  "sup_at s \<equiv> map_of (sy_sups s)"

definition live :: "'s sys \<Rightarrow> worker_handle \<Rightarrow> bool" where
  "live s h \<longleftrightarrow> (case sup_at s h of None \<Rightarrow> False | Some a \<Rightarrow> as_stage a \<noteq> Ended)"

text \<open>A slot and its supervisor watch the same state and the same stop flag.\<close>

definition coupled :: "slot \<Rightarrow> 's actor_sys option \<Rightarrow> bool" where
  "coupled sl a \<longleftrightarrow>
     (if sl_commands sl = None then a = None
      else case a of
             None \<Rightarrow> False
           | Some x \<Rightarrow> ac_state (as_actor x) = sl_state sl \<and> ac_stop (as_actor x) = sl_stop sl)"

definition sups_inv :: "'s sys \<Rightarrow> bool" where
  "sups_inv s \<longleftrightarrow>
     (\<forall>h a. sup_at s h = Some a \<longrightarrow> issued_by (sy_book s) h \<and> owner_inv a \<and> replay_inv a)
     \<and> (\<forall>h sl. slot_at s h = Some sl \<longrightarrow> coupled sl (sup_at s h))
     \<and> (\<forall>h. live s h \<longrightarrow> slot_at s h \<noteq> None)"

definition ghosts_inv :: "'s sys \<Rightarrow> bool" where
  "ghosts_inv s \<longleftrightarrow>
     (sy_waiting s \<noteq> [] \<or> sy_down s \<longrightarrow> bk_terminal (sy_book s))
     \<and> (\<forall>hs \<in> set (sy_waiting s). \<forall>h. live s h \<longrightarrow> h \<in> set hs)
     \<and> (sy_down s \<longrightarrow> (\<forall>h. \<not> live s h))
     \<and> (\<forall>h \<in> set (sy_stopped s). issued_by (sy_book s) h \<and> slot_at s h = None \<and> \<not> live s h)"

definition sys_inv :: "'s sys \<Rightarrow> bool" where
  "sys_inv s \<longleftrightarrow>
     book_inv (sy_book s) \<and> distinct (map fst (sy_sups s)) \<and> sups_inv s \<and> ghosts_inv s"

lemma sys_inv_init: "sys_inv (sys_init nonce)"
  by (simp add: sys_inv_def sys_init_def book_new_def book_inv_def sups_inv_def ghosts_inv_def live_def)

lemma sys_inv_sup:
  "sys_inv s \<Longrightarrow> sup_at s h = Some a \<Longrightarrow> issued_by (sy_book s) h \<and> owner_inv a \<and> replay_inv a"
  by (simp add: sys_inv_def sups_inv_def)

lemma sys_inv_slot:
  assumes "sys_inv s" "slot_at s h = Some sl"
  shows "coupled sl (sup_at s h)" "slot_wf sl" "issued_by (sy_book s) h" "h \<notin> set (sy_stopped s)"
  using assms by (force simp: sys_inv_def sups_inv_def book_inv_def ghosts_inv_def)+

lemma sys_inv_fresh:
  "sys_inv s \<Longrightarrow> \<not> issued_by (sy_book s) h \<Longrightarrow> sup_at s h = None \<and> h \<notin> set (sy_stopped s)"
  by (cases "sup_at s h") (auto simp: sys_inv_def sups_inv_def ghosts_inv_def)

text \<open>
  A change of the book alone: every slot that stays keeps its coupling, a slot that goes has no live
  supervisor, and a new slot has a handle of its own.
\<close>

lemma sys_inv_book:
  assumes inv: "sys_inv s" and b: "book_inv b"
    and ids: "\<And>h. issued_by (sy_book s) h \<Longrightarrow> issued_by b h"
    and down: "bk_terminal (sy_book s) \<Longrightarrow> bk_terminal b"
    and coup: "\<And>h sl. map_of (bk_slots b) h = Some sl \<Longrightarrow> coupled sl (sup_at s h)"
    and gone: "\<And>h. live s h \<Longrightarrow> map_of (bk_slots b) h \<noteq> None"
    and fresh: "\<And>h. h \<in> set (sy_stopped s) \<Longrightarrow> map_of (bk_slots b) h = None"
  shows "sys_inv (s\<lparr>sy_book := b\<rparr>)"
  using assms by (auto simp: sys_inv_def sups_inv_def ghosts_inv_def live_def)

lemma live_closed:
  "sys_inv s \<Longrightarrow> sup_at s h = Some a \<Longrightarrow> live s h \<longleftrightarrow> \<not> wst_closed (ac_state (as_actor a))"
  by (auto simp: sys_inv_def sups_inv_def live_def owner_inv_def)

lemma live_slot:
  assumes "sys_inv s" "live s h"
  obtains sl a where "slot_at s h = Some sl" "sup_at s h = Some a" "sl_commands sl \<noteq> None"
    "sl_plan sl \<noteq> None" "ac_state (as_actor a) = sl_state sl" "\<not> wst_closed (sl_state sl)"
proof -
  from assms(2) obtain a where a: "sup_at s h = Some a" by (auto simp: live_def split: option.splits)
  from assms obtain sl where sl: "slot_at s h = Some sl" by (auto simp: sys_inv_def sups_inv_def)
  have c: "coupled sl (Some a)" and w: "slot_wf sl" using sys_inv_slot [OF assms(1) sl] a by simp_all
  show thesis
    using that [OF sl a] c w live_closed [OF assms(1) a] assms(2)
    by (auto simp: coupled_def slot_wf_def split: if_splits option.splits)
qed

lemma sys_inv_reserve:
  assumes inv: "sys_inv s" and r: "manager_reserve now (sy_book s) = (r, b)"
  shows "sys_inv (s\<lparr>sy_book := b\<rparr>)"
proof -
  define b1 where "b1 = (sy_book s)\<lparr>bk_slots := retained now (bk_slots (sy_book s))\<rparr>"
  have dist: "distinct (map fst (bk_slots (sy_book s)))" using inv by (simp add: sys_inv_def book_inv_def)
  have at1: "map_of (bk_slots b1) h = (case slot_at s h of None \<Rightarrow> None | Some sl \<Rightarrow>
      if \<not> wst_closed (sl_state sl) \<and> (sl_plan sl \<noteq> None \<or> elapsed now (sl_reserved_at sl) < RESERVATION_LIFETIME)
      then Some sl else None)" for h
    unfolding b1_def retained_def using map_of_filter_distinct [OF dist] by (simp split: option.splits)
  have bi: "book_inv b" using book_inv_reserve [OF r] inv by (simp add: sys_inv_def)
  have b_cases: "b = sy_book s \<or> b = b1 \<or>
      (\<exists>n. checked_add_one (bk_issued b1) = Some n
        \<and> b = b1\<lparr>bk_issued := n, bk_slots := (handle_of (bk_nonce b1) n, slot_new now) # bk_slots b1\<rparr>)"
    using r by (auto simp: manager_reserve_def b1_def Let_def split: if_splits option.splits)
  have ids1: "issued_by b1 h = issued_by (sy_book s) h" for h by (simp add: b1_def)
  have gone1: "live s h \<Longrightarrow> map_of (bk_slots b1) h \<noteq> None" for h
    using live_slot [OF inv] at1 by fastforce
  have keep1: "map_of (bk_slots b1) h = Some sl \<Longrightarrow> coupled sl (sup_at s h)" for h sl
    using inv at1 by (auto simp: sys_inv_def sups_inv_def split: option.splits if_splits)
  have out1: "h \<in> set (sy_stopped s) \<Longrightarrow> map_of (bk_slots b1) h = None" for h
    using inv at1 by (auto simp: sys_inv_def ghosts_inv_def)
  from b_cases show ?thesis
  proof (elim disjE exE conjE)
    assume "b = sy_book s"
    then show ?thesis using inv by simp
  next
    assume "b = b1"
    then show ?thesis
      using sys_inv_book [OF inv bi] ids1 gone1 keep1 out1 by (simp add: b1_def)
  next
    fix n assume n: "checked_add_one (bk_issued b1) = Some n"
      and b: "b = b1\<lparr>bk_issued := n, bk_slots := (handle_of (bk_nonce b1) n, slot_new now) # bk_slots b1\<rparr>"
    let ?h = "handle_of (bk_nonce b1) n"
    have new: "\<not> issued_by (sy_book s) ?h" using issued_next(1) [OF n] ids1 by simp
    then have "sup_at s ?h = None" "?h \<notin> set (sy_stopped s)" using sys_inv_fresh [OF inv] by simp_all
    moreover have "issued_by b h" if "issued_by (sy_book s) h" for h
      using issued_next(3) [OF n] that ids1 by (auto simp: b)
    ultimately show ?thesis
      using gone1 keep1 out1 issued_next(3) [OF n]
      by (intro sys_inv_book [OF inv bi]) (auto simp: b b1_def coupled_def slot_new_def split: if_splits)
  qed
qed

text \<open>A slot is replaced by one with the same channels.\<close>

lemma sys_inv_put_slot:
  assumes "sys_inv s" "slot_at s h = Some sl" "slot_wf sl'"
    and "sl_state sl' = sl_state sl" "sl_stop sl' = sl_stop sl" "sl_commands sl' = None \<longleftrightarrow> sl_commands sl = None"
  shows "sys_inv (s\<lparr>sy_book := (sy_book s)\<lparr>bk_slots := put_slot h sl' (bk_slots (sy_book s))\<rparr>\<rparr>)"
proof (rule sys_inv_book [OF assms(1)])
  show "book_inv ((sy_book s)\<lparr>bk_slots := put_slot h sl' (bk_slots (sy_book s))\<rparr>)"
    using book_inv_put [OF _ assms(2,3)] assms(1) by (simp add: sys_inv_def)
next
  fix k x assume x: "map_of (bk_slots ((sy_book s)\<lparr>bk_slots := put_slot h sl' (bk_slots (sy_book s))\<rparr>)) k = Some x"
  show "coupled x (sup_at s k)"
  proof (cases "k = h")
    case True
    then have "x = sl'" using x assms(2) by simp
    moreover have "coupled sl' (sup_at s h) = coupled sl (sup_at s h)" using assms(4-6) by (simp add: coupled_def split: option.splits)
    ultimately show ?thesis using True sys_inv_slot(1) [OF assms(1,2)] by simp
  next
    case False
    then show ?thesis using x sys_inv_slot(1) [OF assms(1), of k x] by simp
  qed
next
  fix k assume "live s k"
  then have "slot_at s k \<noteq> None" using assms(1) by (auto simp: sys_inv_def sups_inv_def)
  then show "map_of (bk_slots ((sy_book s)\<lparr>bk_slots := put_slot h sl' (bk_slots (sy_book s))\<rparr>)) k \<noteq> None"
    by simp
next
  fix k assume "k \<in> set (sy_stopped s)"
  then have "slot_at s k = None" using assms(1) by (auto simp: sys_inv_def ghosts_inv_def)
  then show "map_of (bk_slots ((sy_book s)\<lparr>bk_slots := put_slot h sl' (bk_slots (sy_book s))\<rparr>)) k = None"
    using assms(2) by auto
qed simp_all

lemma sys_inv_prepare_known:
  "sys_inv s \<Longrightarrow> prepare_locked now h plan ch (sy_book s) = (r, b) \<Longrightarrow> r \<noteq> Inr True \<Longrightarrow> sys_inv (s\<lparr>sy_book := b\<rparr>)"
  by (auto simp: prepare_locked_def split: if_splits option.splits)

lemma sys_inv_submit:
  assumes "sys_inv s" "submit_locked now h c receiving (sy_book s) = (r, b)"
  shows "sys_inv (s\<lparr>sy_book := b\<rparr>)"
proof (cases r)
  case (Some o')
  then show ?thesis using assms by (auto simp: submit_locked_def split: if_splits option.splits)
next
  case None
  then obtain sl q where sl: "slot_at s h = Some sl" "sl_commands sl = Some q" "length q < QUEUE"
      "b = (sy_book s)\<lparr>bk_slots := put_slot h (sl\<lparr>sl_commands := Some (q @ [c])\<rparr>) (bk_slots (sy_book s))\<rparr>"
    using assms(2) by (auto simp: submit_locked_def split: if_splits option.splits)
  have "slot_wf (sl\<lparr>sl_commands := Some (q @ [c])\<rparr>)"
    using sys_inv_slot(2) [OF assms(1) sl(1)] sl(2,3) by (simp add: slot_wf_def)
  then show ?thesis using sys_inv_put_slot [OF assms(1) sl(1)] sl(2,4) by simp
qed

lemma prepare_spawn_slot:
  assumes "prepare_locked now h plan ch b = (Inr True, b')"
  obtains sl where "map_of (bk_slots b) h = Some sl" "\<not> bk_terminal b" "\<not> sl_stop sl" "sl_plan sl = None"
    "b' = b\<lparr>bk_slots := put_slot h (sl\<lparr>sl_plan := Some plan, sl_cached := ch,
        sl_commands := Some [], sl_state := worker_state_new Preparing\<rparr>) (bk_slots b)\<rparr>"
  using assms by (auto simp: prepare_locked_def split: if_splits option.splits)

lemma sys_inv_prepare_spawn:
  assumes inv: "sys_inv s" and p: "prepare_locked now h plan ch (sy_book s) = (Inr True, b)"
  shows "sys_inv (s\<lparr>sy_book := b, sy_sups := (h, actor_sys_init (actor_new plan root ch sp born d)) # sy_sups s\<rparr>)"
    (is "sys_inv ?s'")
proof -
  from p obtain sl where sl: "slot_at s h = Some sl" "\<not> bk_terminal (sy_book s)" "\<not> sl_stop sl" "sl_plan sl = None"
      and b: "b = (sy_book s)\<lparr>bk_slots := put_slot h (sl\<lparr>sl_plan := Some plan, sl_cached := ch,
        sl_commands := Some [], sl_state := worker_state_new Preparing\<rparr>) (bk_slots (sy_book s))\<rparr>"
    by (rule prepare_spawn_slot)
  note here = sys_inv_slot [OF inv sl(1)]
  have none: "sup_at s h = None" "sl_commands sl = None"
    using here(1,2) sl(4) by (auto simp: slot_wf_def coupled_def split: option.splits)
  let ?a = "actor_new plan root ch sp born d"
  have nb: "newborn ?a" unfolding newborn_def by blast
  have "book_inv b" using book_inv_prepare [OF p] inv by (simp add: sys_inv_def)
  moreover have "distinct (map fst (sy_sups ?s'))"
    using inv none(1) keys_map_of [of h "sy_sups s"] by (simp add: sys_inv_def)
  moreover have "sups_inv ?s'"
    using inv here(3) sl b owner_inv_init [OF nb] replay_inv_init [OF nb]
    by (auto simp: sys_inv_def sups_inv_def live_def coupled_def actor_sys_init_def actor_new_def
        split: if_splits)
  moreover have "ghosts_inv ?s'"
    using inv here(4) sl b by (auto simp: sys_inv_def ghosts_inv_def live_def split: if_splits)
  ultimately show ?thesis by (simp add: sys_inv_def)
qed

lemma live_advance:
  assumes "sup_at s h = Some a" "sup_step ops t a a'"
  shows "live (advance h a' s) k \<Longrightarrow> live s k"
  using assms ended_stays [OF assms(2)] by (auto simp: live_def advance_def split: if_splits option.splits)

lemma sys_inv_advance:
  assumes inv: "sys_inv s" and a: "sup_at s h = Some a" and st: "sup_step ops t a a'"
    and slot: "live s h \<Longrightarrow> slot_at s h \<noteq> None"
  shows "sys_inv (advance h a' s)" (is "sys_inv ?s'")
proof -
  have a': "owner_inv a'" "replay_inv a'" "issued_by (sy_book s) h"
    using sys_inv_sup [OF inv a] owner_inv_own [OF st] replay_inv_own [OF st] by auto
  have stp: "ac_stop (as_actor a') = ac_stop (as_actor a)" using stop_flag_own [OF st] .
  have sup: "sup_at ?s' k = (if k = h then Some a' else sup_at s k)" for k
    using a by (simp add: advance_def)
  have slt: "slot_at ?s' k = map_option (\<lambda>sl. if k = h then sl\<lparr>sl_state := ac_state (as_actor a')\<rparr> else sl) (slot_at s k)" for k
    by (simp add: advance_def)
  have lv: "live ?s' k \<Longrightarrow> live s k" for k using live_advance [OF a st] .
  have wf: "slot_wf (sl\<lparr>sl_state := x\<rparr>)" if "slot_at s h = Some sl" for sl x
    using sys_inv_slot(1,2) [OF inv that] a by (auto simp: slot_wf_def coupled_def split: option.splits if_splits)
  have "book_inv (sy_book ?s')"
    using inv wf slt by (auto simp: sys_inv_def book_inv_def advance_def)
  moreover have "sups_inv ?s'"
    unfolding sups_inv_def
  proof (intro conjI allI impI)
    fix k x assume "sup_at ?s' k = Some x"
    then show "issued_by (sy_book ?s') k" "owner_inv x" "replay_inv x"
      using a' sys_inv_sup [OF inv] sup by (auto simp: advance_def split: if_splits)
  next
    fix k sl assume "slot_at ?s' k = Some sl"
    then obtain sl0 where sl0: "slot_at s k = Some sl0"
        "sl = (if k = h then sl0\<lparr>sl_state := ac_state (as_actor a')\<rparr> else sl0)"
      unfolding slt by auto
    show "coupled sl (sup_at ?s' k)"
      using sys_inv_slot(1) [OF inv sl0(1)] sl0(2) a stp unfolding sup
      by (cases "k = h") (simp_all add: coupled_def split: if_splits)
  next
    fix k assume "live ?s' k"
    then show "slot_at ?s' k \<noteq> None" using lv inv unfolding slt by (auto simp: sys_inv_def sups_inv_def)
  qed
  moreover have "ghosts_inv ?s'"
    using inv lv slt by (auto simp: sys_inv_def ghosts_inv_def advance_def)
  ultimately show ?thesis using inv by (simp add: sys_inv_def advance_def)
qed

lemma sys_inv_supervisor:
  assumes inv: "sys_inv s" and a: "sup_at s h = Some a" and sl: "slot_at s h = Some sl"
    and q: "sl_commands sl = Some q" and st: "sup_step ops t a a'" and tk: "takes q t q'"
  shows "sys_inv (advance h a' (s\<lparr>sy_book := (sy_book s)\<lparr>bk_slots :=
         put_slot h (sl\<lparr>sl_commands := Some q'\<rparr>) (bk_slots (sy_book s))\<rparr>\<rparr>))"
proof -
  have "length q' \<le> length q" using tk by (cases t) auto
  then have "slot_wf (sl\<lparr>sl_commands := Some q'\<rparr>)"
    using sys_inv_slot(2) [OF inv sl] q by (auto simp: slot_wf_def)
  then have "sys_inv (s\<lparr>sy_book := (sy_book s)\<lparr>bk_slots :=
         put_slot h (sl\<lparr>sl_commands := Some q'\<rparr>) (bk_slots (sy_book s))\<rparr>\<rparr>)"
    using sys_inv_put_slot [OF inv sl] q by simp
  then show ?thesis using sys_inv_advance [OF _ _ st] a sl by simp
qed

text \<open>Telling supervisors to stop.\<close>

lemma sup_at_tell:
  "sup_at (tell P s) h = map_option (\<lambda>a. if P h \<and> slot_at s h \<noteq> None then raise_stop a else a) (sup_at s h)"
  unfolding tell_def by (simp add: map_of_map_val keys_map_of)

lemma fst_tell [simp]: "map fst (sy_sups (tell P s)) = map fst (sy_sups s)"
  by (simp add: tell_def)

lemma tell_fields [simp]:
  "sy_book (tell P s) = sy_book s" "sy_waiting (tell P s) = sy_waiting s" "sy_stopped (tell P s) = sy_stopped s"
  "sy_down (tell P s) = sy_down s"
  by (simp_all add: tell_def)

lemma tell_stopped_same [simp]:
  "(tell P s)\<lparr>sy_book := b, sy_stopped := sy_stopped s\<rparr> = (tell P s)\<lparr>sy_book := b\<rparr>"
  by (simp add: tell_def)

lemma stage_raise_stop [simp]: "as_stage (raise_stop a) = as_stage a"
  by (simp add: raise_stop_def)

lemma live_tell [simp]: "live (tell P s) h = live s h"
  unfolding live_def sup_at_tell by (simp split: option.splits)

lemma replay_inv_told: "replay_inv a \<Longrightarrow> replay_inv (raise_stop a)"
  using replay_inv_step [OF told] .

lemma coupled_stopped:
  "coupled sl (Some a) \<Longrightarrow> sl_commands sl \<noteq> None \<Longrightarrow> coupled (stopped sl) (Some (raise_stop a))"
  by (auto simp: coupled_def stopped_def raise_stop_def)

text \<open>The slots that are told and the rest, in one change of the book.\<close>

lemma sys_inv_tell:
  assumes inv: "sys_inv s" and b: "book_inv b" and ids: "\<And>h. issued_by b h = issued_by (sy_book s) h"
    and down: "bk_terminal (sy_book s) \<Longrightarrow> bk_terminal b"
    and at: "\<And>h. map_of (bk_slots b) h = map_option (\<lambda>sl. if P h then stopped sl else sl) (slot_at s h)"
  shows "sys_inv ((tell P s)\<lparr>sy_book := b\<rparr>)" (is "sys_inv ?s'")
proof -
  have sup: "sup_at ?s' h = map_option (\<lambda>a. if P h \<and> slot_at s h \<noteq> None then raise_stop a else a) (sup_at s h)" for h
    using sup_at_tell [of P s h] by simp
  have lv: "live ?s' h = live s h" for h using live_tell [of P s h] by (simp add: live_def)
  have "sups_inv ?s'"
    unfolding sups_inv_def
  proof (intro conjI allI impI)
    fix h a assume "sup_at ?s' h = Some a"
    then obtain a0 where "sup_at s h = Some a0" "a = a0 \<or> a = raise_stop a0" unfolding sup by (auto split: if_splits)
    then show "issued_by (sy_book ?s') h" "owner_inv a" "replay_inv a"
      using sys_inv_sup [OF inv] owner_inv_told replay_inv_told by (auto simp: ids)
  next
    fix h sl assume "slot_at ?s' h = Some sl"
    then obtain sl0 where sl0: "slot_at s h = Some sl0" "sl = (if P h then stopped sl0 else sl0)" by (auto simp: at)
    note c = sys_inv_slot(1) [OF inv sl0(1)]
    show "coupled sl (sup_at ?s' h)"
    proof (cases "sup_at s h")
      case None
      then have "sl_commands sl = None" using c sl0(2) by (auto simp: coupled_def stopped_def split: if_splits)
      then show ?thesis using None unfolding sup by (simp add: coupled_def)
    next
      case (Some a)
      then have "sl_commands sl0 \<noteq> None" using c by (auto simp: coupled_def split: if_splits)
      then show ?thesis using Some c sl0 coupled_stopped [of sl0 a] unfolding sup by auto
    qed
  next
    fix h assume "live ?s' h"
    then show "slot_at ?s' h \<noteq> None" using lv inv by (auto simp: at sys_inv_def sups_inv_def)
  qed
  moreover have "ghosts_inv ?s'"
    using inv lv down by (auto simp: sys_inv_def ghosts_inv_def ids at)
  ultimately show ?thesis using inv b by (simp add: sys_inv_def)
qed

lemma ghosts_more:
  "sys_inv s \<Longrightarrow> issued_by (sy_book s) h \<Longrightarrow> slot_at s h = None \<Longrightarrow> \<not> live s h \<Longrightarrow>
   sys_inv (s\<lparr>sy_stopped := h # sy_stopped s\<rparr>)"
  by (auto simp: sys_inv_def sups_inv_def ghosts_inv_def live_def)

lemma sys_inv_drop:
  assumes "sys_inv s" "\<not> live s h"
  shows "sys_inv (s\<lparr>sy_book := (sy_book s)\<lparr>bk_slots := drop_slot h (bk_slots (sy_book s))\<rparr>\<rparr>)"
  using assms sys_inv_slot [OF assms(1)]
  by (intro sys_inv_book [OF assms(1)])
    (auto simp: sys_inv_def sups_inv_def ghosts_inv_def intro: book_inv_drop split: if_splits)

lemma live_drop [simp]: "live (s\<lparr>sy_book := b\<rparr>) h = live s h"
  by (simp add: live_def)

lemma tell_nobody: "(\<And>k. P k \<Longrightarrow> sup_at s k = None) \<Longrightarrow> distinct (map fst (sy_sups s)) \<Longrightarrow> tell P s = s"
proof -
  assume P: "\<And>k. P k \<Longrightarrow> sup_at s k = None" and "distinct (map fst (sy_sups s))"
  have "map (\<lambda>(k, a). (k, if P k \<and> k \<in> fst ` set (bk_slots (sy_book s)) then raise_stop a else a)) (sy_sups s) = sy_sups s"
    using P by (intro map_idI) (fastforce simp: map_of_eq_None_iff image_iff)
  then show ?thesis by (simp add: tell_def)
qed

lemma sys_inv_stop_begin:
  assumes inv: "sys_inv s" and st: "stop_locked h (sy_book s) = (r, b)"
  shows "sys_inv ((tell (\<lambda>k. k = h) s)\<lparr>sy_book := b,
      sy_stopped := (if r = Some (outcome OComplete None) then h # sy_stopped s else sy_stopped s)\<rparr>)"
proof (cases "slot_at s h")
  case None
  then have r: "r = Some (missing (sy_book s) h)" "b = sy_book s" using st by (auto simp: stop_locked_def)
  have "missing (sy_book s) h \<noteq> outcome OComplete None" by (auto simp: missing_def Let_def outcome_def)
  moreover have "sys_inv ((tell (\<lambda>k. k = h) s)\<lparr>sy_book := sy_book s\<rparr>)"
    using inv None
    by (intro sys_inv_tell) (auto simp: sys_inv_def, auto simp: map_option_case split: option.splits)
  ultimately show ?thesis using r by simp
next
  case (Some sl)
  note here = sys_inv_slot [OF inv Some]
  show ?thesis
  proof (cases "sl_commands sl = None")
    case True
    then have r: "r = Some (outcome OComplete None)" "b = (sy_book s)\<lparr>bk_slots := drop_slot h (bk_slots (sy_book s))\<rparr>"
      using st Some by (auto simp: stop_locked_def)
    have none: "sup_at s h = None" using here(1) True by (simp add: coupled_def)
    then have lv: "\<not> live s h" by (simp add: live_def)
    have t: "tell (\<lambda>k. k = h) s = s" using none inv by (intro tell_nobody) (auto simp: sys_inv_def)
    have "sys_inv ((s\<lparr>sy_book := b\<rparr>)\<lparr>sy_stopped := h # sy_stopped (s\<lparr>sy_book := b\<rparr>)\<rparr>)"
      using ghosts_more [of "s\<lparr>sy_book := b\<rparr>" h] sys_inv_drop [OF inv lv] here(3) lv r(2) by simp
    then show ?thesis using r t by simp
  next
    case False
    then have r: "r = None" "b = (sy_book s)\<lparr>bk_slots := put_slot h (stopped sl) (bk_slots (sy_book s))\<rparr>"
      using st Some by (auto simp: stop_locked_def)
    have "book_inv b" using book_inv_stop [OF st] inv by (simp add: sys_inv_def)
    then have "sys_inv ((tell (\<lambda>k. k = h) s)\<lparr>sy_book := b\<rparr>)"
      using r(2) Some by (intro sys_inv_tell [OF inv]) (auto simp: option.map_ident split: option.splits)
    then show ?thesis using r(1) by simp
  qed
qed

lemma closed_in_not_live: "sys_inv s \<Longrightarrow> closed_in s h \<Longrightarrow> \<not> live s h"
  using live_closed [of s h] by (auto simp: closed_in_def split: option.splits)

lemma sys_inv_stop_end:
  assumes inv: "sys_inv s" and c: "closed_in s h"
  shows "sys_inv (s\<lparr>sy_book := stop_finish h (sy_book s), sy_stopped := h # sy_stopped s\<rparr>)"
proof -
  have lv: "\<not> live s h" using closed_in_not_live [OF inv c] .
  have "issued_by (sy_book s) h"
    using c sys_inv_sup [OF inv] by (auto simp: closed_in_def split: option.splits)
  then show ?thesis
    using ghosts_more [of "s\<lparr>sy_book := stop_finish h (sy_book s)\<rparr>" h] sys_inv_drop [OF inv lv] lv
    by (simp add: stop_finish_def)
qed

lemma sys_inv_shutdown_begin:
  assumes inv: "sys_inv s" and sh: "shutdown_locked (sy_book s) = (hs, b)"
  shows "sys_inv ((tell (\<lambda>k. True) s)\<lparr>sy_book := b, sy_waiting := hs # sy_waiting s\<rparr>)"
proof -
  have b: "b = (sy_book s)\<lparr>bk_terminal := True, bk_slots := map (\<lambda>(h, sl). (h, stopped sl)) (bk_slots (sy_book s))\<rparr>"
      and hs: "hs = map fst (filter (\<lambda>(_, sl). sl_commands sl \<noteq> None) (bk_slots (sy_book s)))"
    using sh by (simp_all add: shutdown_locked_def)
  have "book_inv b" using book_inv_shutdown [OF sh] inv by (simp add: sys_inv_def)
  then have "sys_inv ((tell (\<lambda>k. True) s)\<lparr>sy_book := b\<rparr>)"
    by (intro sys_inv_tell [OF inv]) (auto simp: b map_of_map_val)
  moreover have "h \<in> set hs" if lv: "live s h" for h
  proof -
    from inv lv obtain sl where "slot_at s h = Some sl" "sl_commands sl \<noteq> None" by (rule live_slot)
    then have "(h, sl) \<in> set (filter (\<lambda>(_, sl). sl_commands sl \<noteq> None) (bk_slots (sy_book s)))"
      by (simp add: map_of_SomeD)
    then show ?thesis unfolding hs set_map by force
  qed
  ultimately show ?thesis
    using live_tell [of "\<lambda>k. True" s]
    by (simp add: sys_inv_def sups_inv_def ghosts_inv_def live_def b)
qed

lemma sys_inv_shutdown_end:
  assumes inv: "sys_inv s" and hs: "hs \<in> set (sy_waiting s)" "list_all (closed_in s) hs"
  shows "sys_inv (s\<lparr>sy_book := shutdown_finish (sy_book s), sy_down := True\<rparr>)"
proof -
  have none: "\<not> live s h" for h
    using inv hs closed_in_not_live [OF inv] by (auto simp: sys_inv_def ghosts_inv_def list_all_iff)
  have "bk_terminal (sy_book s)" using inv hs(1) by (auto simp: sys_inv_def ghosts_inv_def)
  then show ?thesis
    using inv none
    by (auto simp: sys_inv_def sups_inv_def ghosts_inv_def shutdown_finish_def book_inv_def live_def)
qed

lemma sys_inv_step: "manager_step ops m s s' \<Longrightarrow> sys_inv s \<Longrightarrow> sys_inv s'"
proof (induction rule: manager_step.induct)
  case (orphan s h a t a')
  moreover have "\<not> live s h" using orphan.prems orphan.hyps(2) by (auto simp: sys_inv_def sups_inv_def)
  ultimately show ?case using sys_inv_advance by blast
next
  case (stop_begin h s r b)
  then show ?case using sys_inv_stop_begin by blast
qed (auto intro: sys_inv_reserve sys_inv_prepare_known sys_inv_prepare_spawn sys_inv_submit sys_inv_supervisor
    sys_inv_stop_begin sys_inv_stop_end sys_inv_shutdown_begin sys_inv_shutdown_end)

interpretation managed: invariant_of "\<lambda>s. s = sys_init nonce" "manager_step ops m" sys_inv for nonce ops m
  by unfold_locales (auto intro: sys_inv_init sys_inv_step)

text \<open>Every live supervisor holds one of the sixteen slots.\<close>

lemma live_bound:
  assumes "sys_inv s"
  shows "finite {h. live s h} \<and> card {h. live s h} \<le> CAPACITY"
proof -
  have "{h. live s h} \<subseteq> set (map fst (bk_slots (sy_book s)))"
    using assms by (auto simp: sys_inv_def sups_inv_def keys_map_of [symmetric] simp del: not_None_eq)
  then have "card {h. live s h} \<le> card (set (map fst (bk_slots (sy_book s))))" "finite {h. live s h}"
    by (auto intro: card_mono finite_subset)
  moreover have "card (set (map fst (bk_slots (sy_book s)))) \<le> CAPACITY"
    using card_length [of "map fst (bk_slots (sy_book s))"] assms by (simp add: sys_inv_def book_inv_def)
  ultimately show ?thesis by linarith
qed

end
