(* ===== verification/Worker_Properties.thy ===== *)
theory Worker_Properties
  imports Worker_Manager
begin

text \<open>
  The properties of persistent workers: of the manager with its supervisors, of the replay window,
  and of the bounded reading of a worker's output.
\<close>

subsection \<open>A run to look at\<close>

definition demo_command :: worker_command where
  "demo_command = \<lparr>wc_executable = ''/opt/py'', wc_args = [], wc_env = [], wc_timeout_ms = None\<rparr>"

definition demo_worker_plan :: worker_plan where
  "demo_worker_plan =
     \<lparr>wp_source = ''serve()'', wp_command = demo_command, wp_preparation = [], wp_backends = [''ner''],
      wp_startup_timeout_ms = 1000, wp_request_timeout_ms = 1000, wp_idle_backend = None, wp_idle_timeout_ms = 0\<rparr>"

definition demo_handle :: worker_handle where
  "demo_handle = handle_of ''n'' 1"

definition demo_manager :: manager where
  "demo_manager = manager_new ''/w''"

text \<open>One reservation, and the same with its worker being prepared.\<close>

definition demo_reserved :: "unit sys" where
  "demo_reserved =
     \<lparr>sy_book = \<lparr>bk_nonce = ''n'', bk_issued = 1, bk_terminal = False, bk_slots = [(demo_handle, slot_new 0)]\<rparr>,
      sy_sups = [], sy_waiting = [], sy_stopped = [], sy_down = False\<rparr>"

definition demo_supervisor :: "unit actor_sys" where
  "demo_supervisor = actor_sys_init (actor_new demo_worker_plan (worker_root demo_manager demo_handle) None None 0 ())"

definition demo_preparing :: "unit sys" where
  "demo_preparing =
     \<lparr>sy_book = \<lparr>bk_nonce = ''n'', bk_issued = 1, bk_terminal = False,
        bk_slots = [(demo_handle, \<lparr>sl_reserved_at = 0, sl_plan = Some demo_worker_plan, sl_cached = None,
          sl_commands = Some [], sl_stop = False, sl_state = worker_state_new Preparing\<rparr>)]\<rparr>,
      sy_sups = [(demo_handle, demo_supervisor)], sy_waiting = [], sy_stopped = [], sy_down = False\<rparr>"

lemma demo_reserve_locked:
  "manager_reserve 0 (book_new ''n'') = (Inr demo_handle, sy_book demo_reserved)"
  by (simp add: manager_reserve_def book_new_def retained_def CAPACITY_def checked_add_one_def demo_handle_def
      demo_reserved_def Let_def)

lemma demo_plan_valid: "validate_plan demo_worker_plan = Inr ()"
proof -
  have "is_absolute ''/opt/py'' \<and> \<not> contains_char NUL ''/opt/py''" by code_simp
  then show ?thesis
    by (simp add: validate_plan_def validate_command_def command_bytes_def demo_worker_plan_def demo_command_def MAX_SCRIPT_def)
qed

lemma demo_reserved_reachable: "manager_reachable (ops :: unit dir_ops) m ''n'' demo_reserved"
proof -
  have "manager_step ops m (sys_init ''n'') ((sys_init ''n'')\<lparr>sy_book := sy_book demo_reserved\<rparr>)"
    using demo_reserve_locked by (intro reserve) (simp add: sys_init_def)
  moreover have "(sys_init ''n'')\<lparr>sy_book := sy_book demo_reserved\<rparr> = demo_reserved"
    by (simp add: sys_init_def demo_reserved_def)
  moreover have "manager_reachable ops m ''n'' (sys_init ''n'')" by (rule reach_init) simp
  ultimately show ?thesis by (metis reach_step)
qed

lemma demo_prepare_step: "manager_step ops demo_manager demo_reserved demo_preparing"
proof -
  let ?b = "sy_book demo_preparing"
  have "prepare_locked 1 demo_handle demo_worker_plan None (sy_book demo_reserved) = (Inr True, ?b)"
    by (simp add: prepare_locked_def demo_reserved_def demo_preparing_def slot_new_def worker_state_new_def put_slot_def
        RESERVATION_LIFETIME_def elapsed_def dur_from_secs_def)
  from prepare_spawn [OF demo_plan_valid this, of ops demo_manager 0 "()"]
  have "manager_step ops demo_manager demo_reserved (demo_reserved\<lparr>sy_book := ?b, sy_sups := [(demo_handle, demo_supervisor)]\<rparr>)"
    by (simp add: demo_supervisor_def demo_manager_def manager_new_def demo_reserved_def)
  moreover have "demo_reserved\<lparr>sy_book := ?b, sy_sups := [(demo_handle, demo_supervisor)]\<rparr> = demo_preparing"
    by (simp add: demo_reserved_def demo_preparing_def)
  ultimately show ?thesis by simp
qed

lemma demo_preparing_reachable: "manager_reachable ops demo_manager ''n'' demo_preparing"
  using demo_reserved_reachable demo_prepare_step by (rule reach_step)

subsection \<open>The manager\<close>

text \<open>
  C6.  In every state the manager reaches, its slots are well formed: at most sixteen, under
  different handles that were all issued before; a slot has a queue exactly when it has a plan, and
  then at most eight commands wait in it.  At most sixteen supervisors are alive, each with a slot
  of its own that shows its state.
\<close>

theorem manager_slots_ok:
  assumes "manager_reachable ops m nonce s"
  shows "distinct (map fst (bk_slots (sy_book s))) \<and> length (bk_slots (sy_book s)) \<le> CAPACITY
    \<and> (\<forall>h sl. slot_at s h = Some sl \<longrightarrow> issued_by (sy_book s) h
         \<and> (sl_commands sl \<noteq> None \<longleftrightarrow> sl_plan sl \<noteq> None)
         \<and> (\<forall>q. sl_commands sl = Some q \<longrightarrow> length q \<le> QUEUE))
    \<and> finite {h. live s h} \<and> card {h. live s h} \<le> CAPACITY
    \<and> (\<forall>h a. sup_at s h = Some a \<and> as_stage a \<noteq> Ended \<longrightarrow>
         (\<exists>sl. slot_at s h = Some sl \<and> sl_state sl = ac_state (as_actor a) \<and> sl_stop sl = ac_stop (as_actor a)))"
proof (intro conjI allI impI)
  have inv: "sys_inv s" using managed.reach_inv [OF assms] .
  then have book: "book_inv (sy_book s)" by (simp add: sys_inv_def)
  then show "distinct (map fst (bk_slots (sy_book s)))" "length (bk_slots (sy_book s)) \<le> CAPACITY"
    by (simp_all add: book_inv_def)
  show "finite {h. live s h}" "card {h. live s h} \<le> CAPACITY" using live_bound [OF inv] by simp_all
  fix h sl assume sl: "slot_at s h = Some sl"
  then have wf: "issued_by (sy_book s) h" "slot_wf sl" using book by (auto simp: book_inv_def)
  then show "issued_by (sy_book s) h" "sl_commands sl \<noteq> None \<longleftrightarrow> sl_plan sl \<noteq> None"
    by (auto simp: slot_wf_def split: option.splits)
  show "length q \<le> QUEUE" if "sl_commands sl = Some q" for q using wf that by (simp add: slot_wf_def)
next
  fix h a assume a: "sup_at s h = Some a \<and> as_stage a \<noteq> Ended"
  have inv: "sys_inv s" using managed.reach_inv [OF assms] .
  have lv: "live s h" using a by (simp add: live_def)
  obtain sl where sl: "slot_at s h = Some sl" "sl_commands sl \<noteq> None" using live_slot [OF inv lv] by metis
  then show "\<exists>sl. slot_at s h = Some sl \<and> sl_state sl = ac_state (as_actor a) \<and> sl_stop sl = ac_stop (as_actor a)"
    using sys_inv_slot(1) [OF inv sl(1)] a by (auto simp: coupled_def)
qed

theorem manager_slots_ok_witness:
  "card {h. live demo_preparing h} \<le> CAPACITY \<and> live demo_preparing demo_handle
   \<and> (\<exists>sl. slot_at demo_preparing demo_handle = Some sl \<and> sl_commands sl = Some [])"
  using manager_slots_ok [OF demo_preparing_reachable]
  by (simp add: live_def demo_preparing_def demo_supervisor_def actor_sys_init_def)

subsection \<open>Stops and shutdowns\<close>

lemma stopped_grows: "manager_step ops m s s' \<Longrightarrow> set (sy_stopped s) \<subseteq> set (sy_stopped s')"
  by (induction rule: manager_step.induct) (auto simp: advance_def)

lemma down_stays: "manager_step ops m s s' \<Longrightarrow> sy_down s \<Longrightarrow> sy_down s'"
  by (induction rule: manager_step.induct) (auto simp: advance_def)

lemma steps_grow:
  "(manager_step ops m)\<^sup>*\<^sup>* s s' \<Longrightarrow> set (sy_stopped s) \<subseteq> set (sy_stopped s') \<and> (sy_down s \<longrightarrow> sy_down s')"
  by (induction rule: rtranclp_induct) (auto dest: stopped_grows down_stays)

text \<open>
  C10.  Complete means gone, for good: once a stop has answered that it is complete, its worker's
  supervisor is not alive and its slot is not there, and no later step brings either back; once a
  shutdown has, no supervisor is alive and none will be.
\<close>

theorem complete_means_gone:
  assumes "manager_reachable ops m nonce s" "(manager_step ops m)\<^sup>*\<^sup>* s s'"
  shows "(\<forall>h \<in> set (sy_stopped s). \<not> live s' h \<and> slot_at s' h = None)
    \<and> (sy_down s \<longrightarrow> (\<forall>h. \<not> live s' h) \<and> bk_terminal (sy_book s'))"
proof -
  have "sys_inv s'" using managed.steps_inv [OF assms(2)] managed.reach_inv [OF assms(1)] by blast
  then show ?thesis using steps_grow [OF assms(2)] by (auto simp: sys_inv_def ghosts_inv_def)
qed

text \<open>A reservation that is stopped before it was prepared, and a shutdown after that.\<close>

theorem complete_means_gone_witness:
  "\<forall>(ops :: unit dir_ops) m. \<exists>s s'. manager_reachable ops m ''n'' s \<and> sy_stopped s = [demo_handle] \<and> sy_down s
     \<and> (manager_step ops m)\<^sup>*\<^sup>* s s' \<and> \<not> live s' demo_handle \<and> bk_terminal (sy_book s')"
proof (intro allI)
  fix ops :: "unit dir_ops" and m
  define b where "b = \<lparr>bk_nonce = ''n'', bk_issued = 1, bk_terminal = False, bk_slots = []\<rparr>"
  let ?s1 = "demo_reserved\<lparr>sy_book := b, sy_stopped := [demo_handle]\<rparr>"
  let ?s2 = "?s1\<lparr>sy_book := b\<lparr>bk_terminal := True\<rparr>, sy_waiting := [[]]\<rparr>"
  let ?s3 = "?s2\<lparr>sy_down := True\<rparr>"
  have "stop_locked demo_handle (sy_book demo_reserved) = (Some (outcome OComplete None), b)"
    by (simp add: stop_locked_def demo_reserved_def slot_new_def drop_slot_def b_def)
  from stop_begin [OF this, of ops m] have "manager_step ops m demo_reserved ?s1"
    by (simp add: tell_def demo_reserved_def)
  then have r1: "manager_reachable ops m ''n'' ?s1" using demo_reserved_reachable by (metis reach_step)
  have "shutdown_locked (sy_book ?s1) = ([], b\<lparr>bk_terminal := True\<rparr>)"
    by (simp add: shutdown_locked_def b_def)
  from shutdown_begin [OF this, of ops m] have "manager_step ops m ?s1 ?s2"
    by (simp add: tell_def demo_reserved_def)
  then have r2: "manager_reachable ops m ''n'' ?s2" using r1 by (metis reach_step)
  have "manager_step ops m ?s2 ?s3"
    using shutdown_end [of "[]" ?s2 ops m] by (simp add: shutdown_finish_def b_def demo_reserved_def)
  then have r3: "manager_reachable ops m ''n'' ?s3" using r2 by (metis reach_step)
  show "\<exists>s s'. manager_reachable ops m ''n'' s \<and> sy_stopped s = [demo_handle] \<and> sy_down s
     \<and> (manager_step ops m)\<^sup>*\<^sup>* s s' \<and> \<not> live s' demo_handle \<and> bk_terminal (sy_book s')"
    using complete_means_gone [OF r3 rtranclp.rtrancl_refl] r3
    by (intro exI [of _ ?s3] conjI) (simp_all add: demo_reserved_def)
qed

subsection \<open>Handles\<close>

lemma strip_prefix_append: "strip_prefix p (p @ s) = Some s"
  by (induction p) auto

lemma missing_issued:
  "missing b (handle_of (bk_nonce b) n) = outcome (if 0 < n \<and> n \<le> bk_issued b then OClosed else OUnknown) None"
  using strip_prefix_append [of "bk_nonce b @ '':''"]
  by (simp add: missing_def handle_of_def parse_u64_to_string Let_def)

text \<open>
  Handles round-trip: a reservation yields a handle never given out before, which leads to its
  fresh slot; before, the book knew nothing of it, and at any later time, its slot gone, the book
  still recognises it as closed rather than unknown.
\<close>

theorem handles_round_trip:
  assumes "manager_reserve now b = (Inr h, b')"
  shows "\<not> issued_by b h \<and> missing b h = outcome OUnknown None \<and> map_of (bk_slots b') h = Some (slot_new now)
    \<and> (\<forall>b2. bk_nonce b2 = bk_nonce b' \<and> bk_issued b' \<le> bk_issued b2 \<longrightarrow> missing b2 h = outcome OClosed None)"
proof -
  obtain n where n: "checked_add_one (bk_issued b) = Some n" and h: "h = handle_of (bk_nonce b) n"
      and b': "bk_nonce b' = bk_nonce b" "bk_issued b' = n" "map_of (bk_slots b') h = Some (slot_new now)"
    using assms by (auto simp: manager_reserve_def Let_def split: if_splits option.splits)
  have u: "unat n = unat (bk_issued b) + 1" using n checked_add_one_Some by blast
  have pos: "0 < n" using u by (metis add_is_0 one_neq_zero unat_0 word_neq_0_conv)
  have next': "\<not> n \<le> bk_issued b" using u by (simp add: word_le_nat_alt)
  have "missing b2 h = outcome OClosed None" if "bk_nonce b2 = bk_nonce b' \<and> bk_issued b' \<le> bk_issued b2" for b2
    using that missing_issued [of b2 n] b' pos h by simp
  moreover have "\<not> issued_by b h" using issued_next(1) [OF n] h by simp
  moreover have "missing b h = outcome OUnknown None" using missing_issued [of b n] h next' by simp
  ultimately show ?thesis using b'(3) by blast
qed

theorem handles_round_trip_witness:
  "\<not> issued_by (book_new ''n'') demo_handle \<and> missing (sy_book demo_reserved) demo_handle = outcome OClosed None"
  using handles_round_trip [OF demo_reserve_locked] by simp

subsection \<open>A supervisor's life to look at\<close>

text \<open>
  The worker of the handle above is prepared, gets one request, whose first answer is a failure, and
  answers the second time, from a second process.  Then the supervisor panics while the status says
  that the worker runs, and the last loop ends it.
\<close>

definition demo_ops :: "unit dir_ops" where
  "demo_ops =
     \<lparr>op_ambient = \<lambda>_ _. Inr 0, op_clone = \<lambda>_ _. None, op_open_dir = \<lambda>_ _ _. Inr 0,
      op_create_dir = \<lambda>_ _ _. (None, ()), op_dir_id = \<lambda>_ _. Inr (0, 0), op_dir_mode = \<lambda>_ _ _. (None, ()),
      op_stat = \<lambda>_ _ _. Inl NotFound, op_open_read = \<lambda>_ _ _. Inl NotFound,
      op_open_lock = \<lambda>_ _ _. (Inr 1, ()), op_open_write = \<lambda>_ _ _. (Inr 1, ()),
      op_create_new = \<lambda>_ _ _. (Inr 1, ()),
      op_file_meta = \<lambda>_ _. Inr \<lparr>mt_kind = KFile, mt_nlink = 1, mt_len = 0, mt_id = (0, 1)\<rparr>,
      op_file_mode = \<lambda>_ _ _. (None, ()), op_set_len_zero = \<lambda>_ _. (None, ()), op_read = \<lambda>_ _ _. Inr [],
      op_write_all = \<lambda>_ _ _. (None, ()), op_sync_all = \<lambda>_ _. None, op_rename = \<lambda>_ _ _ _ _. (None, ()),
      op_remove_file = \<lambda>_ _ _. (None, ()), op_remove_entry = \<lambda>_ _ _. (None, ()),
      op_remove_open_dir = \<lambda>_ _. (None, ())\<rparr>"

definition demo_query :: worker_request where
  "demo_query = \<lparr>wr_handle = demo_handle, wr_operation = 1, wr_method = ''ner'', wr_params = JNull\<rparr>"

definition demo_answer :: server_response where
  "demo_answer = \<lparr>sr_id = Some ''1'', sr_ok = True, sr_result = None, sr_error = None\<rparr>"

definition demo_cleanup :: cleanup_env where
  "demo_cleanup = \<lparr>cl_preparation = WaitOk, cl_process = WaitOk\<rparr>"

text \<open>A worker that starts, and answers with \<open>answer\<close>.\<close>

definition demo_try :: "server_response \<Rightarrow> attempt_env" where
  "demo_try answer =
     \<lparr>at_start = \<lparr>te_idle_now = 0, te_idle_cleanup = demo_cleanup, te_alive = StillRunning, te_dead_cleanup = demo_cleanup,
        te_now = 0, te_spawn = \<lparr>sw_host = Map.empty, sw_os = table_descriptors 8 (\<lambda>_. True), sw_table = [0 \<mapsto> 7],
          sw_stdio = Map.empty, sw_chdir = (\<lambda>_. Inr 0), sw_spawned = (\<lambda>_ _. True),
          sw_stdout = [Data [CHR ''r'', CHR 0x0A], Data [CHR ''x'', CHR 0x0A]]\<rparr>,
        te_ready = (\<lambda>_. Some \<lparr>ry_ready = True, ry_protocol = Some 1, ry_backends = [''ner''], ry_error = None\<rparr>),
        te_handshake = HsRead, te_stopped = False, te_ready_at = 0, te_discard = demo_cleanup, te_failed_at = 0\<rparr>,
      at_cut_cleanup = demo_cleanup,
      at_exchange = Answered \<lparr>pn_encode = (\<lambda>_. Some ''{}''), pn_decode = (\<lambda>_. Some answer), pn_write = True, pn_flush = True\<rparr>,
      at_answered = 3, at_cleanup = demo_cleanup, at_stopped = False, at_now = 3\<rparr>"

definition demo_twice :: request_env where
  "demo_twice =
     \<lparr>rn_now = 1, rn_dispatch_now = 1, rn_first = demo_try (demo_answer\<lparr>sr_ok := False\<rparr>), rn_second = demo_try demo_answer\<rparr>"

text \<open>The manager's state with this supervisor and these commands in its queue.\<close>

definition demo_sys :: "unit actor_sys \<Rightarrow> worker_cmd list \<Rightarrow> unit sys" where
  "demo_sys a q =
     \<lparr>sy_book = \<lparr>bk_nonce = ''n'', bk_issued = 1, bk_terminal = False,
        bk_slots = [(demo_handle, \<lparr>sl_reserved_at = 0, sl_plan = Some demo_worker_plan, sl_cached = None,
          sl_commands = Some q, sl_stop = False, sl_state = ac_state (as_actor a)\<rparr>)]\<rparr>,
      sy_sups = [(demo_handle, a)], sy_waiting = [], sy_stopped = [], sy_down = False\<rparr>"

lemma demo_sup_step:
  assumes "sup_step ops t a a'" "takes q t q'"
  shows "manager_step ops demo_manager (demo_sys a q) (demo_sys a' q')"
  using supervisor [of "demo_sys a q" demo_handle a _ q ops t a' q' demo_manager] assms
  by (simp add: demo_sys_def advance_def put_sup_def publish_state_def put_slot_def)

lemma demo_submit_step:
  assumes "\<not> wst_closed (ac_state (as_actor a))"
  shows "manager_step ops demo_manager (demo_sys a []) (demo_sys a [CmdRequest demo_query 9])"
proof -
  have "submit_locked 1 demo_handle (CmdRequest demo_query 9) True (sy_book (demo_sys a [])) =
      (None, sy_book (demo_sys a [CmdRequest demo_query 9]))"
    using assms by (simp add: submit_locked_def demo_sys_def expired_def QUEUE_def put_slot_def)
  from submit [OF this] show ?thesis by (simp add: demo_sys_def)
qed

definition demo_prepared :: "unit actor" where
  "demo_prepared = finish_prepare (outcome OComplete None) ((as_actor demo_supervisor)\<lparr>ac_directory := Some 0\<rparr>)"

lemma demo_ambient: "op_ambient demo_ops s p = Inr 0"
  by (simp add: demo_ops_def)

lemma demo_descend: "descend_all demo_ops 0 ns create s = (Inr 0, s)"
  by (induction ns) (simp_all add: descend_def demo_ops_def qmark_s_def)

lemma demo_prepare:
  assumes "\<not> pn_stop env"
  shows "actor_prepare demo_ops env (as_actor demo_supervisor) =
    (outcome OComplete None, (as_actor demo_supervisor)\<lparr>ac_directory := Some 0\<rparr>)"
proof -
  let ?root = "worker_root demo_manager demo_handle"
  have root: "?root = ''/w/n_1''"
    by (simp add: worker_root_def demo_manager_def manager_new_def demo_handle_def handle_of_def u64_to_string_def) code_simp
  have "is_absolute ?root" "CurDir \<notin> set (components ?root)" "ParentDir \<notin> set (components ?root)"
    unfolding root by code_simp+
  then have "open_worker_directory demo_ops cwd ?root () = (Inr 0, ())" for cwd
    by (simp add: open_worker_directory_def absolute_def demo_ambient demo_descend)
  then show ?thesis
    using assms
    by (simp add: actor_prepare_def prepare_cache_def install_script_def demo_supervisor_def actor_sys_init_def
        actor_new_def demo_worker_plan_def done_or_def or_fail_s_def or_fail_def qmark_s_def sound_file_def demo_ops_def)
qed

text \<open>The request: two attempts, the first of which ends in a clean-up.\<close>

lemma dec_1: "dec 1 = ''1''"
  by (simp add: dec.simps) code_simp

definition demo_child :: "chunk list \<Rightarrow> process" where
  "demo_child out = \<lparr>ps_native = \<lparr>nt_child = True, nt_reaping = None\<rparr>, ps_stderr = True, ps_stdout = out\<rparr>"

text \<open>An actor that can start this worker, and the same with its worker running.\<close>

definition demo_able :: "unit actor \<Rightarrow> bool" where
  "demo_able a \<longleftrightarrow>
     ac_plan a = demo_worker_plan \<and> ac_spawner a = None \<and> ac_directory a = Some 0 \<and> \<not> ac_stop a
     \<and> ac_process a = None \<and> ac_preparation a = None \<and> ac_cache a = None \<and> ac_retry_after a = None
     \<and> ac_replies a = Map.empty \<and> ac_highest a = 0
     \<and> wst_prepared (ac_state a) = Some (outcome OComplete None) \<and> \<not> wst_closed (ac_state a)"

definition demo_up :: "chunk list \<Rightarrow> unit actor \<Rightarrow> unit actor" where
  "demo_up out a =
     set_server (plan_status demo_worker_plan True [''ner''])
       (set_phase Running (a\<lparr>ac_process := Some (demo_child out), ac_ready_backends := [''ner''], ac_last_used := 0,
         ac_retry_after := None\<rparr>))"

definition demo_down :: "unit actor \<Rightarrow> unit actor" where
  "demo_down a = not_running ((not_running a)\<lparr>ac_process := None, ac_ready_backends := []\<rparr>)"

lemma demo_spawned:
  assumes "ac_spawner a = None" "ac_directory a = Some 0" "ac_plan a = demo_worker_plan"
  shows "spawn_and_greet (at_start (demo_try answer)) a =
    (Inr [''ner''], a\<lparr>ac_process := Some (demo_child [Data [CHR ''x'', CHR 0x0A]])\<rparr>)"
proof -
  have "child_directory (te_spawn (at_start (demo_try answer))) root (Some 0) = Inr 7" for root
    by (simp add: child_directory_def current_dir_def demo_try_def table_descriptors_def start_child_def child_table_def
        directory_callback_def upt_rec)
  then show ?thesis
    using assms
    by (simp add: spawn_and_greet_def process_spawn_def spawn_group_def native_command_def confine_def)
      (simp add: demo_try_def actor_handshake_def process_handshake_def PROTOCOL_VERSION_def MAX_LINE_def demo_child_def)
qed

lemma demo_exchanged:
  assumes "sr_id answer = Some ''1''"
  shows "exchange_with (at_exchange (demo_try answer)) (wire_of demo_query) (demo_child [Data [CHR ''x'', CHR 0x0A]]) =
   (Inr answer, demo_child [])"
  using assms
  by (simp add: exchange_with_def demo_try_def process_request_def demo_child_def await_reply.simps MAX_LINE_def
      MAX_OPERATION_BYTES_def wire_of_def demo_query_def u64_to_string_def dec_1 [simplified] Let_def)

lemma demo_started:
  assumes "demo_able a"
  shows "actor_start demo_ops (at_start (demo_try answer)) a =
    (Started (outcome OComplete None), demo_up [Data [CHR ''x'', CHR 0x0A]] (set_phase Starting a))"
proof -
  have greet: "spawn_and_greet (at_start (demo_try answer)) (set_phase Starting a) =
      (Inr [''ner''], (set_phase Starting a)\<lparr>ac_process := Some (demo_child [Data [CHR ''x'', CHR 0x0A]])\<rparr>)"
    by (rule demo_spawned) (use assms in \<open>simp_all add: demo_able_def set_phase_def\<close>)
  have "te_stopped (at_start (demo_try answer)) = False" "te_ready_at (at_start (demo_try answer)) = 0"
    by (simp_all add: demo_try_def)
  moreover have "ac_plan (set_phase Starting a) = demo_worker_plan"
    using assms by (simp add: demo_able_def set_phase_def)
  ultimately have "launch_worker demo_ops (at_start (demo_try answer)) a =
      (Started (outcome OComplete None), demo_up [Data [CHR ''x'', CHR 0x0A]] (set_phase Starting a))"
    by (simp add: launch_worker_def greet demo_up_def)
  then show ?thesis
    using assms
    by (simp add: actor_start_def demo_able_def is_prepared_def outcome_def idle_too_long_def demo_worker_plan_def
        start_fresh_def)
qed

lemma demo_cleaned:
  assumes "ac_process a = Some (demo_child [])" "ac_preparation a = None" "ac_cache a = None"
  shows "actor_cleanup demo_ops demo_cleanup a = (Inr (), demo_down a)"
  using assms
  by (simp add: actor_cleanup_def cleanup_preparation_def cleanup_cache_def cleanup_process_def process_cleanup_def
      reap_native_def demo_child_def demo_cleanup_def demo_down_def qmark_s_def)

lemma demo_answered:
  assumes a: "demo_able a"
  shows "actor_request demo_ops demo_twice demo_query 9 a =
    (response_outcome demo_answer,
     record_reply demo_query (response_outcome demo_answer)
       ((demo_up [] (set_phase Starting (demo_down (demo_up [] (set_phase Starting a)))))\<lparr>ac_last_used := 3\<rparr>), 2)"
proof -
  have moved: "demo_up [Data [CHR ''x'', CHR 0x0A]] b\<lparr>ac_process := Some (demo_child [])\<rparr> = demo_up [] b" for b
    by (simp add: demo_up_def set_server_def set_phase_def)
  have holds: "ac_process (demo_up out b) = Some (demo_child out)" "ac_preparation (demo_up out b) = ac_preparation b"
      "ac_cache (demo_up out b) = ac_cache b" for out b
    by (simp_all add: demo_up_def set_server_def set_phase_def)
  have clean: "actor_cleanup demo_ops demo_cleanup (demo_up [] (set_phase Starting a)) =
      (Inr (), demo_down (demo_up [] (set_phase Starting a)))"
    by (rule demo_cleaned) (use a in \<open>simp_all add: holds demo_able_def set_phase_def\<close>)
  have again: "demo_able (demo_down (demo_up [] (set_phase Starting a)))"
    using a by (simp add: demo_able_def demo_down_def demo_up_def not_running_def Let_def set_server_def set_phase_def)
  have env: "at_cleanup (demo_try r) = demo_cleanup" "at_stopped (demo_try r) = False" "at_now (demo_try r) = 3"
      "at_answered (demo_try r) = 3" "at_exchange (demo_try r) \<noteq> NotPolled" for r
    by (simp_all add: demo_try_def)
  have first: "exchange_with (at_exchange (demo_try (demo_answer\<lparr>sr_ok := False\<rparr>))) (wire_of demo_query)
      (demo_child [Data [CHR ''x'', CHR 0x0A]]) = (Inr (demo_answer\<lparr>sr_ok := False\<rparr>), demo_child [])"
    and second: "exchange_with (at_exchange (demo_try demo_answer)) (wire_of demo_query)
      (demo_child [Data [CHR ''x'', CHR 0x0A]]) = (Inr demo_answer, demo_child [])"
    by (rule demo_exchanged, simp add: demo_answer_def)+
  have "attempts demo_ops (wire_of demo_query) 9 [demo_try (demo_answer\<lparr>sr_ok := False\<rparr>), demo_try demo_answer] 0
      ''worker_closed'' a =
    (response_outcome demo_answer, 2,
     (demo_up [] (set_phase Starting (demo_down (demo_up [] (set_phase Starting a)))))\<lparr>ac_last_used := 3\<rparr>)"
    using first second
    by (simp add: attempts.simps demo_started [OF a] demo_started [OF again] env holds moved clean Let_def
        outcome_def demo_answer_def)
  moreover have "ac_replies a = Map.empty" "horizon a = 0"
    using a by (simp_all add: demo_able_def horizon_def saturating_sub_def REPLAY_WINDOW_def)
  ultimately show ?thesis
    by (simp add: actor_request_def actor_dispatch_def demo_twice_def demo_query_def)
qed

text \<open>The supervisor after the request, as a panic may leave it, and after its last loop.\<close>

definition demo_served :: "unit actor_sys" where
  "demo_served =
     \<lparr>as_actor = fst (snd (actor_request demo_ops demo_twice demo_query 9 demo_prepared)), as_stage = Serving,
      as_log = [(1, 2)]\<rparr>"

definition demo_lost :: "unit actor_sys" where
  "demo_lost = demo_served\<lparr>as_actor := (as_actor demo_served)\<lparr>ac_process := None\<rparr>, as_stage := Ending\<rparr>"

definition demo_ended :: "unit actor_sys" where
  "demo_ended =
     demo_lost\<lparr>as_actor := close_actor (snd (final_round demo_ops demo_cleanup (\<lambda>s. (None, s)) (as_actor demo_lost))),
       as_stage := Ended\<rparr>"

lemma demo_prepared_able: "demo_able demo_prepared"
  by (simp add: demo_able_def demo_prepared_def finish_prepare_def demo_supervisor_def actor_sys_init_def actor_new_def
      outcome_def worker_state_new_def Let_def set_phase_def set_server_def demo_manager_def manager_new_def)

lemma demo_served_actor:
  "is_running (as_actor demo_served)" "ac_process (as_actor demo_served) = Some (demo_child [])"
  "ac_preparation (as_actor demo_served) = None" "ac_cache (as_actor demo_served) = None"
  using demo_prepared_able
  by (simp_all add: demo_served_def demo_answered demo_up_def demo_down_def record_reply_def Let_def is_running_def
      set_server_def set_phase_def plan_status_def not_running_def demo_able_def)

lemma demo_request_step:
  "sup_step demo_ops (TakenRequest demo_query 9) \<lparr>as_actor = demo_prepared, as_stage = Serving, as_log = []\<rparr> demo_served"
proof -
  let ?ready = "\<lparr>as_actor = demo_prepared, as_stage = Serving, as_log = []\<rparr>"
  have "actor_request demo_ops demo_twice demo_query 9 demo_prepared =
      (response_outcome demo_answer, as_actor demo_served, 2)"
    by (simp add: demo_served_def demo_answered [OF demo_prepared_able])
  then have "sup_step demo_ops (TakenRequest demo_query 9) ?ready
      (?ready\<lparr>as_actor := as_actor demo_served,
        as_log := as_log ?ready @ (if 0 < (2::nat) then [(wr_operation demo_query, 2)] else [])\<rparr>)"
    by (intro served) (simp_all add: demo_query_def)
  then show ?thesis by (simp add: demo_served_def demo_query_def)
qed

lemma demo_panic_step: "sup_step demo_ops TakenNone demo_served demo_lost"
  using panicked [of demo_served TakenNone "as_actor demo_lost" "[]" demo_ops]
  by (simp add: demo_lost_def unwound_def may_send_def) (simp add: demo_served_def)

lemma demo_last_step: "sup_step demo_ops TakenNone demo_lost demo_ended"
proof -
  let ?round = "final_round demo_ops demo_cleanup (\<lambda>s. (None, s)) (as_actor demo_lost)"
  have "fst (actor_cleanup demo_ops demo_cleanup (as_actor demo_lost)) = Inr ()"
    using demo_served_actor
    by (simp add: demo_lost_def actor_cleanup_def cleanup_preparation_def cleanup_cache_def cleanup_process_def qmark_s_def)
  then have "fst ?round" by (auto simp: final_round_def Let_def split: prod.splits sum.splits)
  then have "?round = (True, snd ?round)" by (simp add: prod_eq_iff)
  moreover have "as_stage demo_lost = Ending" by (simp add: demo_lost_def)
  ultimately show ?thesis using finished [of demo_lost] by (simp add: demo_ended_def)
qed

lemma demo_life:
  "manager_reachable demo_ops demo_manager ''n'' (demo_sys demo_served [])"
  "manager_reachable demo_ops demo_manager ''n'' (demo_sys demo_ended [])"
proof -
  let ?ready = "\<lparr>as_actor = demo_prepared, as_stage = Serving, as_log = []\<rparr>"
  have born: "demo_sys demo_supervisor [] = demo_preparing"
    by (simp add: demo_sys_def demo_preparing_def demo_supervisor_def actor_sys_init_def actor_new_def)
  have "sup_step demo_ops TakenNone demo_supervisor ?ready"
    using prepared [of demo_supervisor demo_ops, OF _ demo_prepare [of "undefined\<lparr>pn_stop := False\<rparr>"]]
    by (simp add: demo_prepared_def) (simp add: demo_supervisor_def actor_sys_init_def)
  then have "manager_step demo_ops demo_manager demo_preparing (demo_sys ?ready [])"
    unfolding born [symmetric] by (rule demo_sup_step) simp
  then have "manager_reachable demo_ops demo_manager ''n'' (demo_sys ?ready [])"
    using demo_preparing_reachable by (rule reach_step [rotated])
  moreover have "manager_step demo_ops demo_manager (demo_sys ?ready []) (demo_sys ?ready [CmdRequest demo_query 9])"
    by (rule demo_submit_step) (use demo_prepared_able in \<open>simp add: demo_able_def\<close>)
  ultimately have "manager_reachable demo_ops demo_manager ''n'' (demo_sys ?ready [CmdRequest demo_query 9])"
    by (rule reach_step)
  moreover have "manager_step demo_ops demo_manager (demo_sys ?ready [CmdRequest demo_query 9]) (demo_sys demo_served [])"
    using demo_request_step by (rule demo_sup_step) simp
  ultimately show serving: "manager_reachable demo_ops demo_manager ''n'' (demo_sys demo_served [])"
    by (rule reach_step)
  have "manager_step demo_ops demo_manager (demo_sys demo_served []) (demo_sys demo_lost [])"
    "manager_step demo_ops demo_manager (demo_sys demo_lost []) (demo_sys demo_ended [])"
    by (rule demo_sup_step, rule demo_panic_step demo_last_step, simp)+
  then show "manager_reachable demo_ops demo_manager ''n'' (demo_sys demo_ended [])"
    using serving reach_step by metis
qed

subsection \<open>Ownership\<close>

text \<open>
  C15.  What a supervisor reports is what it owns: as long as it serves, a worker reported as running
  is a process it holds; and a supervisor counts as closed exactly when it has ended, with no process,
  no preparation step and no cache session left behind and nothing reported as running, whatever
  state a panic left to its last loop.
\<close>

theorem closed_owns_nothing:
  assumes "manager_reachable ops m nonce s" "sup_at s h = Some a"
  shows "(at_work (as_stage a) \<and> is_running (as_actor a) \<longrightarrow> ac_process (as_actor a) \<noteq> None)
    \<and> (wst_closed (ac_state (as_actor a)) \<longleftrightarrow> as_stage a = Ended)
    \<and> (as_stage a = Ended \<longrightarrow> ac_process (as_actor a) = None \<and> ac_preparation (as_actor a) = None
         \<and> ac_cache (as_actor a) = None \<and> \<not> is_running (as_actor a))"
  using sys_inv_sup [OF managed.reach_inv [OF assms(1)] assms(2)]
  by (simp add: owner_inv_def truthful_def owns_nothing_def)

text \<open>A supervisor whose worker runs, and the same after a panic that lost the process, and its end.\<close>

theorem closed_owns_nothing_witness:
  "is_running (as_actor demo_served) \<and> ac_process (as_actor demo_served) \<noteq> None
   \<and> \<not> wst_closed (ac_state (as_actor demo_served))
   \<and> is_running (as_actor demo_lost) \<and> ac_process (as_actor demo_lost) = None
   \<and> wst_closed (ac_state (as_actor demo_ended)) \<and> ac_process (as_actor demo_ended) = None
   \<and> \<not> is_running (as_actor demo_ended)"
proof -
  have at: "sup_at (demo_sys a []) demo_handle = Some a" for a by (simp add: demo_sys_def)
  have "is_running (as_actor demo_lost)" "ac_process (as_actor demo_lost) = None"
    using demo_served_actor(1) by (simp_all add: demo_lost_def is_running_def)
  then show ?thesis
    using closed_owns_nothing [OF demo_life(1) at] closed_owns_nothing [OF demo_life(2) at] demo_served_actor(1)
    by (simp add: demo_served_def demo_ended_def)
qed

subsection \<open>Replay\<close>

text \<open>
  C2.  Whatever the interleaving of calls, at most one call ever sends an operation number to a worker,
  and it sends it at most twice, as often as it has attempts: in the log of sends no number has two
  entries.  As long as the supervisor serves, each number it sent is either in the replay window or
  below its horizon, the window holds at most eight replies, all to numbers that were sent, and any
  further request under a number that was sent, whatever else it says, sends nothing.
\<close>

theorem operations_run_once:
  assumes "manager_reachable ops m nonce s" "sup_at s h = Some a"
  shows "distinct (map fst (as_log a)) \<and> (\<forall>(i, n) \<in> set (as_log a). 1 \<le> n \<and> n \<le> 2)
    \<and> (at_work (as_stage a) \<longrightarrow>
         (\<forall>i \<in> fst ` set (as_log a). i \<in> dom (ac_replies (as_actor a)) \<or> i \<le> horizon (as_actor a))
         \<and> dom (ac_replies (as_actor a)) \<subseteq> fst ` set (as_log a)
         \<and> finite (dom (ac_replies (as_actor a))) \<and> card (dom (ac_replies (as_actor a))) \<le> 8
         \<and> (\<forall>ops2 env q deadline r a' n.
              wr_operation q \<in> fst ` set (as_log a) \<and> actor_request ops2 env q deadline (as_actor a) = (r, a', n) \<longrightarrow> n = 0))"
proof -
  have inv: "replay_inv a" using sys_inv_sup [OF managed.reach_inv [OF assms(1)] assms(2)] by simp
  have "n = 0" if "at_work (as_stage a)" "wr_operation q \<in> fst ` set (as_log a)"
      "actor_request ops2 env q deadline (as_actor a) = (r, a', n)" for ops2 env q deadline r a' n
    using window_request [OF that(3)] inv that(1,2) unfolding replay_inv_def by (meson leD)
  then show ?thesis using window_card [OF inv] inv unfolding replay_inv_def by blast
qed

text \<open>The request above was sent twice, and is not sent again.\<close>

theorem operations_run_once_witness:
  "as_log demo_served = [(1, 2)] \<and> dom (ac_replies (as_actor demo_served)) \<subseteq> {1}
   \<and> snd (snd (actor_request demo_ops demo_twice (demo_query\<lparr>wr_method := ''embed''\<rparr>) 9 (as_actor demo_served))) = 0"
proof -
  have at: "sup_at (demo_sys demo_served []) demo_handle = Some demo_served" by (simp add: demo_sys_def)
  have log: "as_log demo_served = [(1, 2)]" "as_stage demo_served = Serving" by (simp_all add: demo_served_def)
  obtain r a' n where q: "actor_request demo_ops demo_twice (demo_query\<lparr>wr_method := ''embed''\<rparr>) 9 (as_actor demo_served) = (r, a', n)"
    by (metis prod_cases3)
  have "wr_operation (demo_query\<lparr>wr_method := ''embed''\<rparr>) \<in> fst ` set (as_log demo_served)"
    by (simp add: log demo_query_def)
  moreover have "at_work (as_stage demo_served)" by (simp add: log)
  ultimately have "n = 0" using operations_run_once [OF demo_life(1) at] q by blast
  then show ?thesis using operations_run_once [OF demo_life(1) at] log q by simp
qed

text \<open>
  C21.  A repeated operation is answered from the record: after a request was attempted, the same
  request in time gets the same outcome, and one that differs in its method or its parameters under
  the same number is refused as a conflict; either way nothing is sent to the worker and nothing
  changes.
\<close>

theorem repeat_answers_recorded:
  assumes "actor_request ops env q deadline a = (r, a', polled)" "0 < polled"
    and "wr_operation q2 = wr_operation q" "rn_now env2 < deadline2"
  shows "actor_request ops env2 q2 deadline2 a' =
    (if wr_method q2 = wr_method q \<and> wr_params q2 = wr_params q then r
     else outcome OInvalid (Some ''operation_conflict''), a', 0)"
proof -
  obtain x b a1 where d: "actor_dispatch ops q (rn_dispatch_now env) deadline (rn_first env) (rn_second env) a = (x, b, a1)"
    by (metis prod_cases3)
  have "a' = record_reply q r a1"
    using assms(1,2) by (auto simp: actor_request_def d split: if_splits option.splits)
  then have "ac_replies a' (wr_operation q2) = Some (q, r)"
    using assms(3) by (simp add: record_reply_def Let_def)
  then show ?thesis using assms(4) by (auto simp: actor_request_def)
qed

theorem repeat_answers_recorded_witness:
  "actor_request demo_ops demo_twice demo_query 9 demo_prepared = (response_outcome demo_answer, as_actor demo_served, 2)
   \<and> actor_request demo_ops demo_twice demo_query 9 (as_actor demo_served) =
       (response_outcome demo_answer, as_actor demo_served, 0)
   \<and> actor_request demo_ops demo_twice (demo_query\<lparr>wr_method := ''embed''\<rparr>) 9 (as_actor demo_served) =
       (outcome OInvalid (Some ''operation_conflict''), as_actor demo_served, 0)"
proof -
  have run: "actor_request demo_ops demo_twice demo_query 9 demo_prepared =
      (response_outcome demo_answer, as_actor demo_served, 2)"
    by (simp add: demo_served_def demo_answered [OF demo_prepared_able])
  have now: "rn_now demo_twice < 9" by (simp add: demo_twice_def)
  show ?thesis
    using run repeat_answers_recorded [OF run _ _ now, of demo_query]
      repeat_answers_recorded [OF run _ _ now, of "demo_query\<lparr>wr_method := ''embed''\<rparr>"]
    by (simp add: demo_query_def)
qed

subsection \<open>Reading a worker's output\<close>

text \<open>A frame is what was there up to and including the first newline.\<close>

lemma frame_line_ref_empty: "healthy cs \<Longrightarrow> fst (frame_line cs []) = frame_ref (pipe_bytes cs)"
  using frame_line_ref [of cs "[]"] by (simp add: MAX_LINE_def)

lemma frame_line_whole:
  assumes "healthy cs" "frame_line cs [] = (Inr b, rest)"
  shows "pipe_bytes cs = b @ pipe_bytes rest \<and> length b \<le> MAX_LINE \<and> b \<noteq> [] \<and> last b = CHR 0x0A
    \<and> newline_at (butlast b) = None"
proof -
  have "frame_ref (pipe_bytes cs) = Inr b" using frame_line_ref_empty [OF assms(1)] assms(2) by simp
  then obtain n where n: "newline_at (pipe_bytes cs) = Some n" "b = take (n + 1) (pipe_bytes cs)"
    by (auto simp: frame_ref_def split: option.splits if_splits)
  have len: "n < length (pipe_bytes cs)" using newline_at_less [OF n(1)] .
  then have "butlast b = take n (pipe_bytes cs)" "b \<noteq> []" by (auto simp: n(2) butlast_take)
  then have "last b = CHR 0x0A" "newline_at (butlast b) = None" using newline_at_take [OF n(1)] n(2) by simp_all
  then show ?thesis
    using frame_line_splits [OF assms(2)] frame_line_bounded [OF assms(2)] \<open>b \<noteq> []\<close> by simp
qed

text \<open>
  C22.  Frames do not depend on how the pipe cut the bytes: two pipes with the same bytes yield the
  same first frame or the same error, namely the one of a reader that sees all bytes at once; and
  no byte is lost or invented, the frame and what is left make up what was there.
\<close>

theorem frames_ignore_chunks:
  assumes "healthy cs" "healthy ds" "pipe_bytes cs = pipe_bytes ds"
  shows "fst (frame_line cs []) = fst (frame_line ds []) \<and> fst (frame_line cs []) = frame_ref (pipe_bytes cs)
    \<and> (\<forall>b rest. frame_line cs [] = (Inr b, rest) \<longrightarrow>
          pipe_bytes cs = b @ pipe_bytes rest \<and> length b \<le> MAX_LINE \<and> last b = CHR 0x0A
          \<and> newline_at (butlast b) = None)"
  using frame_line_ref_empty [OF assms(1)] frame_line_ref_empty [OF assms(2)] assms(3) frame_line_whole [OF assms(1)]
  by metis

theorem frames_ignore_chunks_witness:
  "frame_line [Data ''ab'', Data [CHR ''c'', CHR 0x0A, CHR ''d'']] [] = (Inr [CHR ''a'', CHR ''b'', CHR ''c'', CHR 0x0A], [Data ''d''])
   \<and> fst (frame_line [Data ''a'', Data [CHR ''b'', CHR ''c'', CHR 0x0A, CHR ''d'']] []) =
       Inr [CHR ''a'', CHR ''b'', CHR ''c'', CHR 0x0A]"
proof -
  let ?cs = "[Data ''ab'', Data [CHR ''c'', CHR 0x0A, CHR ''d'']]"
  have run: "frame_line ?cs [] = (Inr [CHR ''a'', CHR ''b'', CHR ''c'', CHR 0x0A], [Data ''d''])"
    by (simp add: MAX_LINE_def)
  have "healthy ?cs" "healthy [Data ''a'', Data [CHR ''b'', CHR ''c'', CHR 0x0A, CHR ''d'']]"
    by (simp_all add: healthy_def)
  from frames_ignore_chunks [OF this] run show ?thesis by simp
qed

lemma frame_line_used:
  "healthy cs \<Longrightarrow> length got \<le> MAX_LINE \<Longrightarrow> frame_line cs got = (x, rest) \<Longrightarrow>
   healthy rest \<and> (\<exists>used. pipe_bytes cs = used @ pipe_bytes rest \<and> length got + length used \<le> MAX_LINE)"
proof (induction cs got rule: frame_line.induct)
  case (3 c cs got)
  then have c: "c \<noteq> []" and cs: "healthy cs" by (auto simp: healthy_def)
  let ?count = "case newline_at c of Some n \<Rightarrow> n + 1 | None \<Rightarrow> length c"
  let ?rest = "if drop ?count c = [] then cs else Data (drop ?count c) # cs"
  have le: "?count \<le> length c" using newline_at_less [of c] by (cases "newline_at c") fastforce+
  have rest: "healthy ?rest" "c @ pipe_bytes cs = take ?count c @ pipe_bytes ?rest"
    using cs by (auto simp: healthy_def simp flip: append_assoc)
  show ?case
  proof (cases "MAX_LINE - length got < ?count")
    case True
    then show ?thesis using 3(2-4) c by (auto simp: Let_def healthy_def)
  next
    case fits: False
    show ?thesis
    proof (cases "newline_at c \<noteq> None \<or> length (got @ take ?count c) = MAX_LINE")
      case True
      then have "rest = ?rest" using 3(4) c fits by (auto simp: Let_def split: if_splits)
      then show ?thesis using rest fits le 3(3) by (intro conjI exI [of _ "take ?count c"]) auto
    next
      case False
      then have "newline_at c = None" "?count = length c" by auto
      then have "frame_line cs (got @ c) = (x, rest)" "length (got @ c) \<le> MAX_LINE"
        using 3(3,4) c fits False by (auto simp: Let_def)
      then have "healthy rest \<and> (\<exists>used. pipe_bytes cs = used @ pipe_bytes rest \<and> length (got @ c) + length used \<le> MAX_LINE)"
        using "3.IH" c fits False cs \<open>newline_at c = None\<close> by simp
      then obtain used where "healthy rest" "pipe_bytes cs = used @ pipe_bytes rest" "length (got @ c) + length used \<le> MAX_LINE"
        by blast
      then show ?thesis by (intro conjI exI [of _ "c @ used"]) auto
    qed
  qed
qed (auto simp: healthy_def)

lemma await_reply_used:
  "healthy out \<Longrightarrow> await_reply decode i remaining out = (x, rest) \<Longrightarrow>
   healthy rest \<and> (\<exists>used. pipe_bytes out = used @ pipe_bytes rest \<and> length used \<le> remaining + MAX_LINE)"
proof (induction decode i remaining out rule: await_reply.induct)
  case (1 decode i remaining out)
  note unfold = await_reply.simps [of decode i remaining out]
  obtain y rest1 where f: "frame_line out [] = (y, rest1)" by (metis surj_pair)
  obtain used where used: "healthy rest1" "pipe_bytes out = used @ pipe_bytes rest1" "length used \<le> MAX_LINE"
    using frame_line_used [OF 1(3) _ f] by auto
  have stop: ?case if "rest = rest1" using that used by (auto intro!: exI [of _ used])
  show ?case
  proof (cases y)
    case (Inl e)
    then show ?thesis using 1(4) f stop by (simp add: unfold)
  next
    case (Inr bytes)
    then have bytes: "used = bytes" using frame_line_splits [of out "[]" bytes rest1] f used(2) by simp
    show ?thesis
    proof (cases "remaining < length bytes \<or> (\<exists>q. decode bytes = Some q \<and> sr_id q = Some i)")
      case True
      then show ?thesis using 1(4) f Inr stop by (auto simp: unfold split: if_splits)
    next
      case False
      then have rec: "await_reply decode i (remaining - length bytes) rest1 = (x, rest)"
        using 1(4) f Inr by (auto simp: unfold split: option.splits if_splits)
      have "healthy rest \<and> (\<exists>u. pipe_bytes rest1 = u @ pipe_bytes rest \<and> length u \<le> remaining - length bytes + MAX_LINE)"
        using "1.IH" f Inr False rec used(1) by (cases "decode bytes") fastforce+
      then obtain u where "healthy rest" "pipe_bytes rest1 = u @ pipe_bytes rest" "length u \<le> remaining - length bytes + MAX_LINE"
        by blast
      then show ?thesis using used bytes False by (intro conjI exI [of _ "used @ u"]) auto
    qed
  qed
qed

text \<open>The reply that ends the loop is one whole frame of the output, decoded.\<close>

lemma await_reply_frame:
  "healthy out \<Longrightarrow> await_reply decode i remaining out = (Inr r, rest) \<Longrightarrow>
   sr_id r = Some i
   \<and> (\<exists>before frame. pipe_bytes out = before @ frame @ pipe_bytes rest \<and> length before + length frame \<le> remaining
        \<and> (before = [] \<or> last before = CHR 0x0A) \<and> last frame = CHR 0x0A \<and> newline_at (butlast frame) = None
        \<and> decode frame = Some r)"
proof (induction decode i remaining out rule: await_reply.induct)
  case (1 decode i remaining out)
  note unfold = await_reply.simps [of decode i remaining out]
  obtain bytes rest1 where f: "frame_line out [] = (Inr bytes, rest1)"
    using 1(4) by (auto simp: unfold split: prod.splits sum.splits)
  have fit: "length bytes \<le> remaining" using 1(4) f by (auto simp: unfold split: if_splits)
  have whole: "pipe_bytes out = bytes @ pipe_bytes rest1" "bytes \<noteq> []" "last bytes = CHR 0x0A"
      "newline_at (butlast bytes) = None"
    using frame_line_whole [OF 1(3) f] by simp_all
  have next': "healthy rest1" using frame_line_used [OF 1(3) _ f] by simp
  show ?case
  proof (cases "\<exists>q. decode bytes = Some q \<and> sr_id q = Some i")
    case True
    then have "decode bytes = Some r \<and> sr_id r = Some i \<and> rest = rest1"
      using 1(4) f fit by (auto simp: unfold)
    then show ?thesis using whole fit by (intro conjI) (simp, rule exI [of _ "[]"], rule exI [of _ bytes], auto)
  next
    case False
    then have rec: "await_reply decode i (remaining - length bytes) rest1 = (Inr r, rest)"
      using 1(4) f fit by (auto simp: unfold split: option.splits)
    have "sr_id r = Some i \<and> (\<exists>before frame. pipe_bytes rest1 = before @ frame @ pipe_bytes rest
        \<and> length before + length frame \<le> remaining - length bytes
        \<and> (before = [] \<or> last before = CHR 0x0A) \<and> last frame = CHR 0x0A \<and> newline_at (butlast frame) = None
        \<and> decode frame = Some r)"
      using "1.IH" f False fit rec next' by (cases "decode bytes") fastforce+
    then obtain before frame where "sr_id r = Some i" "pipe_bytes rest1 = before @ frame @ pipe_bytes rest"
        "length before + length frame \<le> remaining - length bytes" "before = [] \<or> last before = CHR 0x0A"
        "last frame = CHR 0x0A" "newline_at (butlast frame) = None" "decode frame = Some r" by blast
    then show ?thesis
      using whole fit by (intro conjI) (simp, rule exI [of _ "bytes @ before"], rule exI [of _ frame], auto simp: last_append)
  qed
qed

text \<open>
  C23.  One request returns after a bounded amount of the worker's output, however much the worker
  prints: it reads at most 1 MiB and one frame and never skips a byte.  An answer it accepts is the
  decoding of one whole frame of that output, the last it read; it carries the request's own number,
  the request was written, and what was read for it stays within the 1 MiB.
\<close>

theorem request_reads_bounded:
  assumes "healthy out" "process_request env q out = (x, rest, written)"
  shows "healthy rest
    \<and> (\<exists>used. pipe_bytes out = used @ pipe_bytes rest \<and> length used \<le> MAX_OPERATION_BYTES + MAX_LINE
         \<and> (\<forall>r. x = Inr r \<longrightarrow> written \<and> sr_id r = Some (sq_id q) \<and> length used \<le> MAX_OPERATION_BYTES
              \<and> (\<exists>before frame. used = before @ frame \<and> (before = [] \<or> last before = CHR 0x0A)
                   \<and> last frame = CHR 0x0A \<and> newline_at (butlast frame) = None \<and> pn_decode env frame = Some r)))"
proof (cases "\<exists>b. pn_encode env q = Some b \<and> length b < MAX_LINE \<and> pn_write env \<and> pn_flush env")
  case False
  then have "rest = out \<and> (\<forall>r. x \<noteq> Inr r)"
    using assms(2) by (auto simp: process_request_def not_le split: option.splits if_splits)
  then show ?thesis using assms(1) by (intro conjI exI [of _ "[]"]) auto
next
  case True
  then have w: "await_reply (pn_decode env) (sq_id q) MAX_OPERATION_BYTES out = (x, rest)" "written"
    using assms(2) by (auto simp: process_request_def split: prod.splits)
  obtain used where used: "healthy rest" "pipe_bytes out = used @ pipe_bytes rest"
      "length used \<le> MAX_OPERATION_BYTES + MAX_LINE"
    using await_reply_used [OF assms(1) w(1)] by blast
  have "sr_id r = Some (sq_id q) \<and> length used \<le> MAX_OPERATION_BYTES
      \<and> (\<exists>before frame. used = before @ frame \<and> (before = [] \<or> last before = CHR 0x0A)
           \<and> last frame = CHR 0x0A \<and> newline_at (butlast frame) = None \<and> pn_decode env frame = Some r)"
    if r: "x = Inr r" for r
    using await_reply_frame [OF assms(1) w(1) [unfolded r]] used(2)
    by (metis append_assoc append_same_eq length_append)
  then show ?thesis using used w(2) by blast
qed

text \<open>A line that is no answer is read first.\<close>

theorem request_reads_bounded_witness:
  "process_request \<lparr>pn_encode = (\<lambda>_. Some ''{}''), pn_decode = (\<lambda>l. if hd l = CHR ''x'' then Some demo_answer else None),
       pn_write = True, pn_flush = True\<rparr> (wire_of demo_query) [Data [CHR ''n'', CHR 0x0A, CHR ''x''], Data [CHR 0x0A, CHR ''y'']] =
     (Inr demo_answer, [Data ''y''], True)
   \<and> (\<exists>before frame. [CHR ''n'', CHR 0x0A, CHR ''x'', CHR 0x0A] = before @ frame \<and> hd frame = CHR ''x'')"
proof -
  let ?env = "\<lparr>pn_encode = (\<lambda>_. Some ''{}''), pn_decode = (\<lambda>l. if hd l = CHR ''x'' then Some demo_answer else None),
       pn_write = True, pn_flush = True\<rparr>"
  have run: "process_request ?env (wire_of demo_query) [Data [CHR ''n'', CHR 0x0A, CHR ''x''], Data [CHR 0x0A, CHR ''y'']] =
     (Inr demo_answer, [Data ''y''], True)"
    by (simp add: process_request_def await_reply.simps MAX_LINE_def MAX_OPERATION_BYTES_def demo_answer_def
        wire_of_def demo_query_def u64_to_string_def dec_1 [simplified] Let_def)
  have "healthy [Data [CHR ''n'', CHR 0x0A, CHR ''x''], Data [CHR 0x0A, CHR ''y'']]" by (simp add: healthy_def)
  from request_reads_bounded [OF this run] run show ?thesis by (auto split: if_splits)
qed

lemma validated_request_fits:
  assumes "validate_request serialise r = Inr ()" "pn_encode env (wire_of r) = Some (concat (serialise (wire_of r)))"
  shows "length (concat (serialise (wire_of r))) < MAX_LINE"
proof -
  have "count_pieces 1 (serialise (wire_of r)) \<noteq> None"
    using assms(1) by (auto simp: validate_request_def split: if_splits option.splits)
  then have "serialise (wire_of r) = [] \<or> 1 + sum_list (map length (serialise (wire_of r))) < MAX_LINE"
    unfolding count_pieces_iff .
  then show ?thesis by (auto simp: length_concat MAX_LINE_def)
qed

end
