(* ===== verification/Worker_Refinement.thy ===== *)
theory Worker_Refinement
  imports Worker_Properties
begin

text \<open>
  What the manager of persistent workers promises, as a machine of its own: handles are claimed,
  committed to a plan, die and are forgotten, and nothing else happens.  The manager with its
  supervisors, its queues, its expiring reservations and its shutdown refines that machine, so what
  holds of the machine holds of the code.
\<close>

subsection \<open>The abstract registry\<close>

datatype commitment = Claimed | Committed worker_plan "cached option"

record registry_spec =
  rg_issued :: "worker_handle set"
  rg_open :: "worker_handle \<rightharpoonup> commitment"
  rg_alive :: "worker_handle set"
  rg_final :: bool

definition registry_init :: registry_spec where
  "registry_init = \<lparr>rg_issued = {}, rg_open = Map.empty, rg_alive = {}, rg_final = False\<rparr>"

inductive promise :: "registry_spec \<Rightarrow> registry_spec \<Rightarrow> bool" where
  claim: "\<not> rg_final g \<Longrightarrow> h \<notin> rg_issued g \<Longrightarrow> card (dom (rg_open g)) < CAPACITY \<Longrightarrow>
    promise g (g\<lparr>rg_issued := insert h (rg_issued g), rg_open := (rg_open g)(h \<mapsto> Claimed)\<rparr>)"
| commit: "\<not> rg_final g \<Longrightarrow> rg_open g h = Some Claimed \<Longrightarrow>
    promise g (g\<lparr>rg_open := (rg_open g)(h \<mapsto> Committed plan ch), rg_alive := insert h (rg_alive g)\<rparr>)"
| die: "promise g (g\<lparr>rg_alive := rg_alive g - {h}\<rparr>)"
| forget: "H \<inter> rg_alive g = {} \<Longrightarrow> promise g (g\<lparr>rg_open := rg_open g |` (- H)\<rparr>)"
| finalise: "promise g (g\<lparr>rg_final := True\<rparr>)"

definition registry_ok :: "registry_spec \<Rightarrow> bool" where
  "registry_ok g \<longleftrightarrow>
     dom (rg_open g) \<subseteq> rg_issued g \<and> finite (dom (rg_open g)) \<and> card (dom (rg_open g)) \<le> CAPACITY
     \<and> (\<forall>h \<in> rg_alive g. \<exists>plan ch. rg_open g h = Some (Committed plan ch))"

lemma registry_ok_step: "promise g g' \<Longrightarrow> registry_ok g \<Longrightarrow> registry_ok g'"
proof (induction rule: promise.induct)
  case (claim g h)
  then have "h \<notin> dom (rg_open g)" by (auto simp: registry_ok_def)
  then show ?case using claim by (auto simp: registry_ok_def)
next
  case (commit g h plan ch)
  then have "insert h (dom (rg_open g)) = dom (rg_open g)" by auto
  then show ?case using commit by (auto simp: registry_ok_def)
next
  case (forget H g)
  have "dom (rg_open g |` (- H)) = dom (rg_open g) - H" by auto
  moreover have "card (dom (rg_open g) - H) \<le> card (dom (rg_open g))"
    using forget.prems by (intro card_mono) (auto simp: registry_ok_def)
  moreover have "rg_open g |` (- H) = (\<lambda>h. if h \<in> H then None else rg_open g h)"
    by (auto simp: restrict_map_def)
  ultimately show ?case using forget by (fastforce simp: registry_ok_def)
qed (auto simp: registry_ok_def)

lemma registry_ok_init: "g = registry_init \<Longrightarrow> registry_ok g"
  by (simp add: registry_init_def registry_ok_def)

interpretation promised: invariant_of "\<lambda>g. g = registry_init" promise registry_ok
  by unfold_locales (erule registry_ok_init, erule registry_ok_step)

text \<open>What no run of the machine undoes.\<close>

definition settled_since :: "registry_spec \<Rightarrow> registry_spec \<Rightarrow> bool" where
  "settled_since g g' \<longleftrightarrow>
     rg_issued g \<subseteq> rg_issued g'
     \<and> (\<forall>h \<in> rg_issued g. rg_open g h = None \<longrightarrow> rg_open g' h = None)
     \<and> (\<forall>h plan ch. rg_open g h = Some (Committed plan ch) \<longrightarrow>
          rg_open g' h \<in> {None, Some (Committed plan ch)} \<and> (h \<in> rg_alive g' \<longrightarrow> h \<in> rg_alive g))
     \<and> (rg_final g \<longrightarrow> rg_final g' \<and> rg_alive g' \<subseteq> rg_alive g \<and> dom (rg_open g') \<subseteq> dom (rg_open g))"

lemma settled_committed:
  "settled_since g g' \<Longrightarrow> rg_open g h = Some (Committed plan ch) \<Longrightarrow>
   (rg_open g' h = None \<or> rg_open g' h = Some (Committed plan ch)) \<and> (h \<in> rg_alive g' \<longrightarrow> h \<in> rg_alive g)"
  by (simp add: settled_since_def)

lemma settled_step: "promise g g' \<Longrightarrow> registry_ok g \<Longrightarrow> settled_since g g'"
  by (induction rule: promise.induct)
    (auto simp: settled_since_def registry_ok_def restrict_map_def split: if_splits)

lemma settled_trans:
  assumes "settled_since g g1" "settled_since g1 g2" "registry_ok g" "registry_ok g1" "registry_ok g2"
  shows "settled_since g g2"
proof -
  have "rg_open g2 h = None" if "h \<in> rg_issued g" "rg_open g h = None" for h
    using assms(1,2) that by (auto simp: settled_since_def)
  moreover have "rg_open g2 h \<in> {None, Some (Committed plan ch)} \<and> (h \<in> rg_alive g2 \<longrightarrow> h \<in> rg_alive g)"
    if here: "rg_open g h = Some (Committed plan ch)" for h plan ch
  proof (cases "rg_open g1 h")
    case None
    have "h \<in> rg_issued g1" using here assms(1,3) by (auto simp: settled_since_def registry_ok_def)
    then have "rg_open g2 h = None" using None assms(2) by (auto simp: settled_since_def)
    then show ?thesis using assms(5) by (auto simp: registry_ok_def)
  next
    case (Some c)
    then have "rg_open g1 h = Some (Committed plan ch)" "h \<in> rg_alive g1 \<longrightarrow> h \<in> rg_alive g"
      using settled_committed [OF assms(1) here] by simp_all
    then show ?thesis using settled_committed [OF assms(2)] by blast
  qed
  ultimately show ?thesis using assms(1,2) unfolding settled_since_def by blast
qed

lemma settled_run:
  assumes "promise\<^sup>*\<^sup>* g g'" "registry_ok g"
  shows "settled_since g g' \<and> registry_ok g'"
  using assms(1)
proof (induction rule: rtranclp_induct)
  case base
  then show ?case using assms(2) by (auto simp: settled_since_def)
next
  case (step g1 g2)
  then show ?case using settled_trans [of g g1 g2] settled_step registry_ok_step assms(2) by blast
qed

subsection \<open>The manager keeps them\<close>

definition commitment :: "slot \<Rightarrow> commitment" where
  "commitment sl = (case sl_plan sl of None \<Rightarrow> Claimed | Some plan \<Rightarrow> Committed plan (sl_cached sl))"

definition promised_by :: "'s sys \<Rightarrow> registry_spec" where
  "promised_by s =
     \<lparr>rg_issued = {h. issued_by (sy_book s) h}, rg_open = (\<lambda>h. map_option commitment (slot_at s h)),
      rg_alive = {h. live s h}, rg_final = bk_terminal (sy_book s)\<rparr>"

lemma commitment_same [simp]:
  "commitment (sl\<lparr>sl_commands := q\<rparr>) = commitment sl" "commitment (sl\<lparr>sl_state := st\<rparr>) = commitment sl"
  "commitment (stopped sl) = commitment sl" "commitment (slot_new now) = Claimed"
  by (auto simp: commitment_def stopped_def slot_new_def split: option.splits)

lemma promised_open: "dom (rg_open (promised_by s)) = fst ` set (bk_slots (sy_book s))"
  unfolding dom_map_of_conv_image_fst [symmetric] by (simp add: promised_by_def dom_def)

text \<open>Slots that go while no supervisor of theirs is alive are forgotten.\<close>

lemma promise_forget:
  assumes "\<And>h. issued_by b h = issued_by (sy_book s) h" "bk_terminal b = bk_terminal (sy_book s)"
    and at: "\<And>h. map_of (bk_slots b) h = slot_at s h \<or> map_of (bk_slots b) h = None \<and> \<not> live s h"
  shows "promise (promised_by s) (promised_by (s\<lparr>sy_book := b\<rparr>))"
proof -
  define H where "H = {h. map_of (bk_slots b) h = None \<and> \<not> live s h}"
  have "map_option commitment (map_of (bk_slots b) h) = (rg_open (promised_by s) |` (- H)) h" for h
    using at [of h] by (auto simp: H_def promised_by_def restrict_map_def)
  then have "promised_by (s\<lparr>sy_book := b\<rparr>) = (promised_by s)\<lparr>rg_open := rg_open (promised_by s) |` (- H)\<rparr>"
    using assms(1,2) by (simp add: promised_by_def live_def)
  moreover have "H \<inter> rg_alive (promised_by s) = {}" by (auto simp: H_def promised_by_def)
  ultimately show ?thesis using forget by metis
qed

text \<open>A change that keeps every commitment is not seen at all.\<close>

lemma promise_unseen:
  assumes "\<And>h. issued_by (sy_book s') h = issued_by (sy_book s) h" "bk_terminal (sy_book s') = bk_terminal (sy_book s)"
    and "\<And>h. map_option commitment (slot_at s' h) = map_option commitment (slot_at s h)" "\<And>h. live s' h = live s h"
  shows "promised_by s' = promised_by s"
  using assms by (simp add: promised_by_def)

lemma issued_after:
  assumes "checked_add_one (bk_issued b) = Some n"
  shows "issued_by (b\<lparr>bk_issued := n, bk_slots := ss\<rparr>) h \<longleftrightarrow> issued_by b h \<or> h = handle_of (bk_nonce b) n"
proof -
  have "unat n = unat (bk_issued b) + 1" using assms checked_add_one_Some by blast
  then have "k \<le> n \<longleftrightarrow> k \<le> bk_issued b \<or> k = n" for k
    by (auto simp: word_le_nat_alt le_Suc_eq word_unat_eq_iff)
  then show ?thesis using issued_next(2) [OF assms] by (auto simp: issued_by_def)
qed

lemma promise_reserve:
  assumes inv: "sys_inv s" and r: "manager_reserve now (sy_book s) = (r, b)"
  shows "promise\<^sup>*\<^sup>* (promised_by s) (promised_by (s\<lparr>sy_book := b\<rparr>))"
proof -
  define b1 where "b1 = (sy_book s)\<lparr>bk_slots := retained now (bk_slots (sy_book s))\<rparr>"
  have dist: "distinct (map fst (bk_slots (sy_book s)))" using inv by (simp add: sys_inv_def book_inv_def)
  have "map_of (bk_slots b1) h = slot_at s h \<or> map_of (bk_slots b1) h = None \<and> \<not> live s h" for h
  proof (cases "live s h")
    case True
    then obtain sl where "slot_at s h = Some sl" "sl_plan sl \<noteq> None" "\<not> wst_closed (sl_state sl)"
      using live_slot [OF inv] by metis
    then show ?thesis unfolding b1_def retained_def using map_of_filter_distinct [OF dist] by simp
  next
    case False
    then show ?thesis
      unfolding b1_def retained_def using map_of_filter_distinct [OF dist] by (simp split: option.splits)
  qed
  then have first: "promise (promised_by s) (promised_by (s\<lparr>sy_book := b1\<rparr>))"
    by (intro promise_forget) (simp_all add: b1_def)
  consider "b = sy_book s" | "b = b1"
    | n where "\<not> bk_terminal b1" "length (bk_slots b1) < CAPACITY" "checked_add_one (bk_issued b1) = Some n"
        "b = b1\<lparr>bk_issued := n, bk_slots := (handle_of (bk_nonce b1) n, slot_new now) # bk_slots b1\<rparr>"
    using r by (auto simp: manager_reserve_def b1_def Let_def split: if_splits option.splits)
  then show ?thesis
  proof cases
    case (3 n)
    let ?g = "promised_by (s\<lparr>sy_book := b1\<rparr>)" and ?h = "handle_of (bk_nonce b1) n"
    have "card (dom (rg_open ?g)) < CAPACITY"
      using 3(2) card_length [of "map fst (bk_slots b1)"] unfolding promised_open by simp
    moreover have "?h \<notin> rg_issued ?g" using issued_next(1) [OF 3(3)] by (simp add: promised_by_def)
    ultimately have "promise ?g (?g\<lparr>rg_issued := insert ?h (rg_issued ?g), rg_open := (rg_open ?g)(?h \<mapsto> Claimed)\<rparr>)"
      using 3(1) by (intro claim) (simp_all add: promised_by_def)
    moreover have "?g\<lparr>rg_issued := insert ?h (rg_issued ?g), rg_open := (rg_open ?g)(?h \<mapsto> Claimed)\<rparr>
        = promised_by (s\<lparr>sy_book := b\<rparr>)"
      using issued_after [OF 3(3)] by (auto simp: promised_by_def 3(4) live_def)
    ultimately show ?thesis using first by (metis converse_rtranclp_into_rtranclp r_into_rtranclp)
  qed (use first in auto)
qed

lemma promise_prepare:
  assumes inv: "sys_inv s" and p: "prepare_locked now h plan ch (sy_book s) = (Inr True, b)"
  shows "promise (promised_by s)
    (promised_by (s\<lparr>sy_book := b, sy_sups := (h, actor_sys_init a) # sy_sups s\<rparr>))"
proof -
  from p obtain sl where sl: "slot_at s h = Some sl" "\<not> bk_terminal (sy_book s)" "sl_plan sl = None"
      and b: "b = (sy_book s)\<lparr>bk_slots := put_slot h (sl\<lparr>sl_plan := Some plan, sl_cached := ch,
        sl_commands := Some [], sl_state := worker_state_new Preparing\<rparr>) (bk_slots (sy_book s))\<rparr>"
    by (rule prepare_spawn_slot)
  let ?g = "promised_by s"
  have "rg_open ?g h = Some Claimed" "\<not> rg_final ?g"
    using sl by (simp_all add: promised_by_def commitment_def)
  then have "promise ?g (?g\<lparr>rg_open := (rg_open ?g)(h \<mapsto> Committed plan ch), rg_alive := insert h (rg_alive ?g)\<rparr>)"
    by (intro commit)
  moreover have "?g\<lparr>rg_open := (rg_open ?g)(h \<mapsto> Committed plan ch), rg_alive := insert h (rg_alive ?g)\<rparr>
      = promised_by (s\<lparr>sy_book := b, sy_sups := (h, actor_sys_init a) # sy_sups s\<rparr>)"
    using sl by (auto simp: promised_by_def b live_def commitment_def actor_sys_init_def)
  ultimately show ?thesis by simp
qed

lemma promise_advance:
  assumes a: "sup_at s h = Some a" and st: "sup_step ops t a a'"
  shows "promise\<^sup>*\<^sup>* (promised_by s) (promised_by (advance h a' s))"
proof -
  let ?s' = "advance h a' s"
  have same: "issued_by (sy_book ?s') k = issued_by (sy_book s) k" "bk_terminal (sy_book ?s') = bk_terminal (sy_book s)"
      "map_option commitment (slot_at ?s' k) = map_option commitment (slot_at s k)" for k
    by (cases "slot_at s k"; simp add: advance_def)+
  have lv: "live ?s' k = (if k = h then as_stage a' \<noteq> Ended else live s k)" for k
    using a by (simp add: live_def advance_def)
  show ?thesis
  proof (cases "as_stage a' = Ended")
    case True
    then have "promised_by ?s' = (promised_by s)\<lparr>rg_alive := rg_alive (promised_by s) - {h}\<rparr>"
      using same lv by (auto simp: promised_by_def)
    then show ?thesis using die [of "promised_by s" h] by simp
  next
    case False
    then have "live s h" using a ended_stays [OF st] by (auto simp: live_def)
    then have "promised_by ?s' = promised_by s" using same lv False by (intro promise_unseen) auto
    then show ?thesis by simp
  qed
qed

lemma promise_stop:
  assumes inv: "sys_inv s" and st: "stop_locked h (sy_book s) = (r, b)"
  shows "promise\<^sup>*\<^sup>* (promised_by s) (promised_by ((tell (\<lambda>k. k = h) s)\<lparr>sy_book := b, sy_stopped := x\<rparr>))"
proof -
  have alive: "live ((tell P s)\<lparr>sy_book := b, sy_stopped := x\<rparr>) k = live s k" for P k
    using live_tell [of P s k] by (simp add: live_def)
  then have same: "promised_by ((tell P s)\<lparr>sy_book := b, sy_stopped := x\<rparr>) = promised_by (s\<lparr>sy_book := b\<rparr>)" for P
    by (simp add: promised_by_def)
  show ?thesis
  proof (cases "\<exists>sl. slot_at s h = Some sl \<and> sl_commands sl = None")
    case True
    then have b: "b = (sy_book s)\<lparr>bk_slots := drop_slot h (bk_slots (sy_book s))\<rparr>" and "sup_at s h = None"
      using st sys_inv_slot(1) [OF inv, of h] by (auto simp: stop_locked_def coupled_def)
    then have "promise (promised_by s) (promised_by (s\<lparr>sy_book := b\<rparr>))"
      by (intro promise_forget) (auto simp: live_def)
    then show ?thesis unfolding same by simp
  next
    case False
    then have "map_option commitment (map_of (bk_slots b) k) = map_option commitment (slot_at s k)"
        "issued_by b k = issued_by (sy_book s) k" "bk_terminal b = bk_terminal (sy_book s)" for k
      using st by (auto simp: stop_locked_def split: option.splits if_splits)
    then have "promised_by (s\<lparr>sy_book := b\<rparr>) = promised_by s" by (intro promise_unseen) simp_all
    then show ?thesis unfolding same by simp
  qed
qed

lemma promise_shutdown:
  assumes sh: "shutdown_locked (sy_book s) = (hs, b)"
  shows "promise (promised_by s) (promised_by ((tell (\<lambda>k. True) s)\<lparr>sy_book := b, sy_waiting := x\<rparr>))"
proof -
  have "live ((tell (\<lambda>k. True) s)\<lparr>sy_book := b, sy_waiting := x\<rparr>) k = live s k" for k
    using live_tell [of "\<lambda>k. True" s k] by (simp add: live_def)
  moreover have "map_option commitment (map_of (bk_slots b) k) = map_option commitment (slot_at s k)" for k
    using sh by (auto simp: shutdown_locked_def map_of_map_val option.map_comp comp_def)
  ultimately have "promised_by ((tell (\<lambda>k. True) s)\<lparr>sy_book := b, sy_waiting := x\<rparr>) = (promised_by s)\<lparr>rg_final := True\<rparr>"
    using sh by (auto simp: promised_by_def shutdown_locked_def)
  then show ?thesis using finalise by simp
qed

lemma promise_drop:
  assumes "\<not> live s h"
  shows "promise (promised_by s) (promised_by (s\<lparr>sy_book := stop_finish h (sy_book s), sy_stopped := x\<rparr>))"
proof -
  have "promise (promised_by s) (promised_by (s\<lparr>sy_book := stop_finish h (sy_book s)\<rparr>))"
    using assms by (intro promise_forget) (auto simp: stop_finish_def)
  then show ?thesis by (simp add: promised_by_def live_def)
qed

lemma promise_clear:
  assumes "sys_inv s" "hs \<in> set (sy_waiting s)" "list_all (closed_in s) hs"
  shows "promise (promised_by s) (promised_by (s\<lparr>sy_book := shutdown_finish (sy_book s), sy_down := True\<rparr>))"
proof -
  have "\<not> live s h" for h
    using assms closed_in_not_live [OF assms(1)] by (auto simp: sys_inv_def ghosts_inv_def list_all_iff)
  then have "promise (promised_by s) (promised_by (s\<lparr>sy_book := shutdown_finish (sy_book s)\<rparr>))"
    by (intro promise_forget) (simp_all add: shutdown_finish_def)
  then show ?thesis by (simp add: promised_by_def live_def)
qed

lemma step_promised:
  "manager_step ops m s s' \<Longrightarrow> sys_inv s \<Longrightarrow> promise\<^sup>*\<^sup>* (promised_by s) (promised_by s')"
proof (induction rule: manager_step.induct)
  case (reserve now s r b)
  then show ?case using promise_reserve by blast
next
  case (prepare_known now h plan ch s r b)
  then have "b = sy_book s" by (auto simp: prepare_locked_def split: if_splits option.splits)
  then show ?case by simp
next
  case (prepare_spawn plan now h ch s b born d)
  then show ?case using promise_prepare r_into_rtranclp by blast
next
  case (submit now h c receiving s r b)
  then have "promised_by (s\<lparr>sy_book := b\<rparr>) = promised_by s"
    by (intro promise_unseen) (auto simp: submit_locked_def live_def split: if_splits option.splits)
  then show ?case by simp
next
  case (supervisor s h a sl q t a' q')
  let ?s1 = "s\<lparr>sy_book := (sy_book s)\<lparr>bk_slots :=
         put_slot h (sl\<lparr>sl_commands := Some q'\<rparr>) (bk_slots (sy_book s))\<rparr>\<rparr>"
  have "promised_by ?s1 = promised_by s"
    using supervisor.hyps(2) by (intro promise_unseen) (auto simp: live_def)
  then show ?case using promise_advance [of ?s1 h a ops t a'] supervisor.hyps(1,4) by simp
next
  case (orphan s h a t a')
  then show ?case using promise_advance by blast
next
  case (stop_begin h s r b)
  then show ?case using promise_stop by blast
next
  case (stop_end s h)
  then show ?case using promise_drop closed_in_not_live r_into_rtranclp by blast
next
  case (shutdown_begin s hs b)
  then show ?case using promise_shutdown r_into_rtranclp by blast
next
  case (shutdown_end hs s)
  then show ?case using promise_clear r_into_rtranclp by blast
qed

lemma steps_promised:
  assumes "(manager_step ops m)\<^sup>*\<^sup>* s s'" "sys_inv s"
  shows "promise\<^sup>*\<^sup>* (promised_by s) (promised_by s')"
  using assms(1)
proof (induction rule: rtranclp_induct)
  case (step s1 s2)
  have "sys_inv s1" using managed.steps_inv [OF step.hyps(1) assms(2)] .
  then show ?case using step_promised [OF step.hyps(2)] step.IH by (metis rtranclp_trans)
qed simp

lemma promised_init: "promised_by (sys_init nonce) = registry_init"
  by (auto simp: promised_by_def registry_init_def sys_init_def book_new_def issued_by_def live_def)

lemma manager_ok:
  assumes "manager_reachable ops m nonce s"
  shows "registry_ok (promised_by s)"
proof -
  have "promise\<^sup>*\<^sup>* registry_init (promised_by s)"
    using assms
  proof (induction rule: reach.induct)
    case (reach_step s s')
    then show ?case using step_promised managed.reach_inv by (metis rtranclp_trans)
  qed (simp add: promised_init)
  then show ?thesis using promised.steps_inv registry_ok_init by blast
qed

text \<open>
  C7.  The manager refines the abstract registry.  A new manager stands for the empty registry; every
  step of the manager, of a supervisor or of a waiting call stands for a run of the registry's own
  steps (none, one or two); and so every state the manager reaches stands for a registry with at
  most sixteen open handles, all issued before, in which only committed handles are alive.
\<close>

theorem manager_refines_registry:
  assumes "manager_reachable ops m nonce s"
  shows "promised_by (sys_init nonce) = registry_init
    \<and> (\<forall>s'. manager_step ops m s s' \<longrightarrow> promise\<^sup>*\<^sup>* (promised_by s) (promised_by s'))
    \<and> registry_ok (promised_by s)"
  using step_promised managed.reach_inv [OF assms] manager_ok [OF assms] promised_init by blast

text \<open>Preparing the one reservation there is.\<close>

theorem manager_refines_registry_witness:
  "promise\<^sup>*\<^sup>* (promised_by demo_reserved) (promised_by demo_preparing)
   \<and> rg_open (promised_by demo_preparing) demo_handle = Some (Committed demo_worker_plan None)
   \<and> rg_alive (promised_by demo_preparing) = {demo_handle} \<and> registry_ok (promised_by demo_reserved)"
proof -
  have "rg_open (promised_by demo_preparing) demo_handle = Some (Committed demo_worker_plan None)"
      "rg_alive (promised_by demo_preparing) = {demo_handle}"
    by (auto simp: promised_by_def commitment_def live_def demo_preparing_def demo_supervisor_def actor_sys_init_def)
  then show ?thesis
    using manager_refines_registry [OF demo_reserved_reachable] demo_prepare_step by blast
qed

text \<open>
  C8.  What the manager has committed to stays so, whatever calls come later.  A handle whose slot is
  gone never gets one again and never has a live worker again; a handle that was prepared keeps its
  plan and its cache recipe as long as it has a slot, and its worker never comes back once it ended;
  and after a shutdown has begun there is never a new slot nor a new worker.
\<close>

theorem commitments_hold:
  assumes "manager_reachable ops m nonce s" "(manager_step ops m)\<^sup>*\<^sup>* s s'"
  shows "(\<forall>h. issued_by (sy_book s) h \<and> slot_at s h = None \<longrightarrow> slot_at s' h = None \<and> \<not> live s' h)
    \<and> (\<forall>h sl sl' plan. slot_at s h = Some sl \<and> sl_plan sl = Some plan \<and> slot_at s' h = Some sl' \<longrightarrow>
          sl_plan sl' = Some plan \<and> sl_cached sl' = sl_cached sl \<and> (live s' h \<longrightarrow> live s h))
    \<and> (bk_terminal (sy_book s) \<longrightarrow>
          (\<forall>h. (slot_at s' h \<noteq> None \<longrightarrow> slot_at s h \<noteq> None) \<and> (live s' h \<longrightarrow> live s h)))"
proof -
  have inv: "sys_inv s" "sys_inv s'"
    using managed.reach_inv [OF assms(1)] managed.steps_inv [OF assms(2)] by blast+
  have "registry_ok (promised_by s)" using manager_ok [OF assms(1)] .
  then have set: "settled_since (promised_by s) (promised_by s')"
    using settled_run steps_promised [OF assms(2) inv(1)] by blast
  show ?thesis
  proof (intro conjI allI impI)
    fix h assume "issued_by (sy_book s) h \<and> slot_at s h = None"
    then show "slot_at s' h = None" using set by (simp add: settled_since_def promised_by_def)
    then show "\<not> live s' h" using live_slot [OF inv(2), of h] by auto
  next
    fix h sl sl' plan assume "slot_at s h = Some sl \<and> sl_plan sl = Some plan \<and> slot_at s' h = Some sl'"
    then show "sl_plan sl' = Some plan" "sl_cached sl' = sl_cached sl" "live s' h \<Longrightarrow> live s h"
      using settled_committed [OF set, of h plan "sl_cached sl"]
      by (auto simp: promised_by_def commitment_def split: option.splits)
  next
    fix h assume "bk_terminal (sy_book s)"
    then show "slot_at s' h \<noteq> None \<Longrightarrow> slot_at s h \<noteq> None" "live s' h \<Longrightarrow> live s h"
      using set by (auto simp: settled_since_def promised_by_def dom_def)
  qed
qed

text \<open>A worker being prepared is told to stop.\<close>

theorem commitments_hold_witness:
  "\<forall>ops :: unit dir_ops. \<exists>s' sl. (manager_step ops demo_manager)\<^sup>*\<^sup>* demo_preparing s'
     \<and> slot_at s' demo_handle = Some sl \<and> sl_stop sl \<and> sl_plan sl = Some demo_worker_plan"
proof
  fix ops :: "unit dir_ops"
  obtain r b where st: "stop_locked demo_handle (sy_book demo_preparing) = (r, b)" by (metis surj_pair)
  let ?s' = "(tell (\<lambda>k. k = demo_handle) demo_preparing)\<lparr>sy_book := b,
    sy_stopped := (if r = Some (outcome OComplete None) then demo_handle # sy_stopped demo_preparing
                   else sy_stopped demo_preparing)\<rparr>"
  have steps: "(manager_step ops demo_manager)\<^sup>*\<^sup>* demo_preparing ?s'"
    using stop_begin [OF st, of ops demo_manager] by simp
  obtain sl where sl: "slot_at ?s' demo_handle = Some sl" "sl_stop sl"
    using st by (auto simp: stop_locked_def demo_preparing_def put_slot_def stopped_def)
  have "slot_at demo_preparing demo_handle \<noteq> None" by (simp add: demo_preparing_def)
  then obtain sl0 where sl0: "slot_at demo_preparing demo_handle = Some sl0" "sl_plan sl0 = Some demo_worker_plan"
    by (simp add: demo_preparing_def)
  then have "sl_plan sl = Some demo_worker_plan"
    using commitments_hold [OF demo_preparing_reachable steps] sl(1) by blast
  then show "\<exists>s' sl. (manager_step ops demo_manager)\<^sup>*\<^sup>* demo_preparing s'
     \<and> slot_at s' demo_handle = Some sl \<and> sl_stop sl \<and> sl_plan sl = Some demo_worker_plan"
    using steps sl by blast
qed

end
