(* ===== verification/Cache_Publication.thy ===== *)
theory Cache_Publication
  imports Cache_Session
begin

text \<open>
  What the cache relies on of directory handles, as a locale: entries under different names are
  independent, directories form a tree, and a rename or a new directory changes only the entries it
  names.  Inside it, a publication that succeeds leaves a directory in which the same recipe is
  found ready.  The laws are those of a directory tree without aliases, where handles of one directory
  are the same; directories may change their link count and size with what is in them.  The table of
  entries at the end of the theory is a reference model.
\<close>

subsection \<open>The interface\<close>

text \<open>
  Of a directory the code asks the kind only: its link count and its size, which change with what is in
  it, are left out of what two states are compared by.
\<close>

definition seen_meta :: "meta \<Rightarrow> meta" where
  "seen_meta m = (if mt_kind m = KDir then m\<lparr>mt_nlink := 0, mt_len := 0\<rparr> else m)"

definition seen :: "io_error + meta \<Rightarrow> io_error + meta" where
  "seen r = map_sum id seen_meta r"

lemma seen_simps [simp]: "seen (Inl e) = Inl e" "seen (Inr m) = Inr (seen_meta m)"
  by (simp_all add: seen_def)

lemma seen_Inl [simp]: "seen r = Inl e \<longleftrightarrow> r = Inl e"
  by (cases r) simp_all

lemma seen_Inr: "seen r = Inr m \<longleftrightarrow> (\<exists>k. r = Inr k \<and> m = seen_meta k)"
  by (cases r) auto

lemma kind_seen [simp]: "mt_kind (seen_meta m) = mt_kind m"
  by (simp add: seen_meta_def)

lemma sound_seen [simp]: "sound_file (seen_meta m) = sound_file m"
  by (auto simp: seen_meta_def sound_file_def)

lemma seen_sound: "sound_file m \<Longrightarrow> seen_meta m = m"
  by (simp add: seen_meta_def sound_file_def)

lemma seen_meta_eq: "seen_meta m = seen_meta k \<Longrightarrow> sound_file m = sound_file k \<and> mt_kind m = mt_kind k"
  by (metis kind_seen sound_seen)

definition content ::
  "'s dir_ops \<Rightarrow> 's \<Rightarrow> handle \<Rightarrow> string \<Rightarrow> io_error + (io_error + meta) \<times> (io_error + string)" where
  "content ops s h n =
     (case op_open_read ops s h n of
        Inl e \<Rightarrow> Inl e
      | Inr f \<Rightarrow> Inr (seen (op_file_meta ops s f), op_read ops s f (MAX_FILE + 1)))"

text \<open>What the code's decisions can depend on of one entry.\<close>

definition look ::
  "'s dir_ops \<Rightarrow> 's \<Rightarrow> handle \<Rightarrow> string
     \<Rightarrow> (io_error + handle) \<times> (io_error + meta) \<times> (io_error + (io_error + meta) \<times> (io_error + string))" where
  "look ops s h n = (op_open_dir ops s h n, seen (op_stat ops s h n), content ops s h n)"

lemma look_stat:
  assumes "look ops s' k m = look ops s h n" "op_stat ops s h n = Inr mt"
  shows "\<exists>mt'. op_stat ops s' k m = Inr mt' \<and> sound_file mt' = sound_file mt \<and> mt_kind mt' = mt_kind mt"
  using assms by (cases "op_stat ops s' k m") (auto simp: look_def dest: seen_meta_eq)

definition same_except ::
  "'s dir_ops \<Rightarrow> (handle \<times> string) set \<Rightarrow> 's \<Rightarrow> 's \<Rightarrow> bool" where
  "same_except ops X s s' \<longleftrightarrow>
     (\<forall>h n. (h, n) \<notin> X \<longrightarrow> look ops s' h n = look ops s h n)
     \<and> (\<forall>h. op_clone ops s' h = op_clone ops s h)"

text \<open>A chain of directories, each opened from the one before.\<close>

fun chain :: "'s dir_ops \<Rightarrow> 's \<Rightarrow> handle \<Rightarrow> string list \<Rightarrow> handle \<Rightarrow> bool" where
  "chain ops s h [] d \<longleftrightarrow> d = h"
| "chain ops s h (n # ns) d \<longleftrightarrow> (\<exists>c. op_open_dir ops s h n = Inr c \<and> chain ops s c ns d)"

text \<open>A file the session staged that nobody touched since.\<close>

definition staged_file :: "'s dir_ops \<Rightarrow> 's \<Rightarrow> handle \<Rightarrow> string \<Rightarrow> string \<Rightarrow> bool" where
  "staged_file ops s d name bytes \<longleftrightarrow>
     (case op_stat ops s d name of Inl _ \<Rightarrow> False | Inr m \<Rightarrow> sound_file m)
     \<and> (case content ops s d name of
          Inr (Inr m, Inr b) \<Rightarrow> sound_file m \<and> mt_len m = length bytes \<and> b = bytes
        | _ \<Rightarrow> False)"

lemma all_hold_iff: "all_hold f xs = Inr True \<longleftrightarrow> (\<forall>x \<in> set xs. f x = Inr True)"
  by (induction xs) (auto simp: rust_simps)

locale directories =
  fixes ops :: "'s dir_ops"
  assumes open_dir_kind:
      "op_open_dir ops s h n = Inr d \<Longrightarrow> \<exists>m. op_stat ops s h n = Inr m \<and> mt_kind m = KDir"
    and absent:
      "op_open_dir ops s h n = Inl NotFound \<Longrightarrow>
       op_stat ops s h n = Inl NotFound \<and> op_open_read ops s h n = Inl NotFound"
    and one_name:
      "op_open_dir ops s h n = Inr d \<Longrightarrow> op_open_dir ops s h' n' = Inr d \<Longrightarrow> h = h' \<and> n = n'"
    and no_cycle: "chain ops s h ns h \<Longrightarrow> ns = []"
    and create_local: "op_create_dir ops s h n = (r, s') \<Longrightarrow> same_except ops {(h, n)} s s'"
    and rename_local:
      "op_rename ops s h n k m = (None, s') \<Longrightarrow>
       (\<forall>mt. op_stat ops s k m = Inr mt \<longrightarrow> mt_nlink mt = 1) \<Longrightarrow>
       same_except ops {(h, n), (k, m)} s s'"
    and rename_moves:
      "op_rename ops s h n k m = (None, s') \<Longrightarrow>
       (\<forall>mt. op_stat ops s k m = Inr mt \<longrightarrow> mt_nlink mt = 1) \<Longrightarrow>
       look ops s' k m = look ops s h n"
begin

subsection \<open>Walks\<close>

text \<open>Following a path without creating anything depends only on the directories on the way.\<close>

lemma descend_existing:
  "fst (descend ops d n False s) = Inr c \<longleftrightarrow> op_open_dir ops s d n = Inr c"
  by (auto simp: descend_def split: sum.splits)

lemma descend_unchanged: "snd (descend ops d n False s) = s"
  by (auto simp: descend_def split: sum.splits)

lemma parent_loop_walk:
  "parent_loop ops d ps False s = (Inr (p, n), s') \<longleftrightarrow>
   s' = s \<and> ps \<noteq> [] \<and> last ps = n \<and> chain ops s d (butlast ps) p"
proof (induction ps arbitrary: d)
  case (Cons a ps)
  show ?case
  proof (cases ps)
    case Nil
    then show ?thesis by auto
  next
    case (Cons q qs)
    obtain r s1 where de: "descend ops d a False s = (r, s1)" by (metis surj_pair)
    have s1: "s1 = s" using descend_unchanged [of d a s] de by simp
    have r: "r = Inr c \<longleftrightarrow> op_open_dir ops s d a = Inr c" for c
      using descend_existing [of d a s c] de by simp
    show ?thesis
    proof (cases r)
      case (Inl e)
      then have "op_open_dir ops s d a \<noteq> Inr c" for c using r by simp
      then show ?thesis using Cons Inl de by auto
    next
      case (Inr b)
      then have "op_open_dir ops s d a = Inr b" using r by simp
      then show ?thesis using Cons.IH [of b] Cons Inr de s1 by auto
    qed
  qed
qed simp

definition leads :: "'s \<Rightarrow> handle \<Rightarrow> string \<Rightarrow> handle \<Rightarrow> string \<Rightarrow> bool" where
  "leads s d path p n \<longleftrightarrow>
     safe_relative path = Inr () \<and> op_clone ops s d = None
     \<and> last (split_on (CHR ''/'') path) = n \<and> chain ops s d (butlast (split_on (CHR ''/'') path)) p"

lemma fs_parent_leads: "fs_parent ops d path False s = (Inr (p, n), s') \<longleftrightarrow> s' = s \<and> leads s d path p n"
  by (auto simp: fs_parent_def leads_def parent_loop_walk split: sum.splits option.splits)

lemma fs_parent_fst: "fst (fs_parent ops d path False s) = Inr (p, n) \<longleftrightarrow> leads s d path p n"
  by (metis fs_parent_leads fst_conv surjective_pairing)

lemma chain_append: "chain ops s h (xs @ ys) d \<longleftrightarrow> (\<exists>c. chain ops s h xs c \<and> chain ops s c ys d)"
  by (induction xs arbitrary: h) auto

lemma chain_unique: "chain ops s h xs d \<Longrightarrow> chain ops s h ys d \<Longrightarrow> xs = ys"
proof (induction xs arbitrary: ys d rule: rev_induct)
  case Nil
  then show ?case using no_cycle by force
next
  case (snoc x xs)
  then obtain c where c: "chain ops s h xs c" "op_open_dir ops s c x = Inr d"
    by (auto simp: chain_append)
  show ?case
  proof (cases ys rule: rev_cases)
    case Nil
    then show ?thesis using snoc.prems no_cycle by force
  next
    case (snoc zs z)
    then obtain e where e: "chain ops s h zs e" "op_open_dir ops s e z = Inr d"
      using \<open>chain ops s h ys d\<close> by (auto simp: chain_append)
    have "c = e" "x = z" using one_name [OF c(2) e(2)] by auto
    then show ?thesis using snoc.IH [of c zs] c(1) e(1) snoc by simp
  qed
qed

lemma chain_end: "chain ops s h ns d \<Longrightarrow> chain ops s h ns d' \<Longrightarrow> d = d'"
  by (induction ns arbitrary: h) auto

lemma leads_same: "leads s d path p n \<Longrightarrow> leads s d path p' n' \<Longrightarrow> p = p' \<and> n = n'"
  using chain_end by (auto simp: leads_def)

text \<open>Different paths lead to different entries.\<close>

lemma leads_unique: "leads s d path p n \<Longrightarrow> leads s d path' p n \<Longrightarrow> path = path'"
proof -
  assume "leads s d path p n" "leads s d path' p n"
  then have "butlast (split_on (CHR ''/'') path) = butlast (split_on (CHR ''/'') path')"
      "last (split_on (CHR ''/'') path) = last (split_on (CHR ''/'') path')"
    by (auto simp: leads_def dest: chain_unique)
  then have "split_on (CHR ''/'') path = split_on (CHR ''/'') path'"
    by (metis append_butlast_last_id split_on_not_Nil)
  then show ?thesis by (metis split_on_join)
qed

text \<open>A change that spares every directory leaves every walk as it was.\<close>

definition spares :: "(handle \<times> string) set \<Rightarrow> 's \<Rightarrow> bool" where
  "spares X s \<longleftrightarrow> (\<forall>(h, n) \<in> X. \<forall>d. op_open_dir ops s h n \<noteq> Inr d)"

lemma chain_kept:
  assumes "same_except ops X s s'" "spares X s"
  shows "chain ops s h ns d \<Longrightarrow> chain ops s' h ns d"
proof (induction ns arbitrary: h)
  case (Cons n ns)
  then obtain c where c: "op_open_dir ops s h n = Inr c" "chain ops s c ns d" by auto
  then have "(h, n) \<notin> X" using assms(2) by (auto simp: spares_def)
  then have "op_open_dir ops s' h n = Inr c" using assms(1) c(1) by (auto simp: same_except_def look_def)
  then show ?case using Cons.IH [OF c(2)] by auto
qed simp

lemma leads_kept:
  assumes "same_except ops X s s'" "spares X s"
  shows "leads s d path p n \<Longrightarrow> leads s' d path p n"
  using assms(1) chain_kept [OF assms] by (auto simp: leads_def same_except_def)

subsection \<open>Checks\<close>

lemma matches_look:
  assumes "leads s d (ca_path a) p n"
  shows "fs_matches ops s d a =
    (case content ops s p n of
       Inl e \<Rightarrow> if e = NotFound then Inr False else Inl io_failed
     | Inr (mt, bytes) \<Rightarrow>
         qmark (or_fail io_failed mt) (\<lambda>m.
           if \<not> sound_file m then Inl ''cache_entry_unsafe''
           else if MAX_FILE < mt_len m \<or> mt_len m \<noteq> length (ca_bytes a) then Inr False
           else qmark (or_fail io_failed bytes) (\<lambda>b. Inr (b = ca_bytes a))))"
proof -
  have "fst (fs_parent ops d (ca_path a) False s) = Inr (p, n)" using assms fs_parent_fst by simp
  then show ?thesis
    by (cases "op_open_read ops s p n"; cases "op_file_meta ops s (projr (op_open_read ops s p n))")
      (auto simp: fs_matches_def content_def or_fail_def seen_sound rust_simps simp del: One_nat_def)
qed

lemma matches_leads: "fs_matches ops s d a = Inr True \<Longrightarrow> \<exists>p n. leads s d (ca_path a) p n"
  using fs_parent_fst [of d "ca_path a" s]
  by (cases "fst (fs_parent ops d (ca_path a) False s)") (auto simp: fs_matches_def)

lemma required_look:
  assumes "leads s d (ce_path e) p n"
  shows "fs_required ops s d e = Inr True \<longleftrightarrow>
    (\<exists>m. op_stat ops s p n = Inr m
       \<and> (case ce_kind e of
            FileEntry \<Rightarrow> sound_file m
          | DirectoryEntry \<Rightarrow> mt_kind m = KDir
          | AnyEntry \<Rightarrow> mt_kind m = KFile \<or> mt_kind m = KDir \<or> mt_kind m = KLink))"
proof -
  have "fst (fs_parent ops d (ce_path e) False s) = Inr (p, n)" using assms fs_parent_fst by simp
  then show ?thesis by (simp add: fs_required_def split: sum.splits)
qed

lemma required_leads: "fs_required ops s d e = Inr True \<Longrightarrow> \<exists>p n. leads s d (ce_path e) p n"
  using fs_parent_fst [of d "ce_path e" s]
  by (cases "fst (fs_parent ops d (ce_path e) False s)") (auto simp: fs_required_def)

subsection \<open>Creating what is missing\<close>

text \<open>Only entries that were absent differ.\<close>

definition extends :: "'s \<Rightarrow> 's \<Rightarrow> bool" where
  "extends s s' \<longleftrightarrow>
     (\<exists>X. same_except ops X s s' \<and> (\<forall>(h, n) \<in> X. op_open_dir ops s h n = Inl NotFound))"

lemma extends_refl: "extends s s"
  unfolding extends_def by (rule exI [of _ "{}"]) (simp add: same_except_def)

lemma extends_look:
  assumes "extends s s'" "op_open_dir ops s h n \<noteq> Inl NotFound"
  shows "look ops s' h n = look ops s h n"
proof -
  obtain X where X: "same_except ops X s s'" "\<forall>(h, n) \<in> X. op_open_dir ops s h n = Inl NotFound"
    using assms(1) by (auto simp: extends_def)
  have "(h, n) \<notin> X" using X(2) assms(2) by auto
  then show ?thesis using X(1) by (simp add: same_except_def)
qed

lemma extends_dir: "extends s s' \<Longrightarrow> op_open_dir ops s h n = Inr d \<Longrightarrow> op_open_dir ops s' h n = Inr d"
  using extends_look [of s s' h n] by (simp add: look_def)

lemma stat_present: "op_stat ops s h n = Inr m \<Longrightarrow> op_open_dir ops s h n \<noteq> Inl NotFound"
  using absent [of s h n] by auto

lemma content_present: "content ops s h n = Inr x \<Longrightarrow> op_open_dir ops s h n \<noteq> Inl NotFound"
  using absent [of s h n] by (auto simp: content_def)

lemma extends_trans:
  assumes "extends s s1" "extends s1 s2"
  shows "extends s s2"
proof -
  obtain X1 where X1: "same_except ops X1 s s1" "\<forall>(h, n) \<in> X1. op_open_dir ops s h n = Inl NotFound"
    using assms(1) by (auto simp: extends_def)
  obtain X2 where X2: "same_except ops X2 s1 s2" "\<forall>(h, n) \<in> X2. op_open_dir ops s1 h n = Inl NotFound"
    using assms(2) by (auto simp: extends_def)
  have "op_open_dir ops s h n = Inl NotFound" if "(h, n) \<in> X1 \<union> X2" for h n
    using that X1 X2(2) by (cases "(h, n) \<in> X1") (auto simp: same_except_def look_def)
  then show ?thesis
    unfolding extends_def using X1(1) X2(1)
    by (intro exI [of _ "X1 \<union> X2"]) (auto simp: same_except_def)
qed

lemma extends_clone: "extends s s' \<Longrightarrow> op_clone ops s' h = op_clone ops s h"
  by (auto simp: extends_def same_except_def)

lemma extends_leads:
  assumes "extends s s'" "leads s d path p n"
  shows "leads s' d path p n"
proof -
  obtain X where X: "same_except ops X s s'" "\<forall>(h, n) \<in> X. op_open_dir ops s h n = Inl NotFound"
    using assms(1) by (auto simp: extends_def)
  have "spares X s" using X(2) by (auto simp: spares_def)
  then show ?thesis using leads_kept [OF X(1)] assms(2) by blast
qed

lemma descend_creates:
  assumes "descend ops d n True s = (Inr c, s')"
  shows "extends s s' \<and> op_open_dir ops s' d n = Inr c"
proof (cases "op_open_dir ops s d n")
  case (Inr x)
  then show ?thesis using assms extends_refl by (auto simp: descend_def)
next
  case (Inl e)
  then have e: "e = NotFound" using assms by (auto simp: descend_def split: if_splits)
  obtain r s1 where cr: "op_create_dir ops s d n = (r, s1)" by (metis surj_pair)
  have "extends s s1"
    unfolding extends_def using create_local [OF cr] Inl e by (intro exI [of _ "{(d, n)}"]) auto
  then show ?thesis
    using assms Inl e cr
    by (auto simp: descend_def or_fail_def split: option.splits if_splits sum.splits)
qed

lemma parent_loop_creates:
  "parent_loop ops d ps True s = (Inr (p, n), s') \<Longrightarrow>
   extends s s' \<and> ps \<noteq> [] \<and> last ps = n \<and> chain ops s' d (butlast ps) p"
proof (induction ps arbitrary: d s)
  case (Cons a ps)
  show ?case
  proof (cases ps)
    case Nil
    then show ?thesis using Cons.prems extends_refl by auto
  next
    case (Cons q qs)
    then obtain c s1 where de: "descend ops d a True s = (Inr c, s1)"
        and rest: "parent_loop ops c (q # qs) True s1 = (Inr (p, n), s')"
      using Cons.prems by (auto simp: rust_simps)
    have e1: "extends s s1" and o1: "op_open_dir ops s1 d a = Inr c" using descend_creates [OF de] by auto
    have ih: "extends s1 s'" "last (q # qs) = n" "chain ops s' c (butlast (q # qs)) p"
      using Cons.IH [of c s1] rest Cons by simp_all
    have "extends s s'" using extends_trans [OF e1 ih(1)] .
    moreover have "op_open_dir ops s' d a = Inr c" using extends_dir [OF ih(1) o1] .
    ultimately show ?thesis using Cons ih(2,3) by simp
  qed
qed simp

lemma fs_parent_creates:
  assumes "fs_parent ops d path True s = (Inr (p, n), s')"
  shows "extends s s' \<and> leads s' d path p n"
proof -
  have safe: "safe_relative path = Inr ()" and cl: "op_clone ops s d = None"
      and lp: "parent_loop ops d (split_on (CHR ''/'') path) True s = (Inr (p, n), s')"
    using assms by (simp_all add: fs_parent_def split: sum.splits option.splits)
  note ok = parent_loop_creates [OF lp]
  have "op_clone ops s' d = None" using ok extends_clone [of s s' d] cl by simp
  then show ?thesis using ok safe by (simp add: leads_def)
qed

subsection \<open>Promotion\<close>

text \<open>
  After a promotion the destination is the staged file, and every entry that existed is as before,
  except the staged one and the destination.
\<close>

lemma promote_effect:
  assumes pr: "fs_promote ops stage name root dest s = (Inr (), s')"
    and st: "op_stat ops s stage name = Inr m" "sound_file m"
  obtains p t where "leads s' root dest p t" "look ops s' p t = look ops s stage name"
    "\<And>mt. op_stat ops s p t = Inr mt \<Longrightarrow> sound_file mt"
    "\<And>h n. op_open_dir ops s h n \<noteq> Inl NotFound \<Longrightarrow> (h, n) \<noteq> (stage, name) \<Longrightarrow> (h, n) \<noteq> (p, t) \<Longrightarrow>
       look ops s' h n = look ops s h n"
    "\<And>d path q n. leads s d path q n \<Longrightarrow> leads s' d path q n"
proof -
  from pr obtain p t s1 where pa: "fs_parent ops root dest True s = (Inr (p, t), s1)"
      and ok: "\<forall>mt. op_stat ops s1 p t = Inr mt \<longrightarrow> sound_file mt"
      and rn: "op_rename ops s1 stage name p t = (None, s')"
    by (auto simp: fs_promote_def rust_simps done_or_def split: if_splits sum.splits option.splits prod.splits)
      (metis prod.collapse)+
  have ext: "extends s s1" and ld: "leads s1 root dest p t" using fs_parent_creates [OF pa] by auto
  have l1: "look ops s1 stage name = look ops s stage name" using extends_look [OF ext stat_present [OF st(1)]] .
  let ?X = "{(stage, name), (p, t)}"
  have links: "\<forall>mt. op_stat ops s1 p t = Inr mt \<longrightarrow> mt_nlink mt = 1" using ok by (auto simp: sound_file_def)
  note local = rename_local [OF rn links] and moves = rename_moves [OF rn links]
  have nd: "op_open_dir ops s1 p t \<noteq> Inr d" for d
    using open_dir_kind [of s1 p t d] ok by (auto simp: sound_file_def)
  have ns: "op_open_dir ops s1 stage name \<noteq> Inr d" for d
    using open_dir_kind [of s1 stage name d] look_stat [OF l1 st(1)] st(2) by (auto simp: sound_file_def)
  have sp: "spares ?X s1" using nd ns by (auto simp: spares_def)
  show thesis
  proof (rule that)
    show "leads s' root dest p t" using leads_kept [OF local sp ld] .
    show "look ops s' p t = look ops s stage name" using moves l1 by simp
    show "sound_file mt" if "op_stat ops s p t = Inr mt" for mt
      using look_stat [OF extends_look [OF ext stat_present [OF that]] that] ok by auto
    show "look ops s' h n = look ops s h n"
      if "op_open_dir ops s h n \<noteq> Inl NotFound" "(h, n) \<noteq> (stage, name)" "(h, n) \<noteq> (p, t)" for h n
      using extends_look [OF ext that(1)] that(2,3) local by (auto simp: same_except_def)
    show "leads s' d path q n" if "leads s d path q n" for d path q n
      using leads_kept [OF local sp extends_leads [OF ext that]] .
  qed
qed

subsection \<open>Publication\<close>

lemma leads_into:
  assumes "leads s root path d n" "op_open_dir ops s root sn = Inr d"
  shows "split_on (CHR ''/'') path = [sn, n]"
proof -
  have "chain ops s root [sn] d" using assms(2) by simp
  then have "butlast (split_on (CHR ''/'') path) = [sn]" "last (split_on (CHR ''/'') path) = n"
    using assms(1) chain_unique by (auto simp: leads_def)
  then show ?thesis by (metis append_butlast_last_id append_Cons append_Nil split_on_not_Nil)
qed

lemma staged_parts:
  assumes "staged_file ops s d name bytes"
  obtains m m' where "op_stat ops s d name = Inr m" "sound_file m"
    "content ops s d name = Inr (Inr m', Inr bytes)" "sound_file m'" "mt_len m' = length bytes"
proof -
  obtain m where m: "op_stat ops s d name = Inr m" "sound_file m"
    using assms by (cases "op_stat ops s d name") (auto simp: staged_file_def)
  obtain x y where c: "content ops s d name = Inr (x, y)"
    using assms by (cases "content ops s d name") (auto simp: staged_file_def)
  have "(case x of Inl _ \<Rightarrow> False | Inr m' \<Rightarrow>
      (case y of Inl _ \<Rightarrow> False | Inr b \<Rightarrow> sound_file m' \<and> mt_len m' = length bytes \<and> b = bytes))"
    using assms c by (cases x; cases y) (simp_all add: staged_file_def)
  then obtain m' where "x = Inr m'" "y = Inr bytes" "sound_file m'" "mt_len m' = length bytes"
    by (cases x; cases y) auto
  then show thesis using that m c by blast
qed

lemma staged_kept: "look ops s' d name = look ops s d name \<Longrightarrow> staged_file ops s d name b \<Longrightarrow> staged_file ops s' d name b"
proof -
  assume k: "look ops s' d name = look ops s d name" and f: "staged_file ops s d name b"
  obtain m where m: "op_stat ops s d name = Inr m" "sound_file m" using f by (rule staged_parts)
  have "content ops s' d name = content ops s d name" using k by (simp add: look_def)
  then show ?thesis using look_stat [OF k m(1)] f m by (auto simp: staged_file_def)
qed

lemma staged_matches:
  assumes "staged_file ops s d name (ca_bytes a)" "look ops s' p t = look ops s d name"
    and "leads s' root (ca_path a) p t" "length (ca_bytes a) \<le> MAX_FILE"
  shows "fs_matches ops s' root a = Inr True"
proof -
  obtain m m' where "content ops s d name = Inr (Inr m', Inr (ca_bytes a))" "sound_file m'"
      "mt_len m' = length (ca_bytes a)"
    using assms(1) by (rule staged_parts)
  then show ?thesis using matches_look [OF assms(3)] assms(2,4) by (simp add: or_fail_def look_def)
qed

lemma matches_present:
  "fs_matches ops s root a = Inr True \<Longrightarrow> leads s root (ca_path a) p n \<Longrightarrow> op_open_dir ops s p n \<noteq> Inl NotFound"
  using matches_look [of s root a p n] content_present [of s p n]
  by (cases "content ops s p n") (auto split: if_splits)

text \<open>
  A path is outside the stage when it is not an entry directly in it; every accepted path is, and so
  is the identity's.
\<close>

definition outside :: "string \<Rightarrow> string \<Rightarrow> bool" where
  "outside sn path \<longleftrightarrow> (\<forall>n. split_on (CHR ''/'') path \<noteq> [sn, n])"

lemma relative_outside: "relative p = Inr () \<Longrightarrow> outside (''.tinyruntime-'' @ u) p"
  unfolding outside_def
proof (intro allI notI)
  fix n assume p: "relative p = Inr ()" "split_on (CHR ''/'') p = [''.tinyruntime-'' @ u, n]"
  then have "\<not> starts_with ''.tinyruntime-'' (to_ascii_lowercase (''.tinyruntime-'' @ u))"
    using relative_not_own [OF p(1), of "''.tinyruntime-'' @ u"] by simp
  moreover have "to_ascii_lowercase (''.tinyruntime-'' @ u) = ''.tinyruntime-'' @ to_ascii_lowercase u"
    using ascii_lower_own by (simp add: to_ascii_lowercase_def)
  ultimately show False by (simp add: starts_with_iff)
qed

lemma identity_outside: "outside (''.tinyruntime-stage-'' @ u) (''.tinyruntime-recipe-'' @ x)"
  unfolding outside_def by (cases "split_on (CHR ''/'') x") auto

text \<open>One promotion out of the stage, seen from the recipe's paths.\<close>

lemma promote_step:
  assumes P: "fs_promote ops d name root dest s = (Inr (), s')" and st: "staged_file ops s d name bytes"
    and sn: "op_open_dir ops s root sn = Inr d" and out: "outside sn dest"
  shows "\<exists>p t. leads s' root dest p t \<and> look ops s' p t = look ops s d name"
    and "op_open_dir ops s' root sn = Inr d"
    and "other \<noteq> name \<Longrightarrow> staged_file ops s d other b \<Longrightarrow> staged_file ops s' d other b"
    and "leads s root path q n \<Longrightarrow> outside sn path \<Longrightarrow> path \<noteq> dest \<Longrightarrow> op_open_dir ops s q n \<noteq> Inl NotFound \<Longrightarrow>
         leads s' root path q n \<and> look ops s' q n = look ops s q n"
    and "leads s root dest q n \<Longrightarrow> op_stat ops s q n = Inr mt \<Longrightarrow>
         sound_file mt \<and> leads s' root dest q n \<and> look ops s' q n = look ops s d name"
proof -
  obtain m where m: "op_stat ops s d name = Inr m" "sound_file m" using st by (rule staged_parts)
  obtain p t where E: "leads s' root dest p t" "look ops s' p t = look ops s d name"
      "\<And>mt. op_stat ops s p t = Inr mt \<Longrightarrow> sound_file mt"
      "\<And>h n. op_open_dir ops s h n \<noteq> Inl NotFound \<Longrightarrow> (h, n) \<noteq> (d, name) \<Longrightarrow> (h, n) \<noteq> (p, t) \<Longrightarrow>
         look ops s' h n = look ops s h n"
      "\<And>d path q n. leads s d path q n \<Longrightarrow> leads s' d path q n"
    using promote_effect [OF P m] by metis
  show "\<exists>p t. leads s' root dest p t \<and> look ops s' p t = look ops s d name" using E(1,2) by blast
  have "chain ops s root [sn] d" using sn by simp
  then have droot: "d \<noteq> root" using no_cycle [of s root "[sn]"] by auto
  obtain k where "op_stat ops s root sn = Inr k" "mt_kind k = KDir" using open_dir_kind [OF sn] by blast
  then have "(root, sn) \<noteq> (p, t)" using E(3) by (auto simp: sound_file_def)
  then show sn': "op_open_dir ops s' root sn = Inr d" using E(4) [of root sn] sn droot by (auto simp: look_def)
  have pd: "p \<noteq> d" using leads_into [OF _ sn'] E(1) out by (auto simp: outside_def)
  show "staged_file ops s' d other b" if o: "other \<noteq> name" "staged_file ops s d other b"
  proof -
    obtain mo where "op_stat ops s d other = Inr mo" using o(2) by (rule staged_parts)
    then show ?thesis using staged_kept [OF _ o(2)] E(4) [of d other] stat_present o(1) pd by auto
  qed
  show "leads s' root path q n \<and> look ops s' q n = look ops s q n"
    if l: "leads s root path q n" "outside sn path" "path \<noteq> dest" "op_open_dir ops s q n \<noteq> Inl NotFound"
  proof -
    have l': "leads s' root path q n" using E(5) [OF l(1)] .
    have "q \<noteq> d" using leads_into [OF _ sn'] l' l(2) by (auto simp: outside_def)
    moreover have "(q, n) \<noteq> (p, t)" using leads_unique [OF l'] E(1) l(3) by auto
    ultimately show ?thesis using E(4) [OF l(4)] l' by auto
  qed
  show "sound_file mt \<and> leads s' root dest q n \<and> look ops s' q n = look ops s d name"
    if l: "leads s root dest q n" "op_stat ops s q n = Inr mt"
  proof -
    have l': "leads s' root dest q n" using E(5) [OF l(1)] .
    have "q = p \<and> n = t" using leads_same [OF l' E(1)] .
    then show ?thesis using E(2,3) l(2) l' by auto
  qed
qed

text \<open>The checks of readiness survive a promotion elsewhere; the marker's own place may change.\<close>

lemma matches_survive:
  assumes P: "fs_promote ops d name root dest s = (Inr (), s')" "staged_file ops s d name bytes"
      "op_open_dir ops s root sn = Inr d" "outside sn dest"
    and a: "fs_matches ops s root a = Inr True" "outside sn (ca_path a)" "ca_path a \<noteq> dest"
  shows "fs_matches ops s' root a = Inr True"
proof -
  obtain q n where l: "leads s root (ca_path a) q n" using matches_leads [OF a(1)] by blast
  have k: "leads s' root (ca_path a) q n" "look ops s' q n = look ops s q n"
    using promote_step(4) [OF P l a(2,3) matches_present [OF a(1) l]] by auto
  show ?thesis using a(1) matches_look [OF l] matches_look [OF k(1)] k(2) by (simp add: look_def)
qed

lemma required_survives:
  assumes P: "fs_promote ops d name root dest s = (Inr (), s')" "staged_file ops s d name bytes"
      "op_open_dir ops s root sn = Inr d" "outside sn dest"
    and e: "fs_required ops s root e = Inr True" "outside sn (ce_path e)"
  shows "fs_required ops s' root e = Inr True"
proof -
  obtain q n where l: "leads s root (ce_path e) q n" using required_leads [OF e(1)] by blast
  then obtain mt where mt: "op_stat ops s q n = Inr mt"
      and ok: "case ce_kind e of FileEntry \<Rightarrow> sound_file mt | DirectoryEntry \<Rightarrow> mt_kind mt = KDir
        | AnyEntry \<Rightarrow> mt_kind mt = KFile \<or> mt_kind mt = KDir \<or> mt_kind mt = KLink"
    using e(1) required_look by blast
  show ?thesis
  proof (cases "ce_path e = dest")
    case False
    then have "leads s' root (ce_path e) q n" "look ops s' q n = look ops s q n"
      using promote_step(4) [OF P l e(2) _ stat_present [OF mt]] by auto
    then show ?thesis
      using required_look [of s' root e q n] look_stat [of ops s' q n s q n] mt ok by (cases "ce_kind e") auto
  next
    case True
    have k: "sound_file mt" "leads s' root (ce_path e) q n" "look ops s' q n = look ops s d name"
      using promote_step(5) [OF P _ mt] l True by auto
    obtain m where m: "op_stat ops s d name = Inr m" "sound_file m" using P(2) by (rule staged_parts)
    show ?thesis
      using required_look [OF k(2)] look_stat [OF k(3) m(1)] k(1) m(2) ok
      by (cases "ce_kind e") (auto simp: sound_file_def)
  qed
qed

lemma identity_survives:
  assumes P: "fs_promote ops d name root dest s = (Inr (), s')" "staged_file ops s d name bytes"
      "op_open_dir ops s root sn = Inr d" "outside sn dest"
    and i: "regular_file_exists ops s root path = Inr True" "outside sn path" "path \<noteq> dest"
  shows "regular_file_exists ops s' root path = Inr True"
proof -
  obtain q n where l: "leads s root path q n"
    using i(1) fs_parent_fst [of root path s]
    by (cases "fst (fs_parent ops root path False s)") (auto simp: regular_file_exists_def)
  then have f: "fst (fs_parent ops root path False s) = Inr (q, n)" using fs_parent_fst by simp
  then obtain m where m: "op_stat ops s q n = Inr m" "sound_file m"
    using i(1) by (auto simp: regular_file_exists_def split: sum.splits if_splits)
  have k: "leads s' root path q n" "look ops s' q n = look ops s q n"
    using promote_step(4) [OF P l i(2,3) stat_present [OF m(1)]] by auto
  have "fst (fs_parent ops root path False s') = Inr (q, n)" using k(1) fs_parent_fst by simp
  then show ?thesis using look_stat [OF k(2) m(1)] m(2) by (auto simp: regular_file_exists_def)
qed

lemma promoted_matches:
  assumes P: "fs_promote ops d name root (ca_path a) s = (Inr (), s')" "staged_file ops s d name (ca_bytes a)"
      "op_open_dir ops s root sn = Inr d" "outside sn (ca_path a)" and len: "length (ca_bytes a) \<le> MAX_FILE"
  shows "fs_matches ops s' root a = Inr True" "regular_file_exists ops s' root (ca_path a) = Inr True"
proof -
  obtain p t where l: "leads s' root (ca_path a) p t" "look ops s' p t = look ops s d name"
    using promote_step(1) [OF P] by blast
  show "fs_matches ops s' root a = Inr True" using staged_matches [OF P(2) l(2,1) len] .
  obtain m where "op_stat ops s d name = Inr m" "sound_file m" using P(2) by (rule staged_parts)
  moreover have "fst (fs_parent ops root (ca_path a) False s') = Inr (p, t)" using l(1) fs_parent_fst by simp
  ultimately show "regular_file_exists ops s' root (ca_path a) = Inr True"
    using look_stat [OF l(2)] by (auto simp: regular_file_exists_def)
qed

lemma publish_checks_ok:
  assumes "publish_checks ops se r s = Inr d"
  shows "check_binding ops se s = Inr ()"
    and "e \<in> set (cr_required r) \<Longrightarrow> fs_required ops s (se_root se) e = Inr True"
    and "a \<in> set (cr_artifacts r) \<Longrightarrow> fs_matches ops s (se_root se) a = Inr True"
    and "\<exists>g. se_staging se = Some g \<and> sg_directory g = Some d"
proof -
  from assms have c: "check_binding ops se s = Inr ()
      \<and> all_hold (fs_required ops s (se_root se)) (cr_required r) = Inr True
      \<and> all_hold (fs_matches ops s (se_root se)) (cr_artifacts r) = Inr True
      \<and> (\<exists>g. se_staging se = Some g \<and> sg_directory g = Some d)"
    by (cases "check_binding ops se s"; cases "all_hold (fs_required ops s (se_root se)) (cr_required r)";
        cases "all_hold (fs_matches ops s (se_root se)) (cr_artifacts r)")
      (auto simp: publish_checks_def staging_directory_def split: if_splits option.splits)
  show "check_binding ops se s = Inr ()" using c by (rule conjunct1)
  show "\<exists>g. se_staging se = Some g \<and> sg_directory g = Some d" using c by (elim conjE)
  show "e \<in> set (cr_required r) \<Longrightarrow> fs_required ops s (se_root se) e = Inr True" using c all_hold_iff [of "fs_required ops s (se_root se)"] by simp
  show "a \<in> set (cr_artifacts r) \<Longrightarrow> fs_matches ops s (se_root se) a = Inr True" using c all_hold_iff [of "fs_matches ops s (se_root se)"] by simp
qed

lemma publish_ready:
  assumes valid: "validate_recipe r = Inr ()"
    and own: "ca_path (se_recipe_identity se) = ''.tinyruntime-recipe-'' @ x"
      "length (ca_bytes (se_recipe_identity se)) \<le> MAX_FILE"
    and stage: "op_open_dir ops s (se_root se) (''.tinyruntime-stage-'' @ u) = Inr d"
      "staged_file ops s d ''identity'' (ca_bytes (se_recipe_identity se))"
      "staged_file ops s d ''marker'' (ca_bytes (cr_marker r))"
    and checks: "publish_checks ops se r s = Inr d"
    and pub: "session_publish ops r se s = (Inr (), s')"
  shows "session_readiness ops se r s' = Inr RCached"
proof -
  let ?root = "se_root se" and ?own = "se_recipe_identity se" and ?m = "cr_marker r"
    and ?sn = "''.tinyruntime-stage-'' @ u"
  from pub checks obtain s1 where P1: "fs_promote ops d ''identity'' ?root (ca_path ?own) s = (Inr (), s1)"
      and P2: "fs_promote ops d ''marker'' ?root (ca_path ?m) s1 = (Inr (), s')"
    by (auto simp: session_publish_def rust_simps)
  have oo: "outside ?sn (ca_path ?own)" using identity_outside own(1) by simp
  have out: "relative p = Inr () \<Longrightarrow> outside ?sn p \<and> p \<noteq> ca_path ?own" for p
    using relative_outside [of p "''stage-'' @ u"] relative_avoids_own [of p "''recipe-'' @ x"] own(1) by simp
  have rm: "relative (ca_path ?m) = Inr ()" "length (ca_bytes ?m) \<le> MAX_FILE"
    using validate_recipe_ok(2) [OF valid, of ?m] by auto
  note S1 = P1 stage(2,1) oo
  have sn1: "op_open_dir ops s1 ?root ?sn = Inr d" using promote_step(2) [OF S1] .
  have st1: "staged_file ops s1 d ''marker'' (ca_bytes ?m)" using promote_step(3) [OF S1 _ stage(3)] by simp
  note S2 = P2 st1 sn1
  have om: "outside ?sn (ca_path ?m)" using out rm(1) by blast
  have arts: "fs_matches ops s' ?root a = Inr True" if a: "a \<in> set (cr_artifacts r)" for a
  proof -
    have ra: "relative (ca_path a) = Inr ()" using validate_recipe_ok(2) [OF valid, of a] a by simp
    have "ca_path a \<noteq> ca_path ?m" using validate_recipe_ok(1) [OF valid] a by (auto simp: image_iff)
    then show ?thesis
      using matches_survive [OF S2 om] matches_survive [OF S1 publish_checks_ok(3) [OF checks a]] out [OF ra] by simp
  qed
  have reqs: "fs_required ops s' ?root e = Inr True" if e: "e \<in> set (cr_required r)" for e
    using required_survives [OF S2 om] required_survives [OF S1 publish_checks_ok(2) [OF checks e]]
      out [OF validate_recipe_ok(3) [OF valid e]] by simp
  have "ca_path ?own \<noteq> ca_path ?m" using out [OF rm(1)] by auto
  then have "fs_matches ops s' ?root ?own = Inr True" "regular_file_exists ops s' ?root (ca_path ?own) = Inr True"
    using matches_survive [OF S2 om _ oo] identity_survives [OF S2 om _ oo] promoted_matches [OF S1 own(2)] by auto
  moreover have "all_hold (fs_matches ops s' ?root) (cr_artifacts r) = Inr True"
      "all_hold (fs_required ops s' ?root) (cr_required r) = Inr True"
    using arts reqs all_hold_iff by blast+
  ultimately show ?thesis
    using promoted_matches(1) [OF S2 om rm(2)] by (simp add: session_readiness_def)
qed

end

subsection \<open>A reference model\<close>

text \<open>
  A table of entries, each with the handle of its directory and its name.  The directory in row
  \<open>i\<close> has the handle \<open>i + 1\<close>, the root the handle 0; a row that is gone keeps its place.  Files are
  known by their row.  A directory has the link count and the size that its entries give it.
\<close>

datatype entry_node = EDirectory | EFile string | EGone

record entry =
  en_parent :: handle
  en_name :: string
  en_node :: entry_node

definition hit :: "handle \<Rightarrow> string \<Rightarrow> entry \<Rightarrow> bool" where
  "hit h n e \<longleftrightarrow> en_parent e = h \<and> en_name e = n \<and> en_node e \<noteq> EGone"

fun row_from :: "nat \<Rightarrow> handle \<Rightarrow> string \<Rightarrow> entry list \<Rightarrow> nat option" where
  "row_from i h n [] = None"
| "row_from i h n (e # es) = (if hit h n e then Some i else row_from (i + 1) h n es)"

abbreviation row :: "entry list \<Rightarrow> handle \<Rightarrow> string \<Rightarrow> nat option" where
  "row t h n \<equiv> row_from 0 h n t"

definition node_of :: "entry list \<Rightarrow> nat \<Rightarrow> entry_node" where
  "node_of t i = (if i < length t then en_node (t ! i) else EGone)"

definition row_meta :: "entry list \<Rightarrow> nat \<Rightarrow> io_error + meta" where
  "row_meta t i =
     (case node_of t i of
        EDirectory \<Rightarrow>
          Inr \<lparr>mt_kind = KDir,
               mt_nlink = 2 + length (filter (\<lambda>e. en_parent e = i + 1 \<and> en_node e = EDirectory) t),
               mt_len = length (filter (\<lambda>e. en_parent e = i + 1 \<and> en_node e \<noteq> EGone) t), mt_id = (0, i + 1)\<rparr>
      | EFile c \<Rightarrow> Inr \<lparr>mt_kind = KFile, mt_nlink = 1, mt_len = length c, mt_id = (0, i + 1)\<rparr>
      | EGone \<Rightarrow> Inl NotFound)"

definition table_open_dir :: "entry list \<Rightarrow> handle \<Rightarrow> string \<Rightarrow> io_error + handle" where
  "table_open_dir t h n =
     (case row t h n of
        None \<Rightarrow> Inl NotFound
      | Some i \<Rightarrow>
          if node_of t i = EDirectory \<and> h \<le> i then Inr (i + 1) else Inl NotADirectory)"

definition table_stat :: "entry list \<Rightarrow> handle \<Rightarrow> string \<Rightarrow> io_error + meta" where
  "table_stat t h n = (case row t h n of None \<Rightarrow> Inl NotFound | Some i \<Rightarrow> row_meta t i)"

definition table_open_read :: "entry list \<Rightarrow> handle \<Rightarrow> string \<Rightarrow> io_error + file_handle" where
  "table_open_read t h n = (case row t h n of None \<Rightarrow> Inl NotFound | Some i \<Rightarrow> Inr i)"

definition table_read :: "entry list \<Rightarrow> file_handle \<Rightarrow> nat \<Rightarrow> io_error + string" where
  "table_read t f limit =
     (case node_of t f of EFile c \<Rightarrow> Inr (if length c \<le> limit then c else take limit c) | _ \<Rightarrow> Inl IsADirectory)"

text \<open>A directory is made only in a directory there is, and not where files wait for one with its handle.\<close>

definition table_create_dir :: "entry list \<Rightarrow> handle \<Rightarrow> string \<Rightarrow> io_error option \<times> entry list" where
  "table_create_dir t h n =
     (if row t h n \<noteq> None then (Some AlreadyExists, t)
      else if length t < h \<or> list_ex (\<lambda>e. en_parent e = length t + 1) t then (Some InvalidInput, t)
      else (None, t @ [\<lparr>en_parent = h, en_name = n, en_node = EDirectory\<rparr>]))"

definition table_create_new :: "entry list \<Rightarrow> handle \<Rightarrow> string \<Rightarrow> (io_error + file_handle) \<times> entry list" where
  "table_create_new t h n =
     (if row t h n \<noteq> None then (Inl AlreadyExists, t)
      else (Inr (length t), t @ [\<lparr>en_parent = h, en_name = n, en_node = EFile []\<rparr>]))"

definition table_open_create :: "entry list \<Rightarrow> handle \<Rightarrow> string \<Rightarrow> (io_error + file_handle) \<times> entry list" where
  "table_open_create t h n =
     (case row t h n of Some i \<Rightarrow> (Inr i, t) | None \<Rightarrow> table_create_new t h n)"

definition table_write :: "entry list \<Rightarrow> file_handle \<Rightarrow> string \<Rightarrow> io_error option \<times> entry list" where
  "table_write t f bytes =
     (case node_of t f of
        EFile c \<Rightarrow> (None, t[f := (t ! f)\<lparr>en_node := EFile (c @ bytes)\<rparr>])
      | _ \<Rightarrow> (Some IsADirectory, t))"

definition table_empty :: "entry list \<Rightarrow> file_handle \<Rightarrow> io_error option \<times> entry list" where
  "table_empty t f =
     (case node_of t f of
        EFile _ \<Rightarrow> (None, t[f := (t ! f)\<lparr>en_node := EFile []\<rparr>])
      | _ \<Rightarrow> (Some IsADirectory, t))"

text \<open>Only files are moved: that is all the cache asks for.\<close>

definition vacate :: "handle \<Rightarrow> string \<Rightarrow> entry \<Rightarrow> entry" where
  "vacate k m e = (if hit k m e then e\<lparr>en_node := EGone\<rparr> else e)"

definition table_rename ::
  "entry list \<Rightarrow> handle \<Rightarrow> string \<Rightarrow> handle \<Rightarrow> string \<Rightarrow> io_error option \<times> entry list" where
  "table_rename t h n k m =
     (case row t h n of
        None \<Rightarrow> (Some NotFound, t)
      | Some i \<Rightarrow>
          if node_of t i = EDirectory then (Some InvalidInput, t)
          else if (h, n) = (k, m) then (None, t)
          else if list_ex (\<lambda>e. hit k m e \<and> en_node e = EDirectory) t then (Some IsADirectory, t)
          else (None, (map (\<lambda>e. vacate k m (vacate h n e)) t)[i := (t ! i)\<lparr>en_parent := k, en_name := m\<rparr>]))"

definition table_remove :: "entry list \<Rightarrow> handle \<Rightarrow> string \<Rightarrow> io_error option \<times> entry list" where
  "table_remove t h n =
     (case row t h n of
        None \<Rightarrow> (Some NotFound, t)
      | Some i \<Rightarrow>
          if node_of t i = EDirectory then (Some IsADirectory, t)
          else (None, t[i := (t ! i)\<lparr>en_node := EGone\<rparr>]))"

definition table_remove_dir :: "entry list \<Rightarrow> handle \<Rightarrow> io_error option \<times> entry list" where
  "table_remove_dir t h =
     (if h = 0 \<or> node_of t (h - 1) \<noteq> EDirectory then (Some NotFound, t)
      else if list_ex (\<lambda>e. en_parent e = h \<and> en_node e \<noteq> EGone) t then (Some DirectoryNotEmpty, t)
      else (None, t[h - 1 := (t ! (h - 1))\<lparr>en_node := EGone\<rparr>]))"

definition table_ops :: "entry list dir_ops" where
  "table_ops =
     \<lparr>op_ambient = (\<lambda>t anchor. if anchor = ''/'' then Inr 0 else Inl NotFound),
      op_clone = (\<lambda>t h. None), op_open_dir = table_open_dir, op_create_dir = table_create_dir,
      op_dir_id = (\<lambda>t h. Inr (0, h)), op_dir_mode = (\<lambda>t h m. (None, t)), op_stat = table_stat,
      op_open_read = table_open_read, op_open_lock = table_open_create, op_open_write = table_open_create,
      op_create_new = table_create_new, op_file_meta = row_meta, op_file_mode = (\<lambda>t f m. (None, t)),
      op_set_len_zero = table_empty, op_read = table_read, op_write_all = table_write,
      op_sync_all = (\<lambda>t f. None), op_rename = table_rename, op_remove_file = table_remove,
      op_remove_entry = table_remove, op_remove_open_dir = table_remove_dir\<rparr>"

lemma table_ops_simps [simp]:
  "op_clone table_ops = (\<lambda>t h. None)" "op_open_dir table_ops = table_open_dir"
  "op_create_dir table_ops = table_create_dir" "op_stat table_ops = table_stat"
  "op_open_read table_ops = table_open_read" "op_file_meta table_ops = row_meta"
  "op_read table_ops = table_read" "op_rename table_ops = table_rename"
  by (simp_all add: table_ops_def)

lemma row_from_Some: "row_from i h n t = Some j \<Longrightarrow> i \<le> j \<and> j < i + length t \<and> hit h n (t ! (j - i))"
proof (induction t arbitrary: i)
  case (Cons e es)
  then show ?case by (cases "hit h n e") (fastforce simp: nth_Cons' not_le)+
qed simp

lemma row_from_append:
  "row_from i h n (t @ u) = (case row_from i h n t of Some j \<Rightarrow> Some j | None \<Rightarrow> row_from (i + length t) h n u)"
  by (induction t arbitrary: i) (simp_all add: add.commute split: option.splits)

lemma row_from_cong:
  "length t = length u \<Longrightarrow> (\<And>j. j < length t \<Longrightarrow> hit h n (t ! j) = hit h n (u ! j)) \<Longrightarrow>
   row_from i h n t = row_from i h n u"
proof (induction t u arbitrary: i rule: list_induct2)
  case (Cons x xs y ys)
  have "hit h n x = hit h n y" using Cons.prems [of 0] by simp
  moreover have "row_from (i + 1) h n xs = row_from (i + 1) h n ys"
    using Cons.IH Cons.prems [of "Suc j" for j] by fastforce
  ultimately show ?case by simp
qed simp

lemma row_from_only:
  "j < length t \<Longrightarrow> hit h n (t ! j) \<Longrightarrow> (\<And>l. l < length t \<Longrightarrow> l \<noteq> j \<Longrightarrow> \<not> hit h n (t ! l)) \<Longrightarrow>
   row_from i h n t = Some (i + j)"
proof (induction t arbitrary: i j)
  case (Cons e es)
  show ?case
  proof (cases j)
    case 0
    then show ?thesis using Cons.prems(2) by simp
  next
    case (Suc j')
    have "\<not> hit h n e" using Cons.prems(3) [of 0] Suc by simp
    moreover have "row_from (i + 1) h n es = Some (i + 1 + j')"
      using Cons.prems Suc Cons.prems(3) [of "Suc l" for l] by (intro Cons.IH) auto
    ultimately show ?thesis using Suc by simp
  qed
qed simp

lemma table_chain_grows: "chain table_ops t h ns d \<Longrightarrow> h \<le> d \<and> (ns \<noteq> [] \<longrightarrow> h < d)"
proof (induction ns arbitrary: h)
  case (Cons n ns)
  then obtain c where c: "table_open_dir t h n = Inr c" "chain table_ops t c ns d" by auto
  then have "h < c" by (auto simp: table_open_dir_def split: option.splits if_splits)
  then show ?case using Cons.IH [OF c(2)] by simp
qed simp

text \<open>What can be observed of an entry follows from its row and that row's node.\<close>

lemma row_meta_cong: "node_of t' i = node_of t i \<Longrightarrow> seen (row_meta t' i) = seen (row_meta t i)"
  by (cases "node_of t i") (simp_all add: row_meta_def seen_meta_def)

lemma table_look_cong:
  assumes "row t' h n = row t h n" "\<And>i. row t h n = Some i \<Longrightarrow> node_of t' i = node_of t i"
  shows "look table_ops t' h n = look table_ops t h n"
proof (cases "row t h n")
  case (Some i)
  then show ?thesis
    using assms(1) assms(2) [OF Some] row_meta_cong [OF assms(2) [OF Some]]
    by (simp add: look_def content_def table_open_dir_def table_stat_def table_open_read_def table_read_def)
qed (use assms(1) in \<open>simp add: look_def content_def table_open_dir_def table_stat_def table_open_read_def\<close>)

lemma table_create_local: "table_create_dir t h n = (r, t') \<Longrightarrow> same_except table_ops {(h, n)} t t'"
proof (cases "row t h n")
  case None
  assume "table_create_dir t h n = (r, t')"
  then have "t' = t \<or> t' = t @ [\<lparr>en_parent = h, en_name = n, en_node = EDirectory\<rparr>]"
    using None by (auto simp: table_create_dir_def split: if_splits)
  moreover have "same_except table_ops {(h, n)} t t'" if t': "t' = t @ [\<lparr>en_parent = h, en_name = n, en_node = EDirectory\<rparr>]"
  proof -
  have "look table_ops t' g m = look table_ops t g m" if "(g, m) \<notin> {(h, n)}" for g m
  proof (rule table_look_cong)
    show "row t' g m = row t g m"
      using that unfolding t' row_from_append by (auto simp: hit_def split: option.splits)
    show "node_of t' i = node_of t i" if "row t g m = Some i" for i
      using row_from_Some [OF that] by (simp add: t' node_of_def nth_append)
  qed
  then show ?thesis by (simp add: same_except_def)
  qed
  ultimately show ?thesis by (auto simp: same_except_def)
qed (simp add: table_create_dir_def same_except_def)

lemma table_rename_cases:
  assumes "table_rename t h n k m = (None, t')"
  obtains "(h, n) = (k, m)" "t' = t"
  | i where "row t h n = Some i" "node_of t i \<noteq> EDirectory" "(h, n) \<noteq> (k, m)"
      "t' = (map (\<lambda>e. vacate k m (vacate h n e)) t)[i := (t ! i)\<lparr>en_parent := k, en_name := m\<rparr>]"
  using assms by (auto simp: table_rename_def split: option.splits if_splits)

lemma table_renamed_hit:
  assumes "row t h n = Some i" "(h, n) \<noteq> (k, m)" "j < length t"
    and t': "t' = (map (\<lambda>e. vacate k m (vacate h n e)) t)[i := (t ! i)\<lparr>en_parent := k, en_name := m\<rparr>]"
  shows "hit k m (t' ! j) \<longleftrightarrow> j = i"
    and "(g, p) \<notin> {(h, n), (k, m)} \<Longrightarrow> hit g p (t' ! j) = hit g p (t ! j)"
  using row_from_Some [OF assms(1)] assms(2,3)
  by (cases "j = i"; auto simp: t' hit_def vacate_def)+

lemma table_renamed_node:
  assumes "row t h n = Some i" "(h, n) \<noteq> (k, m)"
    and t': "t' = (map (\<lambda>e. vacate k m (vacate h n e)) t)[i := (t ! i)\<lparr>en_parent := k, en_name := m\<rparr>]"
  shows "node_of t' i = node_of t i"
    and "j < length t \<Longrightarrow> \<not> hit k m (t ! j) \<Longrightarrow> \<not> hit h n (t ! j) \<Longrightarrow> node_of t' j = node_of t j"
  using row_from_Some [OF assms(1)]
  by (auto simp: t' node_of_def vacate_def nth_list_update)

lemma table_rename_local:
  assumes "table_rename t h n k m = (None, t')"
  shows "same_except table_ops {(h, n), (k, m)} t t'"
  using assms
proof (rule table_rename_cases)
  fix i
  assume r: "row t h n = Some i" "(h, n) \<noteq> (k, m)"
    and t': "t' = (map (\<lambda>e. vacate k m (vacate h n e)) t)[i := (t ! i)\<lparr>en_parent := k, en_name := m\<rparr>]"
  have "look table_ops t' g p = look table_ops t g p" if gp: "(g, p) \<notin> {(h, n), (k, m)}" for g p
  proof (rule table_look_cong)
    show "row t' g p = row t g p"
      using table_renamed_hit(2) [OF r _ t' gp] by (intro row_from_cong) (simp_all add: t')
    show "node_of t' j = node_of t j" if "row t g p = Some j" for j
      using row_from_Some [OF that] gp by (intro table_renamed_node(2) [OF r t']) (auto simp: hit_def)
  qed
  then show ?thesis by (simp add: same_except_def)
qed (simp add: same_except_def)

lemma table_rename_moves:
  assumes "table_rename t h n k m = (None, t')"
  shows "look table_ops t' k m = look table_ops t h n"
  using assms
proof (rule table_rename_cases)
  fix i
  assume r: "row t h n = Some i" "(h, n) \<noteq> (k, m)" and isf: "node_of t i \<noteq> EDirectory"
    and t': "t' = (map (\<lambda>e. vacate k m (vacate h n e)) t)[i := (t ! i)\<lparr>en_parent := k, en_name := m\<rparr>]"
  have len: "length t' = length t" by (simp add: t')
  have i: "i < length t" using row_from_Some [OF r(1)] by simp
  have "row t' k m = Some (0 + i)"
    using table_renamed_hit(1) [OF r _ t'] i by (intro row_from_only) (simp_all add: len)
  then show ?thesis
    using r(1) isf table_renamed_node(1) [OF r t'] row_meta_cong [OF table_renamed_node(1) [OF r t']]
    by (simp add: look_def content_def table_open_dir_def table_stat_def table_open_read_def table_read_def)
qed simp

interpretation table_dirs: directories table_ops
proof unfold_locales
  fix t :: "entry list" and h h' n n' d
  show "\<exists>m. op_stat table_ops t h n = Inr m \<and> mt_kind m = KDir" if "op_open_dir table_ops t h n = Inr d"
    using that by (auto simp: table_open_dir_def table_stat_def row_meta_def split: option.splits if_splits)
  show "op_stat table_ops t h n = Inl NotFound \<and> op_open_read table_ops t h n = Inl NotFound"
    if "op_open_dir table_ops t h n = Inl NotFound"
    using that by (auto simp: table_open_dir_def table_stat_def table_open_read_def split: option.splits if_splits)
  show "h = h' \<and> n = n'" if "op_open_dir table_ops t h n = Inr d" "op_open_dir table_ops t h' n' = Inr d"
  proof -
    have "hit h n (t ! (d - 1))" "hit h' n' (t ! (d - 1))"
      using that by (auto simp: table_open_dir_def split: option.splits if_splits dest!: row_from_Some)
    then show ?thesis by (simp add: hit_def)
  qed
next
  fix t :: "entry list" and h ns
  show "ns = []" if "chain table_ops t h ns h" using table_chain_grows [OF that] by auto
qed (use table_create_local table_rename_local table_rename_moves in auto)

end
