(* ===== verification/Cache_Properties.thy ===== *)
theory Cache_Properties
  imports Cache_Publication Worker_Actor
begin

text \<open>
  The properties of cached preparations: what accepted recipes and scopes can name, what a
  successful preparation has checked, and that a published recipe is found ready.
\<close>

subsection \<open>What may be named\<close>

definition recipe_paths :: "cache_recipe \<Rightarrow> string list" where
  "recipe_paths r = map ca_path (cr_artifacts r @ [cr_marker r]) @ map ce_path (cr_required r)"

definition harmless_part :: "string \<Rightarrow> bool" where
  "harmless_part part \<longleftrightarrow>
     part \<noteq> [] \<and> part \<noteq> ''.'' \<and> part \<noteq> ''..'' \<and> \<not> forbidden part
     \<and> \<not> starts_with ''.tinyruntime-'' (to_ascii_lowercase part)"

lemma relative_harmless:
  "relative p = Inr () \<Longrightarrow> part \<in> set (split_on (CHR ''/'') p) \<Longrightarrow> harmless_part part"
  using safe_relative_parts [OF relative_safe] relative_not_own
  by (auto simp: harmless_part_def bad_part_def)

lemma validate_recipe_paths:
  "validate_recipe r = Inr () \<Longrightarrow> p \<in> set (recipe_paths r) \<Longrightarrow> relative p = Inr ()"
  using validate_recipe_ok(2,3) [of r] by (auto simp: recipe_paths_def)

text \<open>
  C26.  Every path of an accepted recipe stays inside its scope: no part of it is empty, \<open>.\<close>, \<open>..\<close>
  or a private directory's name, and none of them can be the lock, a staging directory or an
  identity file, in any casing.  The files it writes are pairwise different.
\<close>

theorem recipe_paths_safe:
  assumes "validate_recipe r = Inr ()"
  shows "distinct (map ca_path (cr_artifacts r @ [cr_marker r]))
    \<and> (\<forall>p \<in> set (recipe_paths r). length p \<le> 512 \<and> list_all harmless_part (split_on (CHR ''/'') p)
         \<and> p \<noteq> LOCK_NAME \<and> (\<forall>x. p \<noteq> ''.tinyruntime-stage-'' @ x \<and> p \<noteq> ''.tinyruntime-recipe-'' @ x))
    \<and> (\<forall>a \<in> set (cr_artifacts r @ [cr_marker r]). length (ca_bytes a) \<le> MAX_FILE)"
proof (intro conjI ballI allI)
  fix p assume "p \<in> set (recipe_paths r)"
  then have p: "relative p = Inr ()" by (rule validate_recipe_paths [OF assms])
  show "length p \<le> 512" using relative_safe [OF p] by (auto simp: safe_relative_def split: if_splits)
  show "list_all harmless_part (split_on (CHR ''/'') p)" using relative_harmless [OF p] by (simp add: list_all_iff)
  show "p \<noteq> LOCK_NAME" using relative_avoids_own [OF p, of "''cache.lock''"] by (simp add: LOCK_NAME_def)
  show "p \<noteq> ''.tinyruntime-stage-'' @ x" "p \<noteq> ''.tinyruntime-recipe-'' @ x" for x
    using relative_avoids_own [OF p, of "''stage-'' @ x"] relative_avoids_own [OF p, of "''recipe-'' @ x"] by simp_all
qed (use validate_recipe_ok(1,2) [OF assms] in auto)

definition demo_step :: worker_command where
  "demo_step = \<lparr>wc_executable = ''/opt/pip'', wc_args = [], wc_env = [], wc_timeout_ms = None\<rparr>"

definition demo_recipe :: cache_recipe where
  "demo_recipe =
     \<lparr>cr_scope = ''models'', cr_artifacts = [\<lparr>ca_path = ''req.txt'', ca_bytes = ''torch''\<rparr>], cr_steps = [demo_step],
      cr_required = [\<lparr>ce_path = ''venv'', ce_kind = DirectoryEntry\<rparr>],
      cr_marker = \<lparr>ca_path = ''done'', ca_bytes = ''v1''\<rparr>, cr_adoption = Strict, cr_timeout_ms = 60000\<rparr>"

lemma demo_relative [simp]:
  "relative ''req.txt'' = Inr ()" "relative ''done'' = Inr ()" "relative ''venv'' = Inr ()"
  by code_simp+

lemma demo_safe_relative [simp]:
  "safe_relative ''req.txt'' = Inr ()" "safe_relative ''done'' = Inr ()" "safe_relative ''venv'' = Inr ()"
  by code_simp+

lemma demo_recipe_valid: "validate_recipe demo_recipe = Inr ()"
proof -
  have "valid_id ''models''" by code_simp
  moreover have "is_absolute ''/opt/pip'' \<and> \<not> contains_char NUL ''/opt/pip''" by code_simp
  then have "validate_command demo_step = Inr ()" by (simp add: validate_command_def demo_step_def command_bytes_def)
  ultimately show ?thesis by (simp add: validate_recipe_def demo_recipe_def MAX_FILE_def)
qed

theorem recipe_paths_safe_witness:
  "validate_recipe demo_recipe = Inr () \<and> recipe_paths demo_recipe = [''req.txt'', ''done'', ''venv'']
   \<and> list_all (\<lambda>p. list_all harmless_part (split_on (CHR ''/'') p)) (recipe_paths demo_recipe)"
  using recipe_paths_safe [OF demo_recipe_valid] demo_recipe_valid
  by (simp add: recipe_paths_def demo_recipe_def)

text \<open>
  C27.  The cache scopes a host is accepted with are at most 32, named differently, and no path lies
  inside two of them.  Each is an absolute directory two names deep or more, without \<open>..\<close> or a
  private directory on the way, is not the home directory and is outside the system's directories.
\<close>

theorem scopes_disjoint:
  assumes "validate_scopes home ss = Inr ()"
  shows "length ss \<le> 32 \<and> distinct (map cs_id ss)
    \<and> (\<forall>i j v. i < length ss \<and> j < length ss
          \<and> vpath_starts_with v (view (cs_root (ss ! i))) \<and> vpath_starts_with v (view (cs_root (ss ! j))) \<longrightarrow> i = j)
    \<and> (\<forall>s \<in> set ss. \<exists>names. view (cs_root s) = (True, map Normal names) \<and> 2 \<le> length names
          \<and> list_all (\<lambda>n. \<not> forbidden n) names \<and> (\<forall>h. home = Some h \<longrightarrow> view (cs_root s) \<noteq> view h)
          \<and> (\<forall>d \<in> set SYSTEM_ROOTS. \<not> vpath_starts_with (view (cs_root s)) (view d)))"
proof (intro conjI ballI allI impI)
  show "length ss \<le> 32" using assms by (auto simp: validate_scopes_def split: if_splits)
  have apart: "\<not> scope_conflict (ss ! i) (ss ! j)" if "i < j" "j < length ss" for i j
    using validate_scopes_ok(2) [OF assms that] .
  then show "distinct (map cs_id ss)"
    by (auto simp: distinct_conv_nth scope_conflict_def) (metis linorder_neqE_nat)
  show "i = j" if "i < length ss \<and> j < length ss
      \<and> vpath_starts_with v (view (cs_root (ss ! i))) \<and> vpath_starts_with v (view (cs_root (ss ! j)))" for i j v
  proof (rule ccontr)
    assume "i \<noteq> j"
    have "vpath_starts_with (view (cs_root (ss ! i))) (view (cs_root (ss ! j)))
        \<or> vpath_starts_with (view (cs_root (ss ! j))) (view (cs_root (ss ! i)))"
      using that prefix_same_cases by (auto simp: vpath_starts_with_def)
    then show False using apart [of i j] apart [of j i] \<open>i \<noteq> j\<close> that
      by (cases "i < j") (auto simp: scope_conflict_def not_less)
  qed
next
  fix s assume "s \<in> set ss"
  then have v: "validate_scope home s = Inr ()" using validate_scopes_ok(1) [OF assms] by blast
  then obtain n where n: "scope_components 0 (components (cs_root s)) = Inr n" "2 \<le> n"
      and abs: "is_absolute (cs_root s)" and home: "(\<forall>h. home = Some h \<longrightarrow> view (cs_root s) \<noteq> view h)"
      and sys: "\<forall>d \<in> set SYSTEM_ROOTS. \<not> vpath_starts_with (view (cs_root s)) (view d)"
    by (cases home) (auto simp: validate_scope_def list_ex_iff split: if_splits sum.splits)
  obtain names where "components (cs_root s) = map Normal names" "list_all (\<lambda>v. \<not> forbidden v) names" "n = length names"
    using scope_components_ok [OF n(1)] by auto
  then show "\<exists>names. view (cs_root s) = (True, map Normal names) \<and> 2 \<le> length names
      \<and> list_all (\<lambda>n. \<not> forbidden n) names \<and> (\<forall>h. home = Some h \<longrightarrow> view (cs_root s) \<noteq> view h)
      \<and> (\<forall>d \<in> set SYSTEM_ROOTS. \<not> vpath_starts_with (view (cs_root s)) (view d))"
    using n(2) abs home sys by (intro exI [of _ names]) (simp add: view_def)
qed

theorem scopes_disjoint_witness:
  "validate_scopes (Some ''/home/u'')
     [\<lparr>cs_id = ''a'', cs_root = ''/data/a''\<rparr>, \<lparr>cs_id = ''b'', cs_root = ''/data/ab''\<rparr>] = Inr ()
   \<and> distinct (map cs_id [\<lparr>cs_id = ''a'', cs_root = ''/data/a''\<rparr>, \<lparr>cs_id = ''b'', cs_root = ''/data/ab''\<rparr>])"
proof -
  have ok: "validate_scopes (Some ''/home/u'')
      [\<lparr>cs_id = ''a'', cs_root = ''/data/a''\<rparr>, \<lparr>cs_id = ''b'', cs_root = ''/data/ab''\<rparr>] = Inr ()"
    by code_simp
  from scopes_disjoint [OF ok] ok show ?thesis by blast
qed

subsection \<open>Publication\<close>

text \<open>
  C13.  Publication is a round trip: after it succeeds, asking the same session again finds the
  recipe cached.  It rests on what directory handles promise, on a digest of 64 characters, and on
  the staged identity and marker being as the session wrote them.
\<close>

theorem publish_then_cached:
  assumes "directories ops" "\<And>t. length (digest t) = 64"
    and "validate_recipe r = Inr ()" "recipe_identity digest serialise r = Inr (se_recipe_identity se)"
    and "se_staging se = Some g" "sg_directory g = Some d" "sg_name g = ''.tinyruntime-stage-'' @ u"
    and "op_open_dir ops s (se_root se) (sg_name g) = Inr d"
    and "staged_file ops s d ''identity'' (ca_bytes (se_recipe_identity se))"
    and "staged_file ops s d ''marker'' (ca_bytes (cr_marker r))"
    and "session_publish ops r se s = (Inr (), s')"
  shows "session_readiness ops se r s' = Inr RCached"
proof -
  obtain d' where d': "publish_checks ops se r s = Inr d'"
    using assms(11) by (cases "publish_checks ops se r s") (auto simp: session_publish_def)
  obtain t where own: "se_recipe_identity se =
      \<lparr>ca_path = ''.tinyruntime-recipe-'' @ digest (ca_path (cr_marker r)), ca_bytes = digest t\<rparr>"
    using assms(4) by (cases "serialise r") (auto simp: recipe_identity_def dest: sym)
  have "d' = d" using directories.publish_checks_ok(4) [OF assms(1) d'] assms(5,6) by simp
  moreover have "ca_path (se_recipe_identity se) = ''.tinyruntime-recipe-'' @ digest (ca_path (cr_marker r))"
      "length (ca_bytes (se_recipe_identity se)) \<le> MAX_FILE"
    using assms(2) by (simp_all add: MAX_FILE_def own)
  ultimately show ?thesis
    using directories.publish_ready [OF assms(1,3)] assms(7-11) d' by metis
qed

definition demo_digest :: "string \<Rightarrow> string" where
  "demo_digest t = replicate 64 (CHR ''d'')"

definition demo_own :: string where
  "demo_own = ''.tinyruntime-recipe-'' @ demo_digest ''done''"

definition demo_table :: "entry list" where
  "demo_table =
     [\<lparr>en_parent = 0, en_name = ''data'', en_node = EDirectory\<rparr>,
      \<lparr>en_parent = 1, en_name = LOCK_NAME, en_node = EFile []\<rparr>,
      \<lparr>en_parent = 1, en_name = ''.tinyruntime-stage-7'', en_node = EDirectory\<rparr>,
      \<lparr>en_parent = 1, en_name = ''req.txt'', en_node = EFile ''torch''\<rparr>,
      \<lparr>en_parent = 3, en_name = ''identity'', en_node = EFile (demo_digest ''r'')\<rparr>,
      \<lparr>en_parent = 3, en_name = ''marker'', en_node = EFile ''v1''\<rparr>,
      \<lparr>en_parent = 1, en_name = ''venv'', en_node = EDirectory\<rparr>]"

definition demo_session :: session where
  "demo_session =
     \<lparr>se_root = 1, se_path = ''/data'', se_lock = True, se_lock_identity = (0, 2),
      se_recipe_identity = \<lparr>ca_path = demo_own, ca_bytes = demo_digest ''r''\<rparr>,
      se_staging = Some \<lparr>sg_directory = Some 3, sg_name = ''.tinyruntime-stage-7'', sg_identity = (0, 3)\<rparr>,
      se_staged = [''artifact-0'', ''identity'', ''marker''], se_cached = False, se_legacy = False\<rparr>"

lemma demo_own_relative [simp]:
  "safe_relative demo_own = Inr ()" "split_on (CHR ''/'') demo_own = [demo_own]"
  by code_simp+

lemma demo_own_other [simp]:
  "LOCK_NAME \<noteq> demo_own" "''req.txt'' \<noteq> demo_own" "''venv'' \<noteq> demo_own" "''.tinyruntime-stage-7'' \<noteq> demo_own"
  "''done'' \<noteq> demo_own" "demo_own \<noteq> ''done''"
  by (simp_all add: demo_own_def LOCK_NAME_def)

lemma LOCK_NAME_other [simp]:
  "LOCK_NAME \<noteq> ''done''" "LOCK_NAME \<noteq> ''req.txt''" "LOCK_NAME \<noteq> ''venv''" "LOCK_NAME \<noteq> ''.tinyruntime-stage-7''"
  by (simp_all add: LOCK_NAME_def)

lemmas demo_cache_defs = demo_table_def demo_session_def demo_recipe_def

lemma demo_before: "session_readiness table_ops demo_session demo_recipe demo_table = Inr RRebuild"
  by (simp add: session_readiness_def fs_matches_def fs_parent_def table_open_read_def demo_cache_defs hit_def)

lemmas table_run_defs = table_open_dir_def table_open_read_def table_stat_def table_read_def table_rename_def
  node_of_def row_meta_def or_fail_def done_or_def hit_def vacate_def

lemmas cache_run_defs = fs_matches_def fs_required_def fs_parent_def fs_promote_def regular_file_exists_def
  descend_def sound_file_def MAX_FILE_def

lemma demo_components [simp]: "components ''/data'' = [Normal ''data'']" "is_absolute ''/data''"
  by code_simp+

lemma demo_binding: "check_binding table_ops demo_session demo_table = Inr ()"
  by (simp add: check_binding_def absolute_def same_directory_def descend_def map_filter_simps
      demo_cache_defs table_run_defs table_ops_def)

lemma demo_checks: "publish_checks table_ops demo_session demo_recipe demo_table = Inr 3"
  unfolding publish_checks_def demo_binding
  by (simp add: demo_cache_defs cache_run_defs table_run_defs staging_directory_def LOCK_NAME_def)

definition demo_published :: "entry list" where
  "demo_published =
     [\<lparr>en_parent = 0, en_name = ''data'', en_node = EDirectory\<rparr>,
      \<lparr>en_parent = 1, en_name = LOCK_NAME, en_node = EFile []\<rparr>,
      \<lparr>en_parent = 1, en_name = ''.tinyruntime-stage-7'', en_node = EDirectory\<rparr>,
      \<lparr>en_parent = 1, en_name = ''req.txt'', en_node = EFile ''torch''\<rparr>,
      \<lparr>en_parent = 1, en_name = demo_own, en_node = EFile (demo_digest ''r'')\<rparr>,
      \<lparr>en_parent = 1, en_name = ''done'', en_node = EFile ''v1''\<rparr>,
      \<lparr>en_parent = 1, en_name = ''venv'', en_node = EDirectory\<rparr>]"

lemma demo_publish: "session_publish table_ops demo_recipe demo_session demo_table = (Inr (), demo_published)"
  unfolding session_publish_def demo_checks
  by (simp add: demo_cache_defs cache_run_defs table_run_defs demo_published_def)

theorem publish_then_cached_witness:
  "session_publish table_ops demo_recipe demo_session demo_table = (Inr (), demo_published)
   \<and> session_readiness table_ops demo_session demo_recipe demo_table = Inr RRebuild
   \<and> session_readiness table_ops demo_session demo_recipe demo_published = Inr RCached"
proof -
  have own: "recipe_identity demo_digest (\<lambda>_. Some ''r'') demo_recipe = Inr (se_recipe_identity demo_session)"
    by (simp add: recipe_identity_def demo_session_def demo_recipe_def demo_digest_def demo_own_def)
  have stage: "op_open_dir table_ops demo_table (se_root demo_session) ''.tinyruntime-stage-7'' = Inr 3"
    by (simp add: demo_cache_defs table_run_defs)
  have files: "staged_file table_ops demo_table 3 ''identity'' (ca_bytes (se_recipe_identity demo_session))"
    "staged_file table_ops demo_table 3 ''marker'' (ca_bytes (cr_marker demo_recipe))"
    by (simp_all add: staged_file_def content_def seen_meta_def demo_cache_defs table_run_defs sound_file_def demo_digest_def MAX_FILE_def)
  show ?thesis
    using demo_publish demo_before stage
      publish_then_cached [OF table_dirs.directories_axioms _ demo_recipe_valid own _ _ _ _ files demo_publish, where u = "''7''"]
    by (simp add: demo_session_def demo_digest_def)
qed

subsection \<open>A whole preparation\<close>

text \<open>
  What a list of steps went through: the actors between them.  Each step began in time, under the
  lock it was acquired with, and succeeded.
\<close>

definition step_trace ::
  "'s dir_ops \<Rightarrow> string \<Rightarrow> (nat \<Rightarrow> 's step_env) \<Rightarrow> instant \<Rightarrow> worker_command list \<Rightarrow> 's actor list \<Rightarrow> bool" where
  "step_trace ops root env deadline cs as \<longleftrightarrow>
     length as = length cs + 1
     \<and> (\<forall>i < length cs. \<not> sn_stop (env i) \<and> sn_now (env i) < deadline
          \<and> (\<exists>se. ac_cache (as ! i) = Some se \<and> check_binding ops se (ac_disk (as ! i)) = Inr ()
               \<and> run_step (\<lambda>e. e) root (Some (se_root se)) (env i) (cs ! i) deadline (as ! i)
                   = (Inr (), as ! (i + 1))))"

lemma provision_steps_trace:
  "provision_steps ops root env i deadline cs a = (Inr (), a') \<Longrightarrow>
   \<exists>as. step_trace ops root (\<lambda>k. env (i + k)) deadline cs as \<and> hd as = a \<and> last as = a'"
proof (induction cs arbitrary: i a)
  case Nil
  then show ?case by (intro exI [of _ "[a]"]) (simp add: step_trace_def)
next
  case (Cons c cs)
  obtain se where stop: "\<not> sn_stop (env i)" "sn_now (env i) < deadline" and se: "ac_cache a = Some se"
      "check_binding ops se (ac_disk a) = Inr ()"
    using Cons.prems by (auto simp: not_le split: if_splits option.splits sum.splits)
  obtain r b where r: "run_step (\<lambda>e. e) root (Some (se_root se)) (env i) c deadline a = (r, b)" by (metis surj_pair)
  have r1: "r = Inr ()" using Cons.prems stop se r by (cases r) (simp_all add: not_le)
  then have "provision_steps ops root env (i + 1) deadline cs b = (Inr (), a')"
    using Cons.prems stop se r by (simp add: not_le)
  from Cons.IH [OF this] obtain as where as: "step_trace ops root (\<lambda>k. env (i + 1 + k)) deadline cs as" "hd as = b" "last as = a'"
    by blast
  have ne: "as \<noteq> []" using as(1) by (auto simp: step_trace_def)
  then have b: "as ! 0 = b" using as(2) by (simp add: hd_conv_nth)
  have "step_trace ops root (\<lambda>k. env (i + k)) deadline (c # cs) (a # as)"
    unfolding step_trace_def
  proof (intro conjI allI impI)
    show "length (a # as) = length (c # cs) + 1" using as(1) by (simp add: step_trace_def)
    fix k assume k: "k < length (c # cs)"
    show "\<not> sn_stop (env (i + k))" "sn_now (env (i + k)) < deadline"
        "\<exists>se. ac_cache ((a # as) ! k) = Some se \<and> check_binding ops se (ac_disk ((a # as) ! k)) = Inr ()
           \<and> run_step (\<lambda>e. e) root (Some (se_root se)) (env (i + k)) ((c # cs) ! k) deadline ((a # as) ! k)
               = (Inr (), (a # as) ! (k + 1))"
      using stop se r r1 b as(1) k by (cases k; fastforce simp: step_trace_def)+
  qed
  then show ?case using as(3) ne by (intro exI [of _ "a # as"]) simp
qed

text \<open>
  What a session that provisioning succeeded with stands for, with \<open>t\<close> the directory afterwards: the
  checks on the tree the steps left, then the identity's move, then the marker's, and nothing after it.
\<close>

definition as_required :: "'s dir_ops \<Rightarrow> session \<Rightarrow> cache_recipe \<Rightarrow> 's \<Rightarrow> bool" where
  "as_required ops se r s \<longleftrightarrow>
     (\<forall>e \<in> set (cr_required r). fs_required ops s (se_root se) e = Inr True)
     \<and> (\<forall>a \<in> set (cr_artifacts r). fs_matches ops s (se_root se) a = Inr True)"

definition provisioned ::
  "'s dir_ops \<Rightarrow> string \<Rightarrow> 's provision_env \<Rightarrow> cache_recipe \<Rightarrow> instant \<Rightarrow> session \<Rightarrow> 's actor \<Rightarrow> 's \<Rightarrow> bool" where
  "provisioned ops root env r deadline se a t \<longleftrightarrow>
     (\<exists>se1 s1 as se2 g d t1.
        session_install ops (pv_uuid env) r (se, ac_disk a) = (Inr (), se1, s1)
      \<and> step_trace ops root (pv_step env) deadline (cr_steps r) as
      \<and> hd as = a\<lparr>ac_cache := Some se1, ac_disk := s1\<rparr>
      \<and> \<not> pv_stop env \<and> pv_now env < deadline
      \<and> ac_cache (last as) = Some se2
      \<and> check_binding ops se2 (ac_disk (last as)) = Inr () \<and> as_required ops se2 r (ac_disk (last as))
      \<and> se_staging se2 = Some g \<and> sg_directory g = Some d
      \<and> fs_promote ops d ''identity'' (se_root se2) (ca_path (se_recipe_identity se2)) (ac_disk (last as)) = (Inr (), t1)
      \<and> fs_promote ops d ''marker'' (se_root se2) (ca_path (cr_marker r)) t1 = (Inr (), t))"

text \<open>
  An adoption: the marker, every required entry and every artifact are as the recipe has them, there is
  no identity of another recipe, the recipe allows it, and this recipe's identity is put in place.
\<close>

definition adopted :: "'s dir_ops \<Rightarrow> string \<Rightarrow> cache_recipe \<Rightarrow> session \<Rightarrow> 's \<Rightarrow> 's \<Rightarrow> bool" where
  "adopted ops uuid r se s t \<longleftrightarrow>
     cr_adoption r = AdoptVerifiedLegacy
     \<and> fs_matches ops s (se_root se) (cr_marker r) = Inr True \<and> as_required ops se r s
     \<and> regular_file_exists ops s (se_root se) (ca_path (se_recipe_identity se)) = Inr False
     \<and> (\<exists>d se1 s1 se2 s2.
          open_stage ops uuid (se, s) = (Inr d, se1, s1)
        \<and> stage_file ops d ''identity'' (ca_bytes (se_recipe_identity se)) (se1, s1) = (Inr (), se2, s2)
        \<and> check_binding ops se2 s2 = Inr ()
        \<and> fs_promote ops d ''identity'' (se_root se2) (ca_path (se_recipe_identity se2)) s2 = (Inr (), t))"

lemma legacy_checks:
  assumes "session_readiness ops se r s = Inr RLegacy"
  shows "cr_adoption r = AdoptVerifiedLegacy \<and> fs_matches ops s (se_root se) (cr_marker r) = Inr True
    \<and> as_required ops se r s \<and> regular_file_exists ops s (se_root se) (ca_path (se_recipe_identity se)) = Inr False"
proof -
  from assms have "cr_adoption r = AdoptVerifiedLegacy \<and> fs_matches ops s (se_root se) (cr_marker r) = Inr True
      \<and> all_hold (fs_required ops s (se_root se)) (cr_required r) = Inr True
      \<and> all_hold (fs_matches ops s (se_root se)) (cr_artifacts r) = Inr True
      \<and> regular_file_exists ops s (se_root se) (ca_path (se_recipe_identity se)) = Inr False"
    by (auto simp: session_readiness_def rust_simps split: if_splits cache_adoption_policy.splits)
  then show ?thesis by (simp add: as_required_def all_hold_iff)
qed

lemma adopt_legacy_adopted:
  assumes "session_adopt_legacy ops uuid r (se, s) = (Inr u, se', t)" "se_legacy se"
  shows "adopted ops uuid r se s t"
proof -
  have bound: "check_binding ops se s = Inr ()" and ready: "session_readiness ops se r s = Inr RLegacy"
    using assms by (auto simp: session_adopt_legacy_def split: sum.splits if_splits)
  obtain x se1 s1 where st: "open_stage ops uuid (se, s) = (x, se1, s1)" by (metis surj_pair)
  obtain d where d: "x = Inr d" using assms bound ready st by (cases x) (auto simp: session_adopt_legacy_def)
  obtain y se2 s2 where staged: "stage_file ops d ''identity'' (ca_bytes (se_recipe_identity se)) (se1, s1) = (y, se2, s2)"
    by (metis surj_pair)
  have y: "y = Inr ()" using assms bound ready st d staged by (cases y) (auto simp: session_adopt_legacy_def)
  have again: "check_binding ops se2 s2 = Inr ()"
    using assms bound ready st d staged y by (cases "check_binding ops se2 s2") (auto simp: session_adopt_legacy_def)
  have "fs_promote ops d ''identity'' (se_root se2) (ca_path (se_recipe_identity se2)) s2 = (Inr (), t)"
    using assms bound ready st d staged y again
    by (auto simp: session_adopt_legacy_def split: sum.splits prod.splits)
  then show ?thesis
    using legacy_checks [OF ready] st d staged y again unfolding adopted_def by blast
qed

lemma publish_parts:
  assumes "session_publish ops r se s = (Inr (), t)"
  obtains g d t1 where "check_binding ops se s = Inr ()" "as_required ops se r s" "se_staging se = Some g"
    "sg_directory g = Some d"
    "fs_promote ops d ''identity'' (se_root se) (ca_path (se_recipe_identity se)) s = (Inr (), t1)"
    "fs_promote ops d ''marker'' (se_root se) (ca_path (cr_marker r)) t1 = (Inr (), t)"
proof -
  obtain d where d: "publish_checks ops se r s = Inr d"
    using assms by (cases "publish_checks ops se r s") (simp_all add: session_publish_def)
  then have c: "check_binding ops se s = Inr ()
      \<and> all_hold (fs_required ops s (se_root se)) (cr_required r) = Inr True
      \<and> all_hold (fs_matches ops s (se_root se)) (cr_artifacts r) = Inr True
      \<and> (\<exists>g. se_staging se = Some g \<and> sg_directory g = Some d)"
    by (cases "check_binding ops se s"; cases "all_hold (fs_required ops s (se_root se)) (cr_required r)";
        cases "all_hold (fs_matches ops s (se_root se)) (cr_artifacts r)")
      (auto simp: publish_checks_def staging_directory_def split: if_splits option.splits)
  obtain t1 where "fs_promote ops d ''identity'' (se_root se) (ca_path (se_recipe_identity se)) s = (Inr (), t1)"
      "fs_promote ops d ''marker'' (se_root se) (ca_path (cr_marker r)) t1 = (Inr (), t)"
    using assms d by (auto simp: session_publish_def rust_simps)
  moreover have "as_required ops se r s" using c by (simp add: as_required_def all_hold_iff)
  ultimately show thesis using that c by blast
qed

lemma provision_cache_ok:
  assumes "provision_cache ops env ch deadline a = (Inr (), a')" "ac_cache a = Some se"
  shows "(se_legacy se \<and> adopted ops (pv_uuid env) (ch_recipe ch) se (ac_disk a) (ac_disk a'))
    \<or> (\<not> se_legacy se \<and> se_cached se \<and> a' = a)
    \<or> (\<not> se_legacy se \<and> \<not> se_cached se \<and> provisioned ops (ch_root ch) env (ch_recipe ch) deadline se a (ac_disk a'))"
proof -
  let ?r = "ch_recipe ch"
  have legacy: "adopted ops (pv_uuid env) ?r se (ac_disk a) (ac_disk a')" if l: "se_legacy se"
  proof -
    obtain x se1 t where ad: "session_adopt_legacy ops (pv_uuid env) ?r (se, ac_disk a) = (x, se1, t)" by (metis surj_pair)
    have "x = Inr ()" "ac_disk a' = t"
      using assms l ad by (auto simp: provision_cache_def with_session_def)
    then show ?thesis using adopt_legacy_adopted [OF _ l] ad by metis
  qed
  have built: "provisioned ops (ch_root ch) env ?r deadline se a (ac_disk a')" if "\<not> se_legacy se" "\<not> se_cached se"
  proof -
    obtain x se1 s1 where inst: "session_install ops (pv_uuid env) ?r (se, ac_disk a) = (x, se1, s1)" by (metis surj_pair)
    let ?b = "a\<lparr>ac_cache := Some se1, ac_disk := s1\<rparr>"
    have x: "x = Inr ()"
      using assms that inst by (cases x) (simp_all add: provision_cache_def with_session_def)
    obtain y c where st: "provision_steps ops (ch_root ch) (pv_step env) 0 deadline (cr_steps ?r) ?b = (y, c)" by (metis surj_pair)
    have y: "y = Inr ()"
      using assms that inst x st by (cases y) (simp_all add: provision_cache_def with_session_def)
    then obtain as where as: "step_trace ops (ch_root ch) (pv_step env) deadline (cr_steps ?r) as" "hd as = ?b" "last as = c"
      using provision_steps_trace [OF st [unfolded y]] by auto
    have fin: "\<not> pv_stop env" "pv_now env < deadline" "ac_cache c \<noteq> None"
      using assms that inst x st y by (auto simp: provision_cache_def with_session_def not_le split: if_splits option.splits)
    then obtain se2 where se2: "ac_cache c = Some se2" by blast
    have pub: "session_publish ops ?r se2 (ac_disk c) = (Inr (), ac_disk a')"
      using assms that inst x st y fin se2
      by (cases "session_publish ops ?r se2 (ac_disk c)") (auto simp: provision_cache_def with_session_def not_le)
    show ?thesis
      using publish_parts [OF pub] inst x as fin se2 unfolding provisioned_def by (metis (no_types, lifting))
  qed
  show ?thesis
  proof (cases "se_legacy se")
    case False
    then show ?thesis using built assms by (cases "se_cached se") (simp_all add: provision_cache_def)
  qed (use legacy in simp)
qed

lemma session_views:
  "check_binding ops (se\<lparr>se_cached := b\<rparr>) s = check_binding ops se s"
  "check_binding ops (se\<lparr>se_legacy := b\<rparr>) s = check_binding ops se s"
  "session_readiness ops (se\<lparr>se_cached := b\<rparr>) r s = session_readiness ops se r s"
  "session_readiness ops (se\<lparr>se_legacy := b\<rparr>) r s = session_readiness ops se r s"
  by (simp_all add: check_binding_def session_readiness_def cong del: if_weak_cong)

lemma acquired_cached:
  assumes "session_acquire ops env path r deadline s = (Inr se, s')"
  shows "check_binding ops se s' = Inr () \<and> (se_cached se \<longrightarrow> session_readiness ops se r s' = Inr RCached)"
proof -
  let ?fin = "\<lambda>new s3. (qmark (check_binding ops new s3) (\<lambda>_. qmark (session_readiness ops new r s3) (\<lambda>ready.
    Inr (case ready of RCached \<Rightarrow> new\<lparr>se_cached := True\<rparr> | RLegacy \<Rightarrow> new\<lparr>se_legacy := True\<rparr> | RRebuild \<Rightarrow> new))), s3)"
  obtain own where own: "recipe_identity (ae_digest env) (ae_serialise env) r = Inr own"
    using assms by (cases "recipe_identity (ae_digest env) (ae_serialise env) r") (simp_all add: session_acquire_def)
  obtain root s1 where root: "absolute ops path True s = (Inr root, s1)"
    using assms by (auto simp: session_acquire_def own rust_simps)
  obtain f s2 where f: "or_fail_s ''cache_lock_failed'' (op_open_lock ops s1 root LOCK_NAME) = (Inr f, s2)"
    using assms by (auto simp: session_acquire_def own root rust_simps)
  obtain m where m: "or_fail ''cache_lock_failed'' (op_file_meta ops s2 f) = Inr m"
    using assms by (cases "or_fail ''cache_lock_failed'' (op_file_meta ops s2 f)")
      (simp_all add: session_acquire_def own root f)
  have sound: "sound_file m" using assms by (simp add: session_acquire_def own root f m split: if_splits)
  have lock: "lock_loop deadline (lk_contended (ae_poll env)) (ae_poll env) = Inr ()"
    using assms by (cases "lock_loop deadline (lk_contended (ae_poll env)) (ae_poll env)")
      (simp_all add: session_acquire_def own root f m sound)
  have "\<exists>new. se_cached new = False \<and> ?fin new (ae_meanwhile env s2) = (Inr se, s')"
    using assms
    by (intro exI [of _ "\<lparr>se_root = root, se_path = path, se_lock = True, se_lock_identity = mt_id m,
         se_recipe_identity = own, se_staging = None, se_staged = [], se_cached = False, se_legacy = False\<rparr>"])
      (auto simp: session_acquire_def own root f m sound lock Let_def cong del: readiness.case_cong_weak)
  then obtain new ready where "se_cached new = False" "check_binding ops new s' = Inr ()"
      "session_readiness ops new r s' = Inr ready"
      "se = (case ready of RCached \<Rightarrow> new\<lparr>se_cached := True\<rparr> | RLegacy \<Rightarrow> new\<lparr>se_legacy := True\<rparr> | RRebuild \<Rightarrow> new)"
    by (auto simp: rust_simps)
  then show ?thesis by (cases ready) (simp_all add: session_views)
qed

text \<open>
  C12.  A preparation through the cache that succeeds leaves nothing running and no lock held, and
  it stands for one of three things, all done under the lock.  The recipe was found published and
  nothing was changed.  Or a finished installation of an older version was adopted: its marker, its
  required entries and its artifacts were found as the recipe has them, no identity of another
  recipe was there, and then this one's was put in place.  Or the artifacts were installed, every
  step succeeded in order and in time, every required entry was found again and every artifact
  unchanged in what the last step left, and only then the identity and last the marker were put in
  place.  Only the session's clean-up follows.
\<close>

theorem cached_preparation_complete:
  assumes "ac_cached a = Some ch" "prepare_cache ops env a = (Inr (), a')"
  shows "ac_cache a' = None \<and> ac_preparation a' = None
    \<and> (\<exists>se s1 b v b'. session_acquire ops (pn_acquire env) (ch_root ch) (ch_recipe ch)
            (pn_now env + dur_from_millis (cr_timeout_ms (ch_recipe ch))) (ac_disk a) = (Inr se, s1)
        \<and> check_binding ops se s1 = Inr ()
        \<and> ((session_readiness ops se (ch_recipe ch) s1 = Inr RCached \<and> ac_disk b = s1)
           \<or> adopted ops (pv_uuid (pn_provision env)) (ch_recipe ch) se s1 (ac_disk b)
           \<or> provisioned ops (ch_root ch) (pn_provision env) (ch_recipe ch)
               (pn_now env + dur_from_millis (cr_timeout_ms (ch_recipe ch))) se
               (a\<lparr>ac_cache := Some se, ac_disk := s1\<rparr>) (ac_disk b))
        \<and> cleanup_preparation (pn_reap env) b = (v, b') \<and> cleanup_cache ops b' = (Inr (), a'))"
proof -
  let ?r = "ch_recipe ch" and ?deadline = "pn_now env + dur_from_millis (cr_timeout_ms (ch_recipe ch))"
  obtain x s1 where acq: "session_acquire ops (pn_acquire env) (ch_root ch) ?r ?deadline (ac_disk a) = (x, s1)"
    by (metis surj_pair)
  obtain se where se: "x = Inr se" using assms acq by (cases x) (simp_all add: prepare_cache_def)
  let ?a = "a\<lparr>ac_cache := Some se, ac_disk := s1\<rparr>"
  obtain y a1 where prov: "provision_cache ops (pn_provision env) ch ?deadline ?a = (y, a1)" by (metis surj_pair)
  obtain v a2 where c1: "cleanup_preparation (pn_reap env) a1 = (v, a2)" by (metis surj_pair)
  obtain w a3 where c2: "cleanup_cache ops a2 = (w, a3)" by (metis surj_pair)
  have all: "v = Inr () \<and> w = Inr () \<and> y = Inr () \<and> a3 = a'"
    using assms acq se prov c1 c2 by (cases v; cases w) (simp_all add: prepare_cache_def)
  have clean: "ac_cache a' = None" "ac_preparation a' = None"
    using cleanup_preparation_ok cleanup_cache_ok c1 c2 all by metis+
  have bound: "check_binding ops se s1 = Inr ()" "se_cached se \<longrightarrow> session_readiness ops se ?r s1 = Inr RCached"
    using acquired_cached acq se by metis+
  have "(session_readiness ops se ?r s1 = Inr RCached \<and> ac_disk a1 = s1)
      \<or> adopted ops (pv_uuid (pn_provision env)) ?r se s1 (ac_disk a1)
      \<or> provisioned ops (ch_root ch) (pn_provision env) ?r ?deadline se ?a (ac_disk a1)"
    using provision_cache_ok [of ops "pn_provision env" ch ?deadline ?a a1 se] prov all bound by auto
  moreover have "cleanup_cache ops a2 = (Inr (), a')" using c2 all by simp
  ultimately show ?thesis using clean bound acq se c1 by blast
qed

text \<open>A run from an empty scope: the one step of the recipe creates the directory it requires.\<close>

definition demo_cache_plan :: worker_plan where
  "demo_cache_plan =
     \<lparr>wp_source = ''print()'', wp_command = demo_step, wp_preparation = [], wp_backends = [],
      wp_startup_timeout_ms = 1000, wp_request_timeout_ms = 1000, wp_idle_backend = None, wp_idle_timeout_ms = 0\<rparr>"

definition demo_actor :: "entry list actor" where
  "demo_actor =
     actor_new demo_cache_plan ''/data/w'' (Some \<lparr>ch_recipe = demo_recipe, ch_root = ''/data''\<rparr>) None 0
       [\<lparr>en_parent = 0, en_name = ''data'', en_node = EDirectory\<rparr>]"

definition demo_step_env :: "entry list step_env" where
  "demo_step_env =
     \<lparr>sn_stop = False, sn_now = 2,
      sn_spawn = \<lparr>sw_host = Map.empty, sw_os = table_descriptors 8 (\<lambda>_. True), sw_table = [1 \<mapsto> 1], sw_stdio = Map.empty,
        sw_chdir = (\<lambda>_. Inr 0), sw_spawned = (\<lambda>_ d. d = 1), sw_stdout = []\<rparr>,
      sn_began = 2,
      sn_execute = \<lparr>xe_drain = DrainReads [(3, True, Got 9), (4, True, Got 0), (4, False, Got 0)],
                    xe_exit = ExitStatus 5 True, xe_reap = WaitOk\<rparr>,
      sn_effect = (\<lambda>t. snd (table_create_dir t 1 ''venv'')), sn_reap = WaitOk\<rparr>"

definition demo_prepare_env :: "entry list prepare_env" where
  "demo_prepare_env =
     \<lparr>pn_now = 0,
      pn_acquire = \<lparr>ae_digest = demo_digest, ae_serialise = (\<lambda>_. Some ''r''),
        ae_poll = \<lparr>lk_contended = [], lk_stop = False, lk_now = 1, lk_taken = True\<rparr>, ae_meanwhile = id\<rparr>,
      pn_provision = \<lparr>pv_uuid = ''7'', pv_step = (\<lambda>_. demo_step_env), pv_stop = False, pv_now = 6\<rparr>,
      pn_reap = WaitOk, pn_cwd = None, pn_started = 0, pn_step = (\<lambda>_. demo_step_env), pn_stop = False\<rparr>"

definition demo_locked :: "entry list" where
  "demo_locked =
     [\<lparr>en_parent = 0, en_name = ''data'', en_node = EDirectory\<rparr>,
      \<lparr>en_parent = 1, en_name = LOCK_NAME, en_node = EFile []\<rparr>]"

definition demo_acquired :: session where
  "demo_acquired =
     \<lparr>se_root = 1, se_path = ''/data'', se_lock = True, se_lock_identity = (0, 2),
      se_recipe_identity = \<lparr>ca_path = demo_own, ca_bytes = demo_digest ''r''\<rparr>,
      se_staging = None, se_staged = [], se_cached = False, se_legacy = False\<rparr>"

lemma demo_identity:
  "recipe_identity demo_digest (\<lambda>_. Some ''r'') demo_recipe = Inr \<lparr>ca_path = demo_own, ca_bytes = demo_digest ''r''\<rparr>"
  by (simp add: recipe_identity_def demo_recipe_def demo_own_def demo_digest_def)

lemmas demo_run_defs = demo_locked_def demo_acquired_def demo_prepare_env_def demo_step_env_def
  table_ops_def table_run_defs table_open_create_def table_create_new_def table_create_dir_def table_write_def
  or_fail_s_def

lemma demo_acquire_binding: "check_binding table_ops demo_acquired demo_locked = Inr ()"
  by (simp add: check_binding_def absolute_def same_directory_def descend_def map_filter_simps demo_run_defs)

lemma demo_acquire_readiness: "session_readiness table_ops demo_acquired demo_recipe demo_locked = Inr RRebuild"
  by (simp add: session_readiness_def demo_recipe_def cache_run_defs demo_run_defs)

lemma demo_acquire:
  "session_acquire table_ops (pn_acquire demo_prepare_env) ''/data'' demo_recipe d
     [\<lparr>en_parent = 0, en_name = ''data'', en_node = EDirectory\<rparr>] =
   (if 1 < d then Inr demo_acquired else Inl ''cache_timeout'', demo_locked)"
proof -
  have "absolute table_ops ''/data'' True [\<lparr>en_parent = 0, en_name = ''data'', en_node = EDirectory\<rparr>] =
      (Inr 1, [\<lparr>en_parent = 0, en_name = ''data'', en_node = EDirectory\<rparr>])"
    by (simp add: absolute_def descend_def map_filter_simps demo_run_defs)
  moreover have "or_fail_s ''cache_lock_failed''
      (op_open_lock table_ops [\<lparr>en_parent = 0, en_name = ''data'', en_node = EDirectory\<rparr>] 1 LOCK_NAME) = (Inr 1, demo_locked)"
    by (simp add: demo_run_defs)
  moreover have "or_fail ''cache_lock_failed'' (op_file_meta table_ops demo_locked 1) =
      Inr \<lparr>mt_kind = KFile, mt_nlink = 1, mt_len = 0, mt_id = (0, 2)\<rparr>"
    by (simp add: demo_run_defs)
  ultimately show ?thesis
    using demo_acquire_binding demo_acquire_readiness
    by (simp add: session_acquire_def demo_prepare_env_def demo_identity sound_file_def demo_acquired_def)
qed

definition demo_installed :: "entry list" where
  "demo_installed = butlast demo_table"

lemma dec_0: "dec 0 = ''0''"
  by (simp add: dec.simps)

lemma demo_install:
  "session_install table_ops ''7'' demo_recipe (demo_acquired, demo_locked) = (Inr (), demo_session, demo_installed)"
proof -
  define t0 where "t0 = demo_locked @ [\<lparr>en_parent = 1, en_name = ''.tinyruntime-stage-7'', en_node = EDirectory\<rparr>]"
  define t1 where "t1 = t0 @ [\<lparr>en_parent = 3, en_name = ''artifact-0'', en_node = EFile ''torch''\<rparr>]"
  define t2 where "t2 = t0 @ [\<lparr>en_parent = 1, en_name = ''req.txt'', en_node = EFile ''torch''\<rparr>]"
  define t3 where "t3 = t2 @ [\<lparr>en_parent = 3, en_name = ''identity'', en_node = EFile (demo_digest ''r'')\<rparr>]"
  define se0 where "se0 = demo_acquired\<lparr>se_staging := se_staging demo_session\<rparr>"
  define se1 where "se1 = se0\<lparr>se_staged := [''artifact-0'']\<rparr>"
  define se2 where "se2 = se0\<lparr>se_staged := [''artifact-0'', ''identity'']\<rparr>"
  have inv: "fs_invalidate table_ops 1 ''done'' demo_locked = (Inr (), demo_locked)"
    by (simp add: fs_invalidate_def cache_run_defs demo_run_defs)
  have stage: "open_stage table_ops ''7'' (demo_acquired, demo_locked) = (Inr 3, se0, t0)"
    by (simp add: open_stage_def staging_open_def staging_directory_def Let_def numeral_3_eq_3 t0_def se0_def demo_session_def demo_run_defs)
  have file0: "stage_file table_ops 3 ''artifact-0'' ''torch'' (se0, t0) = (Inr (), se1, t1)"
    by (simp add: stage_file_def fs_stage_def t0_def t1_def se1_def se0_def demo_run_defs)
  have bound: "check_binding table_ops se1 t1 = Inr ()"
    by (simp add: check_binding_def absolute_def same_directory_def descend_def map_filter_simps
        t0_def t1_def se1_def se0_def demo_run_defs)
  have move: "fs_promote table_ops 3 ''artifact-0'' 1 ''req.txt'' t1 = (Inr (), t2)"
    by (simp add: cache_run_defs t0_def t1_def t2_def demo_run_defs)
  have file1: "stage_file table_ops 3 ''identity'' (demo_digest ''r'') (se1, t2) = (Inr (), se2, t3)"
    by (simp add: stage_file_def fs_stage_def t0_def t2_def t3_def se1_def se2_def se0_def demo_run_defs)
  have file2: "stage_file table_ops 3 ''marker'' ''v1'' (se2, t3) = (Inr (), demo_session, demo_installed)"
    by (simp add: stage_file_def fs_stage_def t0_def t2_def t3_def se2_def se0_def demo_session_def demo_installed_def
        demo_table_def demo_run_defs)
  have se: "se_root se1 = 1" "ca_bytes (se_recipe_identity se1) = demo_digest ''r''" "se_root demo_acquired = 1"
      "ca_bytes (se_recipe_identity demo_acquired) = demo_digest ''r''"
    by (simp_all add: se1_def se0_def demo_acquired_def)
  show ?thesis
    using demo_acquire_binding inv stage file0 bound move file1 file2 se
    by (simp add: session_install_def demo_recipe_def dec_0)
qed

lemma demo_session_root: "se_root demo_session = 1"
  by (simp add: demo_session_def)

lemma demo_step_runs:
  assumes "ac_preparation a = None" "ac_spawner a = None" "ac_disk a = demo_installed" "5 \<le> d"
  shows "run_step report root (Some 1) demo_step_env demo_step d a = (Inr (), a\<lparr>ac_disk := demo_table\<rparr>)"
proof -
  have dir: "child_directory (sn_spawn demo_step_env) root (Some 1) = Inr 1"
    by (simp add: child_directory_def current_dir_def start_child_def child_table_def directory_callback_def
        table_fchdir demo_step_env_def table_descriptors_def upt_rec)
  have "snd (table_create_dir demo_installed 1 ''venv'') = demo_table"
    by (simp add: demo_installed_def demo_table_def table_create_dir_def hit_def)
  moreover have "preparation_spawn None (sn_spawn demo_step_env) demo_step root (Some 1) =
      Inr \<lparr>pp_native = \<lparr>nt_child = True, nt_reaping = None\<rparr>, pp_stdout = True, pp_stderr = True\<rparr>"
    using dir by (simp add: preparation_spawn_def spawn_group_def native_command_def confine_def)
      (simp add: demo_step_env_def)
  moreover have "preparation_execute d (sn_execute demo_step_env)
      \<lparr>pp_native = \<lparr>nt_child = True, nt_reaping = None\<rparr>, pp_stdout = True, pp_stderr = True\<rparr> =
      (Inr (), \<lparr>pp_native = \<lparr>nt_child = True, nt_reaping = None\<rparr>, pp_stdout = False, pp_stderr = False\<rparr>)"
    using assms(4) by (simp add: preparation_execute_def drain_result_def exit_result_def demo_step_env_def MAX_OPERATION_BYTES_def)
  ultimately show ?thesis
    using assms
    by (simp add: run_step_def command_deadline_def demo_step_def cleanup_preparation_def preparation_cleanup_def
        reap_native_def demo_step_env_def)
qed

definition demo_cache_done :: "entry list" where
  "demo_cache_done =
     [\<lparr>en_parent = 0, en_name = ''data'', en_node = EDirectory\<rparr>,
      \<lparr>en_parent = 1, en_name = LOCK_NAME, en_node = EFile []\<rparr>,
      \<lparr>en_parent = 1, en_name = ''.tinyruntime-stage-7'', en_node = EGone\<rparr>,
      \<lparr>en_parent = 1, en_name = ''req.txt'', en_node = EFile ''torch''\<rparr>,
      \<lparr>en_parent = 1, en_name = demo_own, en_node = EFile (demo_digest ''r'')\<rparr>,
      \<lparr>en_parent = 1, en_name = ''done'', en_node = EFile ''v1''\<rparr>,
      \<lparr>en_parent = 1, en_name = ''venv'', en_node = EDirectory\<rparr>]"

lemma demo_session_cleanup:
  "session_cleanup table_ops demo_session demo_published =
   (Inr (), demo_session\<lparr>se_staging := None, se_staged := [], se_lock := False\<rparr>, demo_cache_done)"
  by (simp add: session_cleanup_def staging_cleanup_def staging_reopen_def staging_directory_def demo_session_def
      demo_published_def demo_cache_done_def table_remove_def table_remove_dir_def demo_run_defs)

theorem cached_preparation_complete_witness:
  "\<exists>a'. prepare_cache table_ops demo_prepare_env demo_actor = (Inr (), a') \<and> ac_disk a' = demo_cache_done
     \<and> ac_cache a' = None \<and> ac_preparation a' = None"
proof -
  let ?d = "dur_from_millis 60000" and ?ch = "\<lparr>ch_recipe = demo_recipe, ch_root = ''/data''\<rparr>"
  have d: "6 < ?d" by (simp add: dur_from_millis_def)
  let ?a = "demo_actor\<lparr>ac_cache := Some demo_acquired, ac_disk := demo_locked\<rparr>"
  let ?p = "demo_actor\<lparr>ac_cache := Some demo_session, ac_disk := demo_published\<rparr>"
  have parts: "ac_preparation demo_actor = None" "ac_spawner demo_actor = None" "ac_cached demo_actor = Some ?ch"
      "ac_disk demo_actor = [\<lparr>en_parent = 0, en_name = ''data'', en_node = EDirectory\<rparr>]"
    by (simp_all add: demo_actor_def actor_new_def)
  have env: "pv_uuid (pn_provision demo_prepare_env) = ''7''" "pv_step (pn_provision demo_prepare_env) = (\<lambda>_. demo_step_env)"
      "\<not> pv_stop (pn_provision demo_prepare_env)" "pv_now (pn_provision demo_prepare_env) = 6" "pn_now demo_prepare_env = 0"
      "cr_timeout_ms demo_recipe = 60000" "cr_steps demo_recipe = [demo_step]" "\<not> sn_stop demo_step_env" "sn_now demo_step_env = 2"
      "\<not> se_cached demo_acquired" "\<not> se_legacy demo_acquired"
    by (simp_all add: demo_prepare_env_def demo_recipe_def demo_step_env_def demo_acquired_def)
  have binding: "check_binding table_ops demo_session demo_installed = Inr ()"
    by (simp add: check_binding_def absolute_def same_directory_def descend_def map_filter_simps
        demo_session_def demo_installed_def demo_table_def demo_run_defs)
  have "provision_cache table_ops (pn_provision demo_prepare_env) ?ch ?d ?a = (Inr (), ?p)"
    using d demo_install demo_publish binding demo_step_runs [of "demo_actor\<lparr>ac_cache := Some demo_session, ac_disk := demo_installed\<rparr>" ?d]
      demo_session_root
    by (simp add: provision_cache_def with_session_def env parts)
  then have run: "prepare_cache table_ops demo_prepare_env demo_actor = (Inr (), demo_actor\<lparr>ac_cache := None, ac_disk := demo_cache_done\<rparr>)"
    using d demo_acquire [of ?d] demo_session_cleanup
    by (simp add: prepare_cache_def env parts cleanup_preparation_def cleanup_cache_def)
  show ?thesis using cached_preparation_complete [OF parts(3) run] run by (intro exI conjI) (rule run, simp_all)
qed

end
