(* ===== verification/Cache_Safety.thy ===== *)
theory Cache_Safety
  imports Cache_Properties
begin

text \<open>
  What a publication that fails leaves behind.  Publication moves the recipe's identity first and its
  marker last; as long as the marker is not in place nothing that reads the cache takes it for ready.
  Beside the laws of \<open>directories\<close> this needs that a rename which fails changes nothing, that a
  rename takes its source away, and that an entry which comes up while a directory is created there
  is an empty directory.
\<close>

subsection \<open>What cannot come into place\<close>

locale steady_directories = directories ops for ops :: "'s dir_ops" +
  assumes rename_failed: "op_rename ops s h n k m = (Some e, s') \<Longrightarrow> same_except ops {} s s'"
    and rename_leaves:
      "op_rename ops s h n k m = (None, s') \<Longrightarrow> (h, n) \<noteq> (k, m) \<Longrightarrow> op_open_dir ops s' h n = Inl NotFound"
    and file_not_dir:
      "op_open_dir ops s h n = Inr d \<Longrightarrow> op_open_read ops s h n = Inr f \<Longrightarrow> op_file_meta ops s f = Inr mt \<Longrightarrow>
       mt_kind mt = KDir"
    and create_fresh:
      "op_open_dir ops s h n = Inl NotFound \<Longrightarrow> op_create_dir ops s h n = (r, s') \<Longrightarrow>
       op_open_dir ops s' h n = Inl NotFound
       \<or> (\<exists>d. op_open_dir ops s' h n = Inr d \<and> (\<forall>k. op_open_dir ops s' d k = Inl NotFound))"
begin

text \<open>A walk that meets no entry of \<open>X\<close> was there before.\<close>

lemma chain_back:
  assumes "same_except ops X s s'" "chain ops s' h ns d"
    and "\<And>xs y zs c. ns = xs @ y # zs \<Longrightarrow> chain ops s' h xs c \<Longrightarrow> (c, y) \<notin> X"
  shows "chain ops s h ns d"
  using assms(2,3)
proof (induction ns arbitrary: h)
  case (Cons n ns)
  then obtain c where c: "op_open_dir ops s' h n = Inr c" "chain ops s' c ns d" by auto
  have "(h, n) \<notin> X" using Cons.prems(2) [of "[]" n ns h] by simp
  then have "op_open_dir ops s h n = Inr c" using assms(1) c(1) by (auto simp: same_except_def look_def)
  moreover have "chain ops s c ns d"
  proof (rule Cons.IH [OF c(2)])
    fix xs y zs e assume "ns = xs @ y # zs" "chain ops s' c xs e"
    then show "(e, y) \<notin> X" using Cons.prems(2) [of "n # xs" y zs e] c(1) by simp
  qed
  ultimately show ?case by auto
qed simp

lemma leads_parts:
  assumes "leads s root path p n"
  shows "split_on (CHR ''/'') path = butlast (split_on (CHR ''/'') path) @ [n]"
    "chain ops s root (butlast (split_on (CHR ''/'') path)) p"
  using assms append_butlast_last_id [OF split_on_not_Nil] by (auto simp: leads_def)

text \<open>So was a file that is found as recorded, when the change is at no entry on the way to it.\<close>

lemma matches_back:
  assumes change: "same_except ops X s s'" and found: "fs_matches ops s' root a = Inr True"
    and off: "\<And>xs y zs c. split_on (CHR ''/'') (ca_path a) = xs @ y # zs \<Longrightarrow> chain ops s' root xs c \<Longrightarrow> (c, y) \<notin> X"
  shows "fs_matches ops s root a = Inr True"
proof -
  obtain p n where l: "leads s' root (ca_path a) p n" using matches_leads [OF found] by blast
  let ?ps = "split_on (CHR ''/'') (ca_path a)"
  note parts = leads_parts [OF l]
  have "chain ops s root (butlast ?ps) p"
  proof (rule chain_back [OF change parts(2)])
    fix xs y zs c assume "butlast ?ps = xs @ y # zs" "chain ops s' root xs c"
    then show "(c, y) \<notin> X" using off [of xs y "zs @ [n]" c] parts(1) by simp
  qed
  then have k: "leads s root (ca_path a) p n" using l change by (simp add: leads_def same_except_def)
  have "(p, n) \<notin> X" using off [OF parts] .
  then have "content ops s' p n = content ops s p n" using change by (simp add: same_except_def look_def)
  then show ?thesis using found matches_look [OF l] matches_look [OF k] by simp
qed

text \<open>Nothing that was not as recorded is so afterwards.\<close>

definition adds_no_file :: "'s \<Rightarrow> 's \<Rightarrow> bool" where
  "adds_no_file s s' \<longleftrightarrow> (\<forall>root a. fs_matches ops s' root a = Inr True \<longrightarrow> fs_matches ops s root a = Inr True)"

lemma adds_no_file_refl [intro]: "adds_no_file s s"
  by (simp add: adds_no_file_def)

lemma adds_no_file_trans: "adds_no_file s t \<Longrightarrow> adds_no_file t u \<Longrightarrow> adds_no_file s u"
  by (simp add: adds_no_file_def)

lemma same_adds: "same_except ops {} s s' \<Longrightarrow> adds_no_file s s'"
  unfolding adds_no_file_def by (auto intro: matches_back)

lemma directory_no_match:
  assumes "leads s root (ca_path a) p n" "op_open_dir ops s p n = Inr d"
  shows "fs_matches ops s root a \<noteq> Inr True"
proof
  assume "fs_matches ops s root a = Inr True"
  then obtain f m where "op_open_read ops s p n = Inr f" "seen (op_file_meta ops s f) = Inr m" "sound_file m"
    using matches_look [OF assms(1)]
    by (auto simp: content_def or_fail_def rust_simps split: sum.splits if_splits)
  then obtain k where "op_open_read ops s p n = Inr f" "op_file_meta ops s f = Inr k" "sound_file k"
    by (auto simp: seen_Inr)
  then show False using file_not_dir [OF assms(2)] by (auto simp: sound_file_def)
qed

lemma create_adds:
  assumes "op_open_dir ops s h n = Inl NotFound" "op_create_dir ops s h n = (r, s')"
  shows "adds_no_file s s'"
  unfolding adds_no_file_def
proof (intro allI impI)
  fix root a assume found: "fs_matches ops s' root a = Inr True"
  obtain p m where l: "leads s' root (ca_path a) p m" using matches_leads [OF found] by blast
  note there = matches_present [OF found l]
  let ?ps = "split_on (CHR ''/'') (ca_path a)"
  note parts = leads_parts [OF l]
  show "fs_matches ops s root a = Inr True"
  proof (rule matches_back [OF create_local [OF assms(2)] found])
    fix xs y zs c assume at: "?ps = xs @ y # zs" "chain ops s' root xs c"
    show "(c, y) \<notin> {(h, n)}"
    proof
      assume "(c, y) \<in> {(h, n)}"
      then have c: "c = h" "y = n" by simp_all
      have new: "op_open_dir ops s' h n = Inl NotFound
          \<or> (\<exists>d. op_open_dir ops s' h n = Inr d \<and> (\<forall>k. op_open_dir ops s' d k = Inl NotFound))"
        using create_fresh [OF assms] .
      show False
      proof (cases zs)
        case Nil
        then have "p = h" "m = n"
          using at c parts chain_end [of s' root xs] by (auto simp: butlast_append)
        then show False using new there directory_no_match [OF l] found by auto
      next
        case (Cons z ws)
        then have "chain ops s' root (xs @ n # butlast (z # ws)) p"
          using parts(2) at(1) c by (simp add: butlast_append)
        then obtain d where d: "op_open_dir ops s' h n = Inr d" "chain ops s' d (butlast (z # ws)) p"
          using at(2) c chain_end [of s' root xs] by (auto simp: chain_append)
        then have gone: "\<forall>k. op_open_dir ops s' d k = Inl NotFound" using new by auto
        then have "butlast (z # ws) = []" using d(2) by (cases "butlast (z # ws)") auto
        then have "p = d" using d(2) by simp
        then show False using gone there by simp
      qed
    qed
  qed
qed

lemma descend_adds: "descend ops d n create s = (r, s') \<Longrightarrow> adds_no_file s s'"
  using create_adds [of s d n]
  by (cases "op_create_dir ops s d n") (auto simp: descend_def split: sum.splits if_splits option.splits)

lemma parent_loop_adds: "parent_loop ops d ps create s = (r, s') \<Longrightarrow> adds_no_file s s'"
proof (induction ps arbitrary: d s rule: induct_list012)
  case (3 a b ps)
  obtain x s1 where x: "descend ops d a create s = (x, s1)" by (metis surj_pair)
  show ?case
    using descend_adds [OF x] 3 x adds_no_file_trans by (cases x) (auto simp: rust_simps)
qed auto

lemma parent_adds: "fs_parent ops root path create s = (r, s') \<Longrightarrow> adds_no_file s s'"
  using parent_loop_adds by (auto simp: fs_parent_def split: sum.splits option.splits)

text \<open>A promotion that fails adds no file; one that succeeds ends with a rename onto a file of one name.\<close>

lemma promote_adds:
  assumes "fs_promote ops d name root path s = (r, s')"
  shows "adds_no_file s s'
    \<or> (\<exists>p n t. r = Inr () \<and> adds_no_file s t \<and> fs_parent ops root path True s = (Inr (p, n), t)
          \<and> op_rename ops t d name p n = (None, s') \<and> (\<forall>m. op_stat ops t p n = Inr m \<longrightarrow> mt_nlink m = 1))"
proof -
  obtain x t where x: "fs_parent ops root path True s = (x, t)" by (metis surj_pair)
  note add = parent_adds [OF x]
  show ?thesis
  proof (cases x)
    case (Inl e)
    then show ?thesis using add assms x by (simp add: fs_promote_def rust_simps)
  next
    case (Inr pn)
    obtain p n where pn: "pn = (p, n)" by (metis surj_pair)
    obtain y u where y: "op_rename ops t d name p n = (y, u)" by (metis surj_pair)
    have fails: "adds_no_file s u" if "y = Some e" for e
      using adds_no_file_trans [OF add same_adds] rename_failed y that by blast
    show ?thesis
      using assms x Inr pn y add fails
      by (cases y) (auto simp: fs_promote_def rust_simps done_or_def sound_file_def split: if_splits sum.splits)
  qed
qed

text \<open>
  The identity's move cannot put a file with a relative path in its place: what is at the place it
  goes to is no part of such a path, and what was at the place it comes from is gone.
\<close>

lemma identity_move:
  assumes pr: "fs_promote ops d name root own s = (r, s')"
    and own: "split_on (CHR ''/'') own = [own]" "starts_with ''.tinyruntime-'' (to_ascii_lowercase own)"
    and rel: "relative (ca_path a) = Inr ()" and found: "fs_matches ops s' root a = Inr True"
  shows "fs_matches ops s root a = Inr True"
  using promote_adds [OF pr]
proof (elim disjE exE conjE)
  fix p n t
  assume add: "adds_no_file s t" and pa: "fs_parent ops root own True s = (Inr (p, n), t)"
    and rn: "op_rename ops t d name p n = (None, s')" and links: "\<forall>m. op_stat ops t p n = Inr m \<longrightarrow> mt_nlink m = 1"
  have pn: "p = root" "n = own" using fs_parent_creates [OF pa] own(1) by (auto simp: leads_def)
  obtain q m where l: "leads s' root (ca_path a) q m" using matches_leads [OF found] by blast
  note there = matches_present [OF found l]
  let ?ps = "split_on (CHR ''/'') (ca_path a)"
  note parts = leads_parts [OF l]
  have "fs_matches ops t root a = Inr True"
  proof (rule matches_back [OF rename_local [OF rn links] found])
    fix xs y zs c assume at: "?ps = xs @ y # zs" "chain ops s' root xs c"
    have y: "y \<noteq> own" using relative_not_own [OF rel, of y] own(2) at(1) by auto
    show "(c, y) \<notin> {(d, name), (p, n)}"
    proof
      assume "(c, y) \<in> {(d, name), (p, n)}"
      then have c: "c = d" "y = name" "(d, name) \<noteq> (p, n)" using y pn by auto
      have gone: "op_open_dir ops s' d name = Inl NotFound" using rename_leaves [OF rn c(3)] .
      show False
      proof (cases zs)
        case Nil
        then have "q = d" "m = name"
          using at c parts chain_end [of s' root xs] by (auto simp: butlast_append)
        then show False using gone there by simp
      next
        case (Cons z ws)
        then have "chain ops s' root (xs @ name # butlast (z # ws)) q"
          using parts(2) at(1) c by (simp add: butlast_append)
        then obtain e f where "chain ops s' root xs e" "op_open_dir ops s' e name = Inr f"
          by (auto simp: chain_append)
        then show False using gone at(2) c(1) chain_end by fastforce
      qed
    qed
  qed
  then show ?thesis using add by (simp add: adds_no_file_def)
qed (use found in \<open>simp add: adds_no_file_def\<close>)

lemma publish_failure:
  assumes own: "split_on (CHR ''/'') (ca_path (se_recipe_identity se)) = [ca_path (se_recipe_identity se)]"
      "starts_with ''.tinyruntime-'' (to_ascii_lowercase (ca_path (se_recipe_identity se)))"
    and marker: "relative (ca_path (cr_marker r)) = Inr ()" "fs_matches ops s (se_root se) (cr_marker r) \<noteq> Inr True"
    and pub: "session_publish ops r se s = (Inl e, s')"
  shows "fs_matches ops s' (se_root se) (cr_marker r) \<noteq> Inr True"
proof (cases "publish_checks ops se r s")
  case (Inl c)
  then show ?thesis using marker(2) pub by (simp add: session_publish_def)
next
  case (Inr d)
  let ?root = "se_root se" and ?m = "cr_marker r" and ?own = "ca_path (se_recipe_identity se)"
  obtain y s1 where P1: "fs_promote ops d ''identity'' ?root ?own s = (y, s1)" by (metis surj_pair)
  obtain z s2 where P2: "fs_promote ops d ''marker'' ?root (ca_path ?m) s1 = (z, s2)" by (metis surj_pair)
  have one: "fs_matches ops s1 ?root ?m \<noteq> Inr True" using identity_move [OF P1 own marker(1)] marker(2) by blast
  show ?thesis
  proof (cases y)
    case (Inl e')
    then show ?thesis using one pub Inr P1 by (simp add: session_publish_def rust_simps)
  next
    case (Inr u)
    then have "z = Inl e" "s' = s2" using pub \<open>publish_checks ops se r s = Inr d\<close> P1 P2
      by (simp_all add: session_publish_def rust_simps)
    then have "adds_no_file s1 s'" using promote_adds [OF P2] by auto
    then show ?thesis using one by (auto simp: adds_no_file_def)
  qed
qed

end

lemma table_rename_failed: "table_rename t h n k m = (Some e, t') \<Longrightarrow> t' = t"
  by (auto simp: table_rename_def split: option.splits if_splits)

lemma table_rename_leaves:
  assumes "table_rename t h n k m = (None, t')" "(h, n) \<noteq> (k, m)"
  shows "row t' h n = None"
  using assms(1)
proof (rule table_rename_cases)
  fix i assume r: "row t h n = Some i" and t': "t' = (map (\<lambda>e. vacate k m (vacate h n e)) t)[i := (t ! i)\<lparr>en_parent := k, en_name := m\<rparr>]"
  have "\<not> hit h n (t' ! j)" if "j < length t'" for j
    using that assms(2) row_from_Some [OF r] by (cases "j = i") (auto simp: t' hit_def vacate_def)
  then show ?thesis using row_from_Some [of 0 h n t'] by (cases "row t' h n") auto
qed (use assms(2) in simp)

lemma table_create_fresh:
  assumes "table_open_dir t h n = Inl NotFound" "table_create_dir t h n = (r, t')"
  shows "table_open_dir t' h n = Inl NotFound
    \<or> (\<exists>d. table_open_dir t' h n = Inr d \<and> (\<forall>k. table_open_dir t' d k = Inl NotFound))"
proof -
  have none: "row t h n = None" using assms(1) by (auto simp: table_open_dir_def split: option.splits if_splits)
  consider "t' = t" | (new) "t' = t @ [\<lparr>en_parent = h, en_name = n, en_node = EDirectory\<rparr>]" "h \<le> length t"
      "\<forall>e \<in> set t. en_parent e \<noteq> length t + 1"
    using assms(2) none by (auto simp: table_create_dir_def list_ex_iff split: if_splits)
  then show ?thesis
  proof cases
    case new
    have "table_open_dir t' h n = Inr (length t + 1)"
      using none new(2) by (simp add: new(1) table_open_dir_def row_from_append hit_def node_of_def)
    moreover have "table_open_dir t' (length t + 1) k = Inl NotFound" for k
    proof -
      have "\<not> hit (length t + 1) k e" if "e \<in> set t'" for e using that new by (auto simp: hit_def)
      then have "row t' (length t + 1) k = None"
        using row_from_Some [of 0 "length t + 1" k t'] by (cases "row t' (length t + 1) k") auto
      then show ?thesis by (simp add: table_open_dir_def)
    qed
    ultimately show ?thesis by blast
  qed (use assms(1) in simp)
qed

interpretation table_steady: steady_directories table_ops
proof unfold_locales
  fix t t' :: "entry list" and h n k m e r
  show "same_except table_ops {} t t'" if "op_rename table_ops t h n k m = (Some e, t')"
    using that by (auto simp: same_except_def dest: table_rename_failed)
  show "op_open_dir table_ops t' h n = Inl NotFound"
    if "op_rename table_ops t h n k m = (None, t')" "(h, n) \<noteq> (k, m)"
    using table_rename_leaves [of t h n k m t'] that by (simp add: table_open_dir_def)
  show "op_open_dir table_ops t' h n = Inl NotFound
      \<or> (\<exists>d. op_open_dir table_ops t' h n = Inr d \<and> (\<forall>k. op_open_dir table_ops t' d k = Inl NotFound))"
    if "op_open_dir table_ops t h n = Inl NotFound" "op_create_dir table_ops t h n = (r, t')"
    using table_create_fresh that by simp
qed (auto simp: table_open_dir_def table_open_read_def row_meta_def split: option.splits if_splits)

subsection \<open>The property\<close>

definition hex_digits :: string where
  "hex_digits = ''0123456789abcdef''"

text \<open>A character that a path may hold anywhere but at its end, other than a separator.\<close>

definition plain :: "char \<Rightarrow> bool" where
  "plain c \<longleftrightarrow> 32 \<le> byte c \<and> byte c < 127 \<and> c \<noteq> CHR ''/'' \<and> c \<noteq> CHR 0x5C \<and> c \<noteq> CHR '':''"

lemma plain_no_control: "list_all plain x \<Longrightarrow> \<not> has_control x"
  by (induction x) (auto simp: plain_def)

lemma hex_plain: "set x \<subseteq> set hex_digits \<Longrightarrow> c \<in> set x \<Longrightarrow> plain c \<and> c \<noteq> CHR ''.'' \<and> c \<noteq> CHR '' ''"
proof -
  assume "set x \<subseteq> set hex_digits" "c \<in> set x"
  moreover have "list_all (\<lambda>c. plain c \<and> c \<noteq> CHR ''.'' \<and> c \<noteq> CHR '' '') hex_digits" by code_simp
  ultimately show ?thesis by (auto simp: list_all_iff)
qed

lemma forbidden_short: "forbidden v \<Longrightarrow> length v \<le> 7"
proof -
  assume "forbidden v"
  then have "length (to_ascii_lowercase v) \<le> 7"
    by (auto simp: forbidden_def simp del: length_to_ascii_lowercase)
  then show ?thesis by simp
qed

lemma ends_with_last: "ends_with [c] p \<Longrightarrow> last p = c"
  by (auto simp: ends_with_def strip_suffix_Some)

lemma hex_own_path:
  assumes hex: "set x \<subseteq> set hex_digits" "length x = 64"
  shows "safe_relative (''.tinyruntime-recipe-'' @ x) = Inr ()"
    "split_on (CHR ''/'') (''.tinyruntime-recipe-'' @ x) = [''.tinyruntime-recipe-'' @ x]"
proof -
  let ?p = "''.tinyruntime-recipe-'' @ x"
  have "list_all plain ''.tinyruntime-recipe-''" by code_simp
  moreover have "list_all plain x" using hex_plain [OF hex(1)] by (auto simp: list_all_iff)
  ultimately have all: "list_all plain ?p" by (simp only: list_all_append)
  then have free: "c \<notin> set ?p" if "\<not> plain c" for c using that by (auto simp only: list_all_iff)
  show sp: "split_on (CHR ''/'') ?p = [?p]" by (rule split_on_free, rule free) (simp add: plain_def)
  have "x \<noteq> []" using hex(2) by auto
  then have "last ?p \<in> set x" by simp
  then have "last ?p \<noteq> CHR ''.''" "last ?p \<noteq> CHR '' ''" using hex_plain [OF hex(1)] by blast+
  then have "\<not> ends_with ''.'' ?p" "\<not> ends_with '' '' ?p"
    by (metis ends_with_last)+
  moreover have "\<not> forbidden ?p" using forbidden_short [of ?p] hex(2) by auto
  moreover have "part_stem ?p = []" by (simp add: part_stem_def to_ascii_uppercase_def)
  ultimately have "\<not> bad_part ?p" by (simp add: bad_part_def device_name_def)
  then show "safe_relative ?p = Inr ()"
    using sp hex(2) plain_no_control [OF all] free [of "CHR 0x5C"] free [of "CHR '':''"]
    by (simp add: safe_relative_def contains_char_def plain_def)
qed

text \<open>
  C14.  A publication that fails, at whatever step, leaves a cache that is not ready: if the marker was
  not in place before, no session on that directory, this one or another, is told afterwards that a
  recipe with this marker is cached or adoptable.  It rests on digests of 64 hexadecimal digits and
  on what directory handles promise, which includes that a rename that fails changes nothing and
  that nobody fills a directory while it is being created.
\<close>

theorem failed_publish_not_ready:
  assumes "steady_directories ops" "\<And>t. length (digest t) = 64 \<and> set (digest t) \<subseteq> set hex_digits"
    and "validate_recipe r = Inr ()" "recipe_identity digest serialise r = Inr (se_recipe_identity se)"
    and "fs_matches ops s (se_root se) (cr_marker r) \<noteq> Inr True"
    and "session_publish ops r se s = (Inl e, s')"
    and "se_root se' = se_root se" "cr_marker r' = cr_marker r"
  shows "session_readiness ops se' r' s' \<noteq> Inr RCached \<and> session_readiness ops se' r' s' \<noteq> Inr RLegacy"
proof -
  obtain t where own: "se_recipe_identity se =
      \<lparr>ca_path = ''.tinyruntime-recipe-'' @ digest (ca_path (cr_marker r)), ca_bytes = digest t\<rparr>"
    using assms(4) by (cases "serialise r") (auto simp: recipe_identity_def dest: sym)
  let ?x = "''.tinyruntime-recipe-'' @ digest (ca_path (cr_marker r))"
  have path: "ca_path (se_recipe_identity se) = ?x" by (simp only: own cache_artifact.select_convs)
  have one: "split_on (CHR ''/'') ?x = [?x]" using hex_own_path(2) assms(2) by blast
  have "?x = ''.tinyruntime-'' @ ''recipe-'' @ digest (ca_path (cr_marker r))" by simp
  then obtain part where "part \<in> set (split_on (CHR ''/'') ?x)" "starts_with ''.tinyruntime-'' (to_ascii_lowercase part)"
    using own_part_prefix [of "''recipe-'' @ digest (ca_path (cr_marker r))"] by metis
  then have "starts_with ''.tinyruntime-'' (to_ascii_lowercase ?x)"
    unfolding one by (simp only: list.set singleton_iff)
  moreover have "relative (ca_path (cr_marker r)) = Inr ()"
    using validate_recipe_ok(2) [OF assms(3), of "cr_marker r"] by simp
  ultimately have "fs_matches ops s' (se_root se) (cr_marker r) \<noteq> Inr True"
    using steady_directories.publish_failure [OF assms(1) _ _ _ assms(5,6), unfolded path] one by blast
  then show ?thesis
    using assms(7,8) by (auto simp: session_readiness_def rust_simps split: if_splits sum.splits)
qed

text \<open>A stage whose marker somebody removed: the identity is moved, and the second move fails.\<close>

definition demo_unmarked :: "entry list" where
  "demo_unmarked =
     [\<lparr>en_parent = 0, en_name = ''data'', en_node = EDirectory\<rparr>,
      \<lparr>en_parent = 1, en_name = LOCK_NAME, en_node = EFile []\<rparr>,
      \<lparr>en_parent = 1, en_name = ''.tinyruntime-stage-7'', en_node = EDirectory\<rparr>,
      \<lparr>en_parent = 1, en_name = ''req.txt'', en_node = EFile ''torch''\<rparr>,
      \<lparr>en_parent = 3, en_name = ''identity'', en_node = EFile (demo_digest ''r'')\<rparr>,
      \<lparr>en_parent = 1, en_name = ''venv'', en_node = EDirectory\<rparr>]"

definition demo_interrupted :: "entry list" where
  "demo_interrupted =
     [\<lparr>en_parent = 0, en_name = ''data'', en_node = EDirectory\<rparr>,
      \<lparr>en_parent = 1, en_name = LOCK_NAME, en_node = EFile []\<rparr>,
      \<lparr>en_parent = 1, en_name = ''.tinyruntime-stage-7'', en_node = EDirectory\<rparr>,
      \<lparr>en_parent = 1, en_name = ''req.txt'', en_node = EFile ''torch''\<rparr>,
      \<lparr>en_parent = 1, en_name = demo_own, en_node = EFile (demo_digest ''r'')\<rparr>,
      \<lparr>en_parent = 1, en_name = ''venv'', en_node = EDirectory\<rparr>]"

lemma demo_unmarked_checks: "publish_checks table_ops demo_session demo_recipe demo_unmarked = Inr 3"
proof -
  have "check_binding table_ops demo_session demo_unmarked = Inr ()"
    by (simp add: check_binding_def absolute_def same_directory_def descend_def map_filter_simps
        demo_unmarked_def demo_session_def table_run_defs table_ops_def)
  then show ?thesis
    by (simp add: publish_checks_def demo_unmarked_def demo_session_def demo_recipe_def cache_run_defs table_run_defs
        staging_directory_def LOCK_NAME_def)
qed

lemma demo_interrupt:
  "session_publish table_ops demo_recipe demo_session demo_unmarked = (Inl io_failed, demo_interrupted)"
  unfolding session_publish_def demo_unmarked_checks
  by (simp add: demo_unmarked_def demo_session_def demo_recipe_def cache_run_defs table_run_defs demo_interrupted_def)

theorem failed_publish_not_ready_witness:
  "session_publish table_ops demo_recipe demo_session demo_unmarked = (Inl io_failed, demo_interrupted)
   \<and> demo_interrupted \<noteq> demo_unmarked
   \<and> session_readiness table_ops demo_session demo_recipe demo_interrupted \<notin> {Inr RCached, Inr RLegacy}"
proof -
  have own: "recipe_identity demo_digest (\<lambda>_. Some ''r'') demo_recipe = Inr (se_recipe_identity demo_session)"
    by (simp add: recipe_identity_def demo_session_def demo_recipe_def demo_digest_def demo_own_def)
  have digest: "length (demo_digest t) = 64 \<and> set (demo_digest t) \<subseteq> set hex_digits" for t
    by (simp add: demo_digest_def hex_digits_def)
  have unmarked: "fs_matches table_ops demo_unmarked (se_root demo_session) (cr_marker demo_recipe) \<noteq> Inr True"
    by (simp add: fs_matches_def demo_unmarked_def demo_session_def demo_recipe_def fs_parent_def table_run_defs)
  have "demo_interrupted \<noteq> demo_unmarked" by (simp add: demo_interrupted_def demo_unmarked_def)
  then show ?thesis
    using demo_interrupt
      failed_publish_not_ready [OF table_steady.steady_directories_axioms digest demo_recipe_valid own unmarked demo_interrupt refl refl]
    by simp
qed

end
