(* ===== verification/Py_Spawner.thy ===== *)
theory Py_Spawner
  imports Pool_Worker
begin

text \<open>
  The seam of \<open>crates/tinyruntime-pyserver/src/spawner.rs\<close>, through which a host confines the
  embedded Python worker.  It is a twin of the router's own seam in \<open>Pool_Worker\<close>: types of its
  own with the same operations, and the lemmas at the end say so.
\<close>

record py_spawn_spec =
  ysp_program :: string
  ysp_args :: "string list"
  ysp_env :: "(string \<times> string) list"
  ysp_clear_env :: bool

datatype py_spawn_refused = PySpawnRefusal string

definition py_refused_to_string :: "py_spawn_refused \<Rightarrow> string" where
  "py_refused_to_string r =
     (case r of PySpawnRefusal why \<Rightarrow> ''the spawner refused to start the process: '' @ why)"

record py_spawner =
  py_spawner_id :: string
  py_spawner_confine :: "py_spawn_spec \<Rightarrow> py_spawn_refused + py_spawn_spec"

text \<open>The variables are set in the order of the list, after the inherited ones were cleared, if at all.\<close>

fun py_set_env :: "(string \<times> string) list \<Rightarrow> (string \<rightharpoonup> string) \<Rightarrow> string \<rightharpoonup> string" where
  "py_set_env [] m = m"
| "py_set_env ((name, value) # rest) m = py_set_env rest (m(name \<mapsto> value))"

definition py_to_command :: "(string \<rightharpoonup> string) \<Rightarrow> py_spawn_spec \<Rightarrow> command" where
  "py_to_command inherited spec =
     \<lparr>cmd_program = ysp_program spec, cmd_args = ysp_args spec,
      cmd_env = py_set_env (ysp_env spec) (if ysp_clear_env spec then Map.empty else inherited)\<rparr>"

definition py_confine :: "py_spawner option \<Rightarrow> py_spawn_spec \<Rightarrow> py_spawn_refused + py_spawn_spec" where
  "py_confine sp spec = (case sp of Some s \<Rightarrow> py_spawner_confine s spec | None \<Rightarrow> Inr spec)"

subsection \<open>The router's twin\<close>

definition as_router_spec :: "py_spawn_spec \<Rightarrow> spawn_spec" where
  "as_router_spec spec =
     \<lparr>sp_program = ysp_program spec, sp_args = ysp_args spec, sp_env = ysp_env spec,
      sp_clear_env = ysp_clear_env spec\<rparr>"

lemma py_set_env_fold: "py_set_env env m = foldl (\<lambda>m (k, v). m(k \<mapsto> v)) m env"
  by (induction env m rule: py_set_env.induct) (simp_all del: fun_upd_apply)

lemma same_command: "py_to_command inherited spec = to_command inherited (as_router_spec spec)"
  by (simp add: py_to_command_def to_command_def as_router_spec_def py_set_env_fold)

lemma py_environment:
  "dom (cmd_env (py_to_command inherited spec)) =
     (if ysp_clear_env spec then {} else dom inherited) \<union> fst ` set (ysp_env spec)"
  by (simp add: same_command dom_to_command as_router_spec_def)

end
