(* ===== verification/Py_Server.thy ===== *)
theory Py_Server
  imports Worker_Contract Py_Spawner Filesystem
begin

text \<open>
  The embedded Python worker of \<open>crates/tinyruntime-pyserver\<close>: \<open>error.rs\<close>, \<open>launch.rs\<close>,
  \<open>script.rs\<close>, \<open>server.rs\<close> and \<open>slot.rs\<close>.  Output lines carry the instant
  they arrive; the codec, the host's answers and the launch preparation are arguments.  The slot
  shares its servers with its callers, so servers live in a list and the slot holds an index.
\<close>

subsection \<open>Errors\<close>

datatype py_error =
    PySpawn string string string
  | PySpawnRefused py_spawn_refused
  | PyStdinMissing
  | PyStdoutMissing
  | PyExitedBeforeReady
  | PyHandshakeRead string
  | PyHandshakeTimeout
  | PyReadyParse string string
  | PyStartFailed string
  | PyProtocolMismatch u32 "u32 option"
  | PyEncode string
  | PyWrite string
  | PyFlush string
  | PyClosed
  | PyRead string
  | PyRequestTimeout
  | PyRemote string string
  | PyDecode string string
  | PyUnavailable string
  | PyBackingOff string
  | PyPrepare string
  | PyCreateDir string string
  | PyWriteScript string string

fun py_to_string :: "py_error \<Rightarrow> string" where
  "py_to_string (PySpawn bin script e) =
     ''spawning runtime python server: failed to spawn python process `'' @ bin @ ''` for script ''
       @ script @ '': '' @ e"
| "py_to_string (PySpawnRefused r) = ''spawning runtime python server: '' @ py_refused_to_string r"
| "py_to_string PyStdinMissing = ''runtime python server stdin missing''"
| "py_to_string PyStdoutMissing = ''runtime python server stdout missing''"
| "py_to_string PyExitedBeforeReady = ''runtime python server exited before readiness handshake''"
| "py_to_string (PyHandshakeRead e) = ''reading runtime python server handshake: '' @ e"
| "py_to_string PyHandshakeTimeout = ''runtime python server readiness handshake timed out''"
| "py_to_string (PyReadyParse line e) =
     ''parsing runtime python server ready line: '' @ line @ '': '' @ e"
| "py_to_string (PyStartFailed e) = ''runtime python server failed to start: '' @ e"
| "py_to_string (PyProtocolMismatch expected got) =
     ''runtime python server protocol mismatch: expected '' @ dec (unat expected) @ '', got ''
       @ (case got of None \<Rightarrow> ''None'' | Some v \<Rightarrow> ''Some('' @ dec (unat v) @ '')'')"
| "py_to_string (PyEncode e) = ''encoding runtime python server request: '' @ e"
| "py_to_string (PyWrite e) = ''writing runtime python server request: '' @ e"
| "py_to_string (PyFlush e) = ''flushing runtime python server request: '' @ e"
| "py_to_string PyClosed = ''runtime python server closed stdout''"
| "py_to_string (PyRead e) = ''reading runtime python server response: '' @ e"
| "py_to_string PyRequestTimeout = ''runtime python server request timed out''"
| "py_to_string (PyRemote m e) = ''runtime python server `'' @ m @ ''` failed: '' @ e"
| "py_to_string (PyDecode m e) = ''decoding runtime python server `'' @ m @ ''` result: '' @ e"
| "py_to_string (PyUnavailable e) = ''runtime python server unavailable: '' @ e"
| "py_to_string (PyBackingOff e) =
     ''runtime python server unavailable after previous startup failure: '' @ e"
| "py_to_string (PyPrepare e) = e"
| "py_to_string (PyCreateDir p e) = ''creating runtime python server cache '' @ p @ '': '' @ e"
| "py_to_string (PyWriteScript p e) = ''writing runtime python server script '' @ p @ '': '' @ e"

subsection \<open>Launches and the script\<close>

definition PY_HANDSHAKE_TIMEOUT :: duration where "PY_HANDSHAKE_TIMEOUT = dur_from_secs 30"
definition PY_REQUEST_TIMEOUT :: duration where "PY_REQUEST_TIMEOUT = dur_from_secs 60"

record server_launch =
  ln_python_bin :: string
  ln_script_path :: string
  ln_backends :: "string list"
  ln_env :: "(string \<times> string) list"
  ln_handshake_timeout :: duration
  ln_request_timeout :: duration
  ln_spawner :: "py_spawner option"

definition server_launch_new ::
  "string \<Rightarrow> string \<Rightarrow> string list \<Rightarrow> (string \<times> string) list \<Rightarrow> server_launch" where
  "server_launch_new bin script backends env =
     \<lparr>ln_python_bin = bin, ln_script_path = script, ln_backends = backends, ln_env = env,
      ln_handshake_timeout = PY_HANDSHAKE_TIMEOUT, ln_request_timeout = PY_REQUEST_TIMEOUT,
      ln_spawner = None\<rparr>"

definition server_launch_with_spawner :: "py_spawner \<Rightarrow> server_launch \<Rightarrow> server_launch" where
  "server_launch_with_spawner sp l = l\<lparr>ln_spawner := Some sp\<rparr>"

definition SCRIPT_FILE_NAME :: string where "SCRIPT_FILE_NAME = ''runtime_python_server.py''"

text \<open>The embedded script is an argument.  A refusal by the host replaces what the tree would answer.\<close>

definition write_script ::
  "string \<Rightarrow> io_error option \<Rightarrow> io_error option \<Rightarrow> loc \<Rightarrow> string \<Rightarrow> fs \<Rightarrow> (py_error + string) \<times> fs" where
  "write_script script refused_dir refused_write cwd root fs =
     (case create_dir_all refused_dir cwd (view root) fs of
        (Some e, fs1) \<Rightarrow> (Inl (PyCreateDir root (io_to_string e)), fs1)
      | (None, fs1) \<Rightarrow>
          (let path = path_join root SCRIPT_FILE_NAME
           in case (case refused_write of
                      Some e \<Rightarrow> (Some e, fs1)
                    | None \<Rightarrow> write_file script cwd (view path) fs1) of
                (Some e, fs2) \<Rightarrow> (Inl (PyWriteScript path (io_to_string e)), fs2)
              | (None, fs2) \<Rightarrow> (Inr path, fs2)))"

subsection \<open>Lines with a timeout\<close>

fun next_line ::
  "instant \<Rightarrow> duration \<Rightarrow> stream_event list \<Rightarrow> read_answer \<times> instant \<times> stream_event list" where
  "next_line now timeout [] = (ReadTimeout, now + timeout, [])"
| "next_line now timeout (ev # evs) =
     (if now + timeout < event_time ev then (ReadTimeout, now + timeout, ev # evs)
      else (case ev of LineAt _ l \<Rightarrow> ReadLine l | EofAt _ \<Rightarrow> ReadEof | ErrorAt _ e \<Rightarrow> ReadError e,
            max now (event_time ev), evs))"

subsection \<open>One worker\<close>

record inner =
  in_stdout :: "stream_event list"
  in_next_id :: u64
  in_ready_backends :: "string list"

record server =
  sv_launch :: server_launch
  sv_inner :: "inner option"
  sv_last_used :: instant

definition server_new :: "server_launch \<Rightarrow> instant \<Rightarrow> server" where
  "server_new l now = \<lparr>sv_launch = l, sv_inner = None, sv_last_used = now\<rparr>"

definition server_backends :: "server \<Rightarrow> string list" where
  "server_backends s = ln_backends (sv_launch s)"

record py_codec =
  pc_ready :: "string \<Rightarrow> string + ready_line"
  pc_encode :: "server_request \<Rightarrow> string + string"
  pc_decode :: "string \<Rightarrow> server_response option"

text \<open>
  What one spawn gets from the host: the inherited environment, the answer to starting the command
  (an error or none), the pipes, the child's output and the clock.
\<close>

record py_spawn_env =
  yn_inherited :: "string \<rightharpoonup> string"
  yn_start :: "command \<Rightarrow> string option"
  yn_stdin :: bool
  yn_stdout :: bool
  yn_stream :: "stream_event list"
  yn_now :: instant

definition py_spec :: "server_launch \<Rightarrow> py_spawn_spec" where
  "py_spec l =
     \<lparr>ysp_program = ln_python_bin l, ysp_args = [''-u'', ln_script_path l], ysp_env = ln_env l,
      ysp_clear_env = False\<rparr>"

definition spawn_child :: "py_spawn_env \<Rightarrow> server_launch \<Rightarrow> py_error + command" where
  "spawn_child env l =
     (case py_confine (ln_spawner l) (py_spec l) of
        Inl r \<Rightarrow> Inl (PySpawnRefused r)
      | Inr spec \<Rightarrow>
          (let cmd = py_to_command (yn_inherited env) spec
           in case yn_start env cmd of
                Some e \<Rightarrow> Inl (PySpawn (ln_python_bin l) (ln_script_path l) e)
              | None \<Rightarrow> Inr cmd))"

text \<open>The second component is the instant it is over.\<close>

definition spawn_inner ::
  "py_codec \<Rightarrow> py_spawn_env \<Rightarrow> server_launch \<Rightarrow> (py_error + inner) \<times> instant" where
  "spawn_inner co env l =
     (case spawn_child env l of
        Inl e \<Rightarrow> (Inl e, yn_now env)
      | Inr _ \<Rightarrow>
     if \<not> yn_stdin env then (Inl PyStdinMissing, yn_now env)
     else if \<not> yn_stdout env then (Inl PyStdoutMissing, yn_now env)
     else case next_line (yn_now env) (ln_handshake_timeout l) (yn_stream env) of
       (ReadEof, t, _) \<Rightarrow> (Inl PyExitedBeforeReady, t)
     | (ReadError e, t, _) \<Rightarrow> (Inl (PyHandshakeRead e), t)
     | (ReadTimeout, t, _) \<Rightarrow> (Inl PyHandshakeTimeout, t)
     | (ReadLine line, t, rest) \<Rightarrow>
         (case pc_ready co line of
            Inl e \<Rightarrow> Inl (PyReadyParse line e)
          | Inr ready \<Rightarrow>
              if \<not> ry_ready ready
              then Inl (PyStartFailed (case ry_error ready of Some e \<Rightarrow> e | None \<Rightarrow> ''unknown''))
              else if ry_protocol ready \<noteq> Some PROTOCOL_VERSION
              then Inl (PyProtocolMismatch PROTOCOL_VERSION (ry_protocol ready))
              else Inr \<lparr>in_stdout = rest, in_next_id = 0, in_ready_backends = ry_backends ready\<rparr>, t))"

definition server_start :: "py_codec \<Rightarrow> py_spawn_env \<Rightarrow> server \<Rightarrow> (py_error + unit) \<times> server" where
  "server_start co env s =
     (if sv_inner s \<noteq> None then (Inr (), s)
      else case fst (spawn_inner co env (sv_launch s)) of
             Inl e \<Rightarrow> (Inl e, s)
           | Inr i \<Rightarrow> (Inr (), s\<lparr>sv_inner := Some i\<rparr>))"

text \<open>The read loop: the timeout bounds each line, not the whole wait.\<close>

fun await_line ::
  "py_codec \<Rightarrow> string \<Rightarrow> duration \<Rightarrow> instant \<Rightarrow> stream_event list
     \<Rightarrow> (py_error + server_response) \<times> instant \<times> stream_event list" where
  "await_line co i timeout now [] = (Inl PyRequestTimeout, now + timeout, [])"
| "await_line co i timeout now (ev # evs) =
     (case next_line now timeout (ev # evs) of
        (ReadEof, t, rest) \<Rightarrow> (Inl PyClosed, t, rest)
      | (ReadError e, t, rest) \<Rightarrow> (Inl (PyRead e), t, rest)
      | (ReadTimeout, t, rest) \<Rightarrow> (Inl PyRequestTimeout, t, rest)
      | (ReadLine line, t, _) \<Rightarrow>
          (case pc_decode co line of
             None \<Rightarrow> await_line co i timeout t evs
           | Some r \<Rightarrow> if sr_id r \<noteq> Some i then await_line co i timeout t evs else (Inr r, t, evs)))"

definition response_result ::
  "(json \<Rightarrow> string + 'a) \<Rightarrow> string \<Rightarrow> server_response \<Rightarrow> py_error + 'a" where
  "response_result from method r =
     (if \<not> sr_ok r
      then Inl (PyRemote method
             (case sr_error r of
                None \<Rightarrow> ''unknown python server error''
              | Some e \<Rightarrow> sv_code e @ '': '' @ sv_message e))
      else case from (case sr_result r of Some v \<Rightarrow> v | None \<Rightarrow> JNull) of
             Inl e \<Rightarrow> Inl (PyDecode method e)
           | Inr v \<Rightarrow> Inr v)"

record py_attempt =
  ya_spawn :: py_spawn_env
  ya_write :: "string option"
  ya_flush :: "string option"

text \<open>
  One attempt at instant \<open>now\<close>.  The second component is the request line the worker got whole, if
  it got one, the third the instant it is over.
\<close>

definition request_once ::
  "py_codec \<Rightarrow> (json \<Rightarrow> string + 'a) \<Rightarrow> py_attempt \<Rightarrow> instant \<Rightarrow> string \<Rightarrow> json \<Rightarrow> server
     \<Rightarrow> (py_error + 'a) \<times> string option \<times> instant \<times> server" where
  "request_once co from env now method params s =
     (case (case sv_inner s of
              Some i \<Rightarrow> (Inr i, now)
            | None \<Rightarrow> spawn_inner co (ya_spawn env) (sv_launch s)) of
        (Inl e, t) \<Rightarrow> (Inl e, None, t, s)
      | (Inr i, t) \<Rightarrow>
          (let rid = u64_to_string (in_next_id i);
               i1 = i\<lparr>in_next_id := in_next_id i + 1\<rparr>;
               s1 = s\<lparr>sv_inner := Some i1\<rparr>
           in case pc_encode co \<lparr>sq_id = rid, sq_method = method, sq_params = params\<rparr> of
                Inl e \<Rightarrow> (Inl (PyEncode e), None, t, s1)
              | Inr line \<Rightarrow>
                  (case (ya_write env, ya_flush env) of
                     (Some e, _) \<Rightarrow> (Inl (PyWrite e), None, t, s1)
                   | (None, Some e) \<Rightarrow> (Inl (PyFlush e), Some (line @ [CHR 0x0A]), t, s1)
                   | (None, None) \<Rightarrow>
                       (case await_line co rid (ln_request_timeout (sv_launch s)) t (in_stdout i1) of
                          (answer, t1, rest) \<Rightarrow>
                            (case answer of Inl e \<Rightarrow> Inl e | Inr r \<Rightarrow> response_result from method r,
                             Some (line @ [CHR 0x0A]), t1,
                             s\<lparr>sv_inner := Some (i1\<lparr>in_stdout := rest\<rparr>)\<rparr>)))))"

definition server_reset :: "server \<Rightarrow> server" where
  "server_reset s = s\<lparr>sv_inner := None\<rparr>"

definition mark_used :: "instant \<Rightarrow> server \<Rightarrow> server" where
  "mark_used now s = s\<lparr>sv_last_used := now\<rparr>"

text \<open>
  The lock is free between the steps of a request, so others may use the server there:
  \<open>meanwhile k\<close> is what they do in the \<open>k\<close>-th gap.  The second component of the result lists the
  request lines the workers got, in order.
\<close>

definition sent_lines :: "string option \<Rightarrow> string list" where
  "sent_lines sent = (case sent of None \<Rightarrow> [] | Some l \<Rightarrow> [l])"

definition py_server_request ::
  "py_codec \<Rightarrow> (json \<Rightarrow> string + 'a) \<Rightarrow> py_attempt \<Rightarrow> py_attempt \<Rightarrow> (nat \<Rightarrow> server \<Rightarrow> server) \<Rightarrow> instant
     \<Rightarrow> string \<Rightarrow> json \<Rightarrow> server \<Rightarrow> (py_error + 'a) \<times> string list \<times> server" where
  "py_server_request co from env1 env2 meanwhile now method params s =
     (case request_once co from env1 now method params s of
        (Inr v, sent, t, s1) \<Rightarrow> (Inr v, sent_lines sent, mark_used t (meanwhile 0 s1))
      | (Inl _, sent, t, s1) \<Rightarrow>
          (case request_once co from env2 t method params (meanwhile 1 (server_reset (meanwhile 0 s1))) of
             (r, sent2, t2, s2) \<Rightarrow>
               (r, sent_lines sent @ sent_lines sent2,
                case r of Inr _ \<Rightarrow> mark_used t2 (meanwhile 2 s2) | Inl _ \<Rightarrow> s2)))"

definition server_idle_expired :: "instant \<Rightarrow> duration \<Rightarrow> server \<Rightarrow> bool" where
  "server_idle_expired now timeout s \<longleftrightarrow> timeout \<le> elapsed now (sv_last_used s)"

definition server_status_of :: "server \<Rightarrow> server_status" where
  "server_status_of s =
     (let ready = (case sv_inner s of None \<Rightarrow> [] | Some i \<Rightarrow> in_ready_backends i)
      in \<lparr>ss_enabled = True, ss_running = (sv_inner s \<noteq> None),
          ss_backends = map (\<lambda>i. \<lparr>bs_id = i, bs_enabled = True, bs_ready = i \<in> set ready, bs_message = None\<rparr>)
                          (ln_backends (sv_launch s)),
          ss_message = None\<rparr>)"

subsection \<open>The slot\<close>

definition START_FAILURE_BACKOFF :: duration where "START_FAILURE_BACKOFF = dur_from_secs 300"

record idle_rule =
  ir_backend :: string
  ir_timeout :: duration

datatype cache = CEmpty | CReady nat | CFailed string instant

record slot_world =
  sx_cache :: cache
  sx_servers :: "server list"

definition server_slot_new :: slot_world where
  "server_slot_new = \<lparr>sx_cache = CEmpty, sx_servers = []\<rparr>"

definition slot_failed :: "instant \<Rightarrow> string \<Rightarrow> cache" where
  "slot_failed now message = CFailed message (now + START_FAILURE_BACKOFF)"

text \<open>
  The answers one \<open>ensure\<close> gets: the clock at its tests and after a failure, what the host's
  preparation yields, and what a spawn gets.
\<close>

record ensure_env =
  nv_idle_now :: instant
  nv_now :: instant
  nv_prepare :: "py_error + server_launch"
  nv_new_now :: instant
  nv_spawn :: py_spawn_env
  nv_failed_now :: instant

text \<open>A cached worker for other backends, or idle too long, is reset and forgotten.\<close>

definition slot_discard :: "ensure_env \<Rightarrow> string list \<Rightarrow> idle_rule option \<Rightarrow> slot_world \<Rightarrow> slot_world" where
  "slot_discard env requested idle w =
     (case sx_cache w of
        CReady i \<Rightarrow>
          (let s = sx_servers w ! i
           in if server_backends s \<noteq> requested
                 \<or> (case idle of
                      None \<Rightarrow> False
                    | Some rule \<Rightarrow> ir_backend rule \<in> set (server_backends s)
                        \<and> server_idle_expired (nv_idle_now env) (ir_timeout rule) s)
              then \<lparr>sx_cache = CEmpty, sx_servers = (sx_servers w)[i := server_reset s]\<rparr>
              else w)
      | _ \<Rightarrow> w)"

definition build_server ::
  "py_codec \<Rightarrow> ensure_env \<Rightarrow> slot_world \<Rightarrow> (py_error + nat) \<times> slot_world" where
  "build_server co env w =
     (case nv_prepare env of
        Inl e \<Rightarrow> (Inl e, w)
      | Inr l \<Rightarrow>
          (case server_start co (nv_spawn env) (server_new l (nv_new_now env)) of
             (Inl e, _) \<Rightarrow> (Inl e, w)
           | (Inr _, s) \<Rightarrow> (Inr (length (sx_servers w)), w\<lparr>sx_servers := sx_servers w @ [s]\<rparr>)))"

text \<open>The last component says whether the host's preparation was run.\<close>

definition slot_ensure ::
  "py_codec \<Rightarrow> ensure_env \<Rightarrow> string list \<Rightarrow> idle_rule option \<Rightarrow> slot_world
     \<Rightarrow> (py_error + nat) \<times> slot_world \<times> bool" where
  "slot_ensure co env requested idle w =
     (let w1 = slot_discard env requested idle w;
          build = (case build_server co env w1 of
                     (Inr i, w2) \<Rightarrow> (Inr i, w2\<lparr>sx_cache := CReady i\<rparr>, True)
                   | (Inl e, w2) \<Rightarrow>
                       (Inl (PyUnavailable (py_to_string e)),
                        w2\<lparr>sx_cache := slot_failed (nv_failed_now env) (py_to_string e)\<rparr>, True))
      in case sx_cache w1 of
           CReady i \<Rightarrow>
             (case server_start co (nv_spawn env) (sx_servers w1 ! i) of
                (Inl e, s) \<Rightarrow>
                  (Inl (PyUnavailable (py_to_string e)),
                   \<lparr>sx_cache = slot_failed (nv_failed_now env) (py_to_string e),
                    sx_servers = (sx_servers w1)[i := s]\<rparr>, False)
              | (Inr _, s) \<Rightarrow> (Inr i, w1\<lparr>sx_servers := (sx_servers w1)[i := s]\<rparr>, False))
         | CFailed message retry_after \<Rightarrow>
             if nv_now env < retry_after then (Inl (PyBackingOff message), w1, False) else build
         | CEmpty \<Rightarrow> build)"

definition slot_status :: "slot_world \<Rightarrow> server_status" where
  "slot_status w =
     (case sx_cache w of
        CReady i \<Rightarrow> server_status_of (sx_servers w ! i)
      | CFailed message _ \<Rightarrow>
          \<lparr>ss_enabled = True, ss_running = False, ss_backends = [],
           ss_message = Some (''runtime python server unavailable: '' @ message)\<rparr>
      | CEmpty \<Rightarrow> server_status_disabled ''runtime python server has not started'')"

subsection \<open>Reading\<close>

lemma next_line_time: "next_line now timeout evs = (r, t, rest) \<Longrightarrow> now \<le> t \<and> t \<le> now + timeout"
  by (cases evs) (auto split: if_splits)

text \<open>The response a wait accepts is on a line of the child's output and carries the request's id.\<close>

lemma await_line_response:
  "await_line co i timeout now evs = (Inr r, t, rest) \<Longrightarrow>
   sr_id r = Some i \<and> (\<exists>skipped t0 l. evs = skipped @ LineAt t0 l # rest \<and> pc_decode co l = Some r)"
proof (induction co i timeout now evs rule: await_line.induct)
  case (2 co i timeout now ev evs)
  then show ?case
    by (cases ev) (fastforce simp: Cons_eq_append_conv split: if_splits option.splits)+
qed simp

text \<open>Each skipped line restarts the timeout.\<close>

lemma await_line_time:
  "await_line co i timeout now evs = (r, t, rest) \<Longrightarrow>
   length rest \<le> length evs \<and> t \<le> now + (length evs - length rest + 1) * timeout"
proof (induction co i timeout now evs rule: await_line.induct)
  case (2 co i timeout now ev evs)
  obtain x u q where n: "next_line now timeout (ev # evs) = (x, u, q)" by (metis surj_pair)
  have u: "u \<le> now + timeout" using next_line_time [OF n] by simp
  have q: "q = evs \<or> q = ev # evs" using n by (auto split: if_splits)
  have stop: ?case if "t = u" "rest = q" using that u q by auto
  have go: ?case if "await_line co i timeout u evs = (r, t, rest)"
      "length rest \<le> length evs \<and> t \<le> u + (length evs - length rest + 1) * timeout"
    using that u by (auto simp: Suc_diff_le algebra_simps)
  show ?case
  proof (cases x)
    case (ReadLine line)
    have q2: "q = evs" using n ReadLine by (auto split: if_splits)
    show ?thesis
    proof (cases "pc_decode co line")
      case None
      then show ?thesis using 2 n ReadLine go by (simp del: next_line.simps)
    next
      case (Some a)
      show ?thesis
      proof (cases "sr_id a = Some i")
        case True
        then show ?thesis using 2(3) n ReadLine Some stop q2 by (simp del: next_line.simps)
      next
        case False
        then have on: "await_line co i timeout u evs = (r, t, rest)"
          using 2(3) n ReadLine Some by (simp del: next_line.simps)
        show ?thesis by (rule go [OF on 2(2) [OF n [symmetric] ReadLine refl Some False on]])
      qed
    qed
  qed (use 2 n stop in \<open>auto simp del: next_line.simps\<close>)
qed auto

text \<open>A child that prints a line nobody asked for once per timeout.\<close>

fun chatter :: "instant \<Rightarrow> duration \<Rightarrow> string \<Rightarrow> nat \<Rightarrow> stream_event list" where
  "chatter now gap l 0 = []"
| "chatter now gap l (Suc n) = LineAt (now + gap) l # chatter (now + gap) gap l n"

lemma py_timeout_restarts:
  "pc_decode co noise = None \<Longrightarrow>
   await_line co i timeout now (chatter now timeout noise n) =
     (Inl PyRequestTimeout, now + (n + 1) * timeout, [])"
  by (induction n arbitrary: now) (simp_all add: algebra_simps)

subsection \<open>One attempt\<close>

text \<open>The child an attempt talks to: the one it found, or one it starts.\<close>

definition attempt_child :: "py_codec \<Rightarrow> py_attempt \<Rightarrow> instant \<Rightarrow> server \<Rightarrow> (py_error + inner) \<times> instant" where
  "attempt_child co env now s =
     (case sv_inner s of Some i \<Rightarrow> (Inr i, now) | None \<Rightarrow> spawn_inner co (ya_spawn env) (sv_launch s))"

text \<open>A value an attempt returns is what the child sent for this attempt's own request.\<close>

definition answered ::
  "py_codec \<Rightarrow> (json \<Rightarrow> string + 'a) \<Rightarrow> string \<Rightarrow> json \<Rightarrow> inner \<Rightarrow> string option \<Rightarrow> 'a \<Rightarrow> bool" where
  "answered co from method params i sent v \<longleftrightarrow>
     (\<exists>line r t0 l.
        pc_encode co \<lparr>sq_id = u64_to_string (in_next_id i), sq_method = method, sq_params = params\<rparr> = Inr line
      \<and> sent = Some (line @ [CHR 0x0A])
      \<and> LineAt t0 l \<in> set (in_stdout i) \<and> pc_decode co l = Some r
      \<and> sr_id r = Some (u64_to_string (in_next_id i)) \<and> sr_ok r
      \<and> from (case sr_result r of Some x \<Rightarrow> x | None \<Rightarrow> JNull) = Inr v)"

lemma response_result_ok:
  "response_result from method r = Inr v \<longleftrightarrow>
   sr_ok r \<and> from (case sr_result r of Some x \<Rightarrow> x | None \<Rightarrow> JNull) = Inr v"
  by (auto simp: response_result_def split: sum.splits)

lemma request_once_answer:
  assumes "request_once co from env now method params s = (Inr v, sent, t, s')"
  shows "\<exists>i t0. attempt_child co env now s = (Inr i, t0) \<and> answered co from method params i sent v"
proof -
  obtain c t0 where c: "attempt_child co env now s = (c, t0)" by (metis surj_pair)
  obtain i where i: "c = Inr i"
    using assms c by (cases c) (auto simp: request_once_def attempt_child_def)
  let ?rid = "u64_to_string (in_next_id i)"
  obtain line where line: "pc_encode co \<lparr>sq_id = ?rid, sq_method = method, sq_params = params\<rparr> = Inr line"
    using assms c i
    by (cases "pc_encode co \<lparr>sq_id = ?rid, sq_method = method, sq_params = params\<rparr>")
      (auto simp: request_once_def attempt_child_def Let_def)
  obtain a t1 rest where a: "await_line co ?rid (ln_request_timeout (sv_launch s)) t0 (in_stdout i) = (a, t1, rest)"
    by (metis surj_pair)
  have r: "sent = Some (line @ [CHR 0x0A]) \<and> (case a of Inl e \<Rightarrow> Inl e | Inr r \<Rightarrow> response_result from method r) = Inr v"
    using assms c i line a
    by (cases "ya_write env"; cases "ya_flush env") (auto simp: request_once_def attempt_child_def Let_def)
  then obtain r where "a = Inr r" "response_result from method r = Inr v" by (cases a) auto
  moreover have "sr_id r = Some ?rid \<and> (\<exists>skipped t0 l. in_stdout i = skipped @ LineAt t0 l # rest \<and> pc_decode co l = Some r)"
    using await_line_response a calculation(1) by blast
  ultimately show ?thesis using r line c i by (fastforce simp: answered_def response_result_ok)
qed

text \<open>A child that was started has answered the handshake in this protocol and starts at id 0.\<close>

lemma spawn_inner_ready:
  assumes "spawn_inner co env l = (Inr i, t)"
  shows "in_next_id i = 0 \<and> t \<le> yn_now env + ln_handshake_timeout l
    \<and> (\<exists>cmd. spawn_child env l = Inr cmd)
    \<and> (\<exists>t0 line ready. yn_stream env = LineAt t0 line # in_stdout i \<and> pc_ready co line = Inr ready \<and> ry_ready ready
         \<and> ry_protocol ready = Some PROTOCOL_VERSION \<and> in_ready_backends i = ry_backends ready)"
proof -
  obtain x u q where n: "next_line (yn_now env) (ln_handshake_timeout l) (yn_stream env) = (x, u, q)" by (metis surj_pair)
  have c: "\<exists>cmd. spawn_child env l = Inr cmd" "yn_stdin env" "yn_stdout env"
    using assms by (auto simp: spawn_inner_def split: sum.splits if_splits)
  have x: "\<exists>line. x = ReadLine line" using assms c n by (cases x) (auto simp: spawn_inner_def)
  then obtain line where line: "x = ReadLine line" ..
  have "\<exists>t0. yn_stream env = LineAt t0 line # q"
    using n line by (cases "yn_stream env") (auto split: if_splits stream_event.splits)
  then show ?thesis
    using assms c n line next_line_time [OF n]
    by (auto simp: spawn_inner_def split: sum.splits if_splits)
qed

subsection \<open>The slot and its callers\<close>

text \<open>
  A caller keeps the server \<open>ensure\<close> handed out for as long as it likes, also after the slot has
  discarded it.  What it may do to it under the server's lock: an attempt of a request, which starts
  a child if there is none, or a start; and a reset, or the note of a success.
\<close>

inductive server_asked :: "py_codec \<Rightarrow> (json \<Rightarrow> string + 'a) \<Rightarrow> server \<Rightarrow> server \<Rightarrow> bool" for co decode where
  attempt: "request_once co decode env now method params s = (r, sent, t, s') \<Longrightarrow> server_asked co decode s s'"
| start: "server_start co env s = (r, s') \<Longrightarrow> server_asked co decode s s'"

text \<open>
  The slot with its callers.  The second component is the set of servers somebody asked when they were
  no longer the cached one.
\<close>

record slot_run =
  sr_world :: slot_world
  sr_stale :: "nat set"

definition put_server :: "nat \<Rightarrow> server \<Rightarrow> slot_world \<Rightarrow> slot_world" where
  "put_server i sv w = w\<lparr>sx_servers := (sx_servers w)[i := sv]\<rparr>"

inductive slot_step :: "py_codec \<Rightarrow> (json \<Rightarrow> string + 'a) \<Rightarrow> slot_run \<Rightarrow> slot_run \<Rightarrow> bool" for co decode where
  ensured: "slot_ensure co env requested idle (sr_world s) = (r, w, prepared) \<Longrightarrow>
    slot_step co decode s (s\<lparr>sr_world := w\<rparr>)"
| asked: "i < length (sx_servers (sr_world s)) \<Longrightarrow> server_asked co decode (sx_servers (sr_world s) ! i) sv \<Longrightarrow>
    slot_step co decode s
      \<lparr>sr_world = put_server i sv (sr_world s),
       sr_stale = (if sx_cache (sr_world s) = CReady i then sr_stale s else insert i (sr_stale s))\<rparr>"
| reset: "i < length (sx_servers (sr_world s)) \<Longrightarrow>
    slot_step co decode s (s\<lparr>sr_world := put_server i (server_reset (sx_servers (sr_world s) ! i)) (sr_world s)\<rparr>)"
| marked: "i < length (sx_servers (sr_world s)) \<Longrightarrow>
    slot_step co decode s (s\<lparr>sr_world := put_server i (mark_used now (sx_servers (sr_world s) ! i)) (sr_world s)\<rparr>)"

definition slot_init :: slot_run where
  "slot_init = \<lparr>sr_world = server_slot_new, sr_stale = {}\<rparr>"

subsection \<open>The slot's invariant\<close>

text \<open>
  The slot caches its newest server or none, and every other server that runs was asked after it was
  discarded.
\<close>

definition slot_ok :: "nat set \<Rightarrow> slot_world \<Rightarrow> bool" where
  "slot_ok stale w \<longleftrightarrow>
     (\<forall>i < length (sx_servers w). sv_inner (sx_servers w ! i) \<noteq> None \<longrightarrow> sx_cache w = CReady i \<or> i \<in> stale)
     \<and> (\<forall>i. sx_cache w = CReady i \<longrightarrow> Suc i = length (sx_servers w) \<and> i \<notin> stale)
     \<and> stale \<subseteq> {..< length (sx_servers w)}"

lemma slot_discard_cases:
  "slot_discard env requested idle w = w \<or>
   (\<exists>i. sx_cache w = CReady i \<and> slot_discard env requested idle w =
      \<lparr>sx_cache = CEmpty, sx_servers = (sx_servers w)[i := server_reset (sx_servers w ! i)]\<rparr>)"
  by (cases "sx_cache w") (simp_all add: slot_discard_def Let_def)

lemma slot_discard_ok:
  assumes "slot_ok stale w"
  shows "slot_ok stale (slot_discard env requested idle w)"
proof (cases "slot_discard env requested idle w = w")
  case False
  then obtain i where "sx_cache w = CReady i" and eq: "slot_discard env requested idle w =
      \<lparr>sx_cache = CEmpty, sx_servers = (sx_servers w)[i := server_reset (sx_servers w ! i)]\<rparr>"
    using slot_discard_cases by blast
  then show ?thesis using assms unfolding eq
    by (auto simp: slot_ok_def server_reset_def nth_list_update)
qed (simp add: assms)

lemma slot_discard_kept:
  assumes "slot_ok stale w" "sx_cache (slot_discard env requested idle w) = CReady i"
  shows "slot_discard env requested idle w = w \<and> server_backends (sx_servers w ! i) = requested
    \<and> (\<forall>rule. idle = Some rule \<and> ir_backend rule \<in> set requested \<longrightarrow>
          \<not> server_idle_expired (nv_idle_now env) (ir_timeout rule) (sx_servers w ! i))"
proof -
  have same: "slot_discard env requested idle w = w" and i: "sx_cache w = CReady i"
    using slot_discard_cases [of env requested idle w] assms(2) by auto
  let ?s = "sx_servers w ! i"
  have "\<not> (server_backends ?s \<noteq> requested \<or>
      (case idle of None \<Rightarrow> False
       | Some rule \<Rightarrow> ir_backend rule \<in> set (server_backends ?s) \<and> server_idle_expired (nv_idle_now env) (ir_timeout rule) ?s))"
  proof
    assume "server_backends ?s \<noteq> requested \<or>
      (case idle of None \<Rightarrow> False
       | Some rule \<Rightarrow> ir_backend rule \<in> set (server_backends ?s) \<and> server_idle_expired (nv_idle_now env) (ir_timeout rule) ?s)"
    then have "sx_cache (slot_discard env requested idle w) = CEmpty" using i by (simp add: slot_discard_def Let_def)
    then show False using assms(2) by simp
  qed
  then show ?thesis using same by (cases idle) auto
qed

lemma server_start_running: "server_start co env s = (Inr u, s') \<Longrightarrow> sv_inner s' \<noteq> None"
  by (auto simp: server_start_def split: if_splits sum.splits)

lemma server_start_failed: "server_start co env s = (Inl e, s') \<Longrightarrow> s' = s \<and> sv_inner s = None"
  by (auto simp: server_start_def split: if_splits sum.splits)

lemma server_start_launch: "server_start co env s = (r, s') \<Longrightarrow> sv_launch s' = sv_launch s"
  by (auto simp: server_start_def split: if_splits sum.splits)

end
