(* ===== verification/Py_Properties.thy ===== *)
theory Py_Properties
  imports Py_Server
begin

text \<open>
  The properties of the embedded Python worker: the slot hands out one running worker, remembers a
  failed start, and a request returns only the answer to itself.
\<close>

subsection \<open>A run to look at\<close>

text \<open>A codec that reads the few lines a short run has, and a host in which every spawn works.\<close>

definition demo_py_codec :: py_codec where
  "demo_py_codec =
     \<lparr>pc_ready = (\<lambda>l. if l = ''ready''
        then Inr \<lparr>ry_ready = True, ry_protocol = Some PROTOCOL_VERSION, ry_backends = [''spacy''], ry_error = None\<rparr>
        else Inl ''expected value''),
      pc_encode = (\<lambda>q. Inr (sq_id q @ '' '' @ sq_method q)),
      pc_decode = (\<lambda>l. if l = ''answer''
        then Some \<lparr>sr_id = Some ''0'', sr_ok = True, sr_result = None, sr_error = None\<rparr> else None)\<rparr>"

definition demo_py_spawn :: "stream_event list \<Rightarrow> py_spawn_env" where
  "demo_py_spawn evs =
     \<lparr>yn_inherited = Map.empty, yn_start = (\<lambda>_. None), yn_stdin = True, yn_stdout = True,
      yn_stream = evs, yn_now = 0\<rparr>"

definition demo_py_launch :: server_launch where
  "demo_py_launch = server_launch_new ''python3'' ''server.py'' [''spacy''] []"

definition demo_py_ensure :: "instant \<Rightarrow> stream_event list \<Rightarrow> ensure_env" where
  "demo_py_ensure now evs =
     \<lparr>nv_idle_now = now, nv_now = now, nv_prepare = Inr demo_py_launch, nv_new_now = now,
      nv_spawn = demo_py_spawn evs, nv_failed_now = now\<rparr>"

lemmas demo_py_defs = demo_py_codec_def demo_py_spawn_def demo_py_launch_def demo_py_ensure_def server_slot_new_def
  slot_ensure_def slot_discard_def build_server_def server_start_def server_new_def spawn_inner_def
  spawn_child_def py_confine_def server_launch_new_def PY_HANDSHAKE_TIMEOUT_def slot_failed_def

subsection \<open>The branches of one call\<close>

lemma slot_ensure_kept:
  "sx_cache (slot_discard env requested idle w) = CReady i \<Longrightarrow> slot_discard env requested idle w = w \<Longrightarrow>
   slot_ensure co env requested idle w =
     (case server_start co (nv_spawn env) (sx_servers w ! i) of
        (Inl e, s) \<Rightarrow>
          (Inl (PyUnavailable (py_to_string e)),
           \<lparr>sx_cache = slot_failed (nv_failed_now env) (py_to_string e), sx_servers = (sx_servers w)[i := s]\<rparr>, False)
      | (Inr _, s) \<Rightarrow> (Inr i, w\<lparr>sx_servers := (sx_servers w)[i := s]\<rparr>, False))"
  by (simp add: slot_ensure_def Let_def)

lemma slot_ensure_waits:
  "sx_cache w = CFailed m t \<Longrightarrow> nv_now env < t \<Longrightarrow>
   slot_ensure co env requested idle w = (Inl (PyBackingOff m), w, False)"
  by (simp add: slot_ensure_def slot_discard_def Let_def)

lemma slot_ensure_builds:
  assumes "\<forall>i. sx_cache (slot_discard env requested idle w) \<noteq> CReady i"
    "\<forall>m t. sx_cache w = CFailed m t \<longrightarrow> t \<le> nv_now env"
  shows "slot_ensure co env requested idle w =
    (case build_server co env (slot_discard env requested idle w) of
       (Inr i, w2) \<Rightarrow> (Inr i, w2\<lparr>sx_cache := CReady i\<rparr>, True)
     | (Inl e, w2) \<Rightarrow>
         (Inl (PyUnavailable (py_to_string e)),
          w2\<lparr>sx_cache := slot_failed (nv_failed_now env) (py_to_string e)\<rparr>, True))"
proof (cases "sx_cache w")
  case (CFailed m t)
  then have "slot_discard env requested idle w = w" by (simp add: slot_discard_def)
  then show ?thesis using CFailed assms(2) by (simp add: slot_ensure_def Let_def)
next
  case CEmpty
  then have "slot_discard env requested idle w = w" by (simp add: slot_discard_def)
  then show ?thesis using CEmpty by (simp add: slot_ensure_def Let_def)
next
  case (CReady i)
  then have "sx_cache (slot_discard env requested idle w) = CEmpty"
    using slot_discard_cases [of env requested idle w] assms(1) by force
  then show ?thesis by (simp add: slot_ensure_def Let_def)
qed

lemma build_server_cases:
  assumes "build_server co env w = (r, w')"
  obtains e where "r = Inl e" "w' = w"
  | l s where "nv_prepare env = Inr l" "r = Inr (length (sx_servers w))" "sv_launch s = l" "sv_inner s \<noteq> None"
      "w' = w\<lparr>sx_servers := sx_servers w @ [s]\<rparr>"
proof (cases "nv_prepare env")
  case (Inl e)
  then have "r = Inl e \<and> w' = w" using assms by (simp add: build_server_def)
  then show ?thesis using that(1) by blast
next
  case (Inr l)
  obtain x s where st: "server_start co (nv_spawn env) (server_new l (nv_new_now env)) = (x, s)" by (metis surj_pair)
  show ?thesis
  proof (cases x)
    case (Inl e)
    then have "r = Inl e \<and> w' = w" using assms Inr st by (simp add: build_server_def)
    then show ?thesis using that(1) by blast
  next
    case (Inr u)
    have "sv_launch s = l" using server_start_launch [OF st] by (simp add: server_new_def)
    moreover have "r = Inr (length (sx_servers w)) \<and> w' = w\<lparr>sx_servers := sx_servers w @ [s]\<rparr>"
      using assms \<open>nv_prepare env = Inr l\<close> st Inr by (simp add: build_server_def)
    moreover have "sv_inner s \<noteq> None" using server_start_running st Inr by blast
    ultimately show ?thesis using that(2) [of l s] \<open>nv_prepare env = Inr l\<close> by blast
  qed
qed

lemma slot_discard_length [simp]: "length (sx_servers (slot_discard env requested idle w)) = length (sx_servers w)"
  using slot_discard_cases [of env requested idle w] by force

lemma slot_ensure_remembers:
  assumes "slot_ensure co env requested idle w = (Inl (PyUnavailable m), w', prepared)"
  shows "sx_cache w' = slot_failed (nv_failed_now env) m"
proof (cases "\<exists>i. sx_cache (slot_discard env requested idle w) = CReady i")
  case True
  then obtain i where c: "sx_cache (slot_discard env requested idle w) = CReady i" ..
  have "slot_discard env requested idle w = w" using slot_discard_cases [of env requested idle w] c by auto
  then show ?thesis
    using slot_ensure_kept [OF c, of co] assms by (auto split: prod.splits sum.splits)
next
  case False
  have "\<not> (\<exists>m t. sx_cache w = CFailed m t \<and> nv_now env < t)" using assms slot_ensure_waits by force
  then show ?thesis
    using slot_ensure_builds [of env requested idle w co] False assms
    by (auto simp: not_less split: prod.splits sum.splits)
qed

lemma slot_ok_stopped:
  "slot_ok stale w \<Longrightarrow> \<forall>i. sx_cache w \<noteq> CReady i \<Longrightarrow> i < length (sx_servers w) \<Longrightarrow> i \<notin> stale \<Longrightarrow>
   sv_inner (sx_servers w ! i) = None"
  by (auto simp: slot_ok_def)

text \<open>What a call leaves and hands out, when it keeps the cached server and when it builds one.\<close>

definition ensured ::
  "nat set \<Rightarrow> ensure_env \<Rightarrow> string list \<Rightarrow> idle_rule option \<Rightarrow> slot_world \<Rightarrow> py_error + nat \<Rightarrow> slot_world \<Rightarrow> bool \<Rightarrow> bool" where
  "ensured stale env requested idle w r w' prepared \<longleftrightarrow>
    slot_ok stale w'
    \<and> (\<forall>i. r = Inr i \<longrightarrow> sx_cache w' = CReady i \<and> i < length (sx_servers w') \<and> sv_inner (sx_servers w' ! i) \<noteq> None
        \<and> (if prepared then i = length (sx_servers w) \<and> nv_prepare env = Inr (sv_launch (sx_servers w' ! i))
           else sx_cache w = CReady i \<and> server_backends (sx_servers w ! i) = requested
             \<and> (\<forall>rule. idle = Some rule \<and> ir_backend rule \<in> set requested \<longrightarrow>
                   elapsed (nv_idle_now env) (sv_last_used (sx_servers w ! i)) < ir_timeout rule)))"

lemma ensured_kept:
  assumes "slot_ok stale w" "slot_ensure co env requested idle w = (r, w', prepared)"
    and c: "sx_cache (slot_discard env requested idle w) = CReady i"
  shows "ensured stale env requested idle w r w' prepared"
proof -
  note kept = slot_discard_kept [OF assms(1) c]
  then have i: "sx_cache w = CReady i" "i < length (sx_servers w)"
    using c assms(1) by (auto simp: slot_ok_def)
  obtain x s where st: "server_start co (nv_spawn env) (sx_servers w ! i) = (x, s)" by (metis surj_pair)
  show ?thesis
  proof (cases x)
    case (Inl e)
    then have s: "s = sx_servers w ! i" "sv_inner s = None" using server_start_failed st by blast+
    have "r = Inl (PyUnavailable (py_to_string e))
        \<and> w' = \<lparr>sx_cache = slot_failed (nv_failed_now env) (py_to_string e), sx_servers = sx_servers w\<rparr>"
      using assms(2) slot_ensure_kept [OF c, of co] kept st Inl s(1) by simp
    then show ?thesis using assms(1) i s by (auto simp: ensured_def slot_ok_def slot_failed_def)
  next
    case (Inr u)
    have "r = Inr i \<and> w' = w\<lparr>sx_servers := (sx_servers w)[i := s]\<rparr> \<and> \<not> prepared"
      using assms(2) slot_ensure_kept [OF c, of co] kept st Inr by simp
    moreover have "sv_inner s \<noteq> None" using server_start_running st Inr by blast
    moreover have "server_backends (sx_servers w ! i) = requested" using kept by simp
    moreover have "elapsed (nv_idle_now env) (sv_last_used (sx_servers w ! i)) < ir_timeout rule"
      if "idle = Some rule \<and> ir_backend rule \<in> set requested" for rule
      using kept that by (simp add: server_idle_expired_def not_le)
    ultimately show ?thesis using assms(1) i by (auto simp: ensured_def slot_ok_def nth_list_update)
  qed
qed

lemma ensured_built:
  assumes "slot_ok stale w" "slot_ensure co env requested idle w = (r, w', prepared)"
    and new: "\<forall>i. sx_cache (slot_discard env requested idle w) \<noteq> CReady i"
    and due: "\<forall>m t. sx_cache w = CFailed m t \<longrightarrow> t \<le> nv_now env"
  shows "ensured stale env requested idle w r w' prepared"
proof -
  let ?w1 = "slot_discard env requested idle w"
  have ok1: "slot_ok stale ?w1" using slot_discard_ok [OF assms(1)] .
  have off: "j \<in> stale" if "j < length (sx_servers w)" "sv_inner (sx_servers ?w1 ! j) = Some y" for j y
    using slot_ok_stopped [OF ok1] new that by fastforce
  obtain x w2 where b: "build_server co env ?w1 = (x, w2)" by (metis surj_pair)
  have stale: "stale \<subseteq> {..< length (sx_servers w)}" using assms(1) by (simp add: slot_ok_def)
  have e: "(r, w', prepared) =
      (case (x, w2) of (Inr i, w2) \<Rightarrow> (Inr i, w2\<lparr>sx_cache := CReady i\<rparr>, True)
       | (Inl e, w2) \<Rightarrow> (Inl (PyUnavailable (py_to_string e)),
           w2\<lparr>sx_cache := slot_failed (nv_failed_now env) (py_to_string e)\<rparr>, True))"
    using slot_ensure_builds [OF new due, of co] b assms(2) by simp
  from b show ?thesis
  proof (rule build_server_cases)
    fix e1 assume "x = Inl e1" "w2 = ?w1"
    then show ?thesis using e off stale by (auto simp: ensured_def slot_ok_def slot_failed_def)
  next
    fix l s
    assume "nv_prepare env = Inr l" "x = Inr (length (sx_servers ?w1))" "sv_launch s = l" "sv_inner s \<noteq> None"
      "w2 = ?w1\<lparr>sx_servers := sx_servers ?w1 @ [s]\<rparr>"
    then show ?thesis using e off stale by (auto simp: ensured_def slot_ok_def nth_append split: if_splits)
  qed
qed

lemma ensured_always:
  assumes "slot_ok stale w" "slot_ensure co env requested idle w = (r, w', prepared)"
  shows "ensured stale env requested idle w r w' prepared"
proof (cases "\<exists>m t. sx_cache w = CFailed m t \<and> nv_now env < t")
  case True
  then have "w' = w \<and> (\<exists>m. r = Inl (PyBackingOff m))" using assms(2) slot_ensure_waits by fastforce
  then show ?thesis using assms(1) by (auto simp: ensured_def)
next
  case False
  then show ?thesis using ensured_kept [OF assms] ensured_built [OF assms] by (metis not_less)
qed

subsection \<open>Properties\<close>

text \<open>The slot's invariant holds whatever the callers do with the servers they were handed.\<close>

lemma server_asked_launch: "server_asked co decode s s' \<Longrightarrow> sv_launch s' = sv_launch s"
  by (induction rule: server_asked.induct)
    (auto simp: request_once_def Let_def dest: server_start_launch split: sum.splits prod.splits option.splits)

lemma slot_ok_put:
  assumes "slot_ok stale w" "i < length (sx_servers w)" "sv_inner sv \<noteq> None \<Longrightarrow> sx_cache w = CReady i \<or> i \<in> stale'"
    and "stale \<subseteq> stale'" "stale' \<subseteq> insert i stale" "sx_cache w = CReady i \<Longrightarrow> stale' = stale"
  shows "slot_ok stale' (put_server i sv w)"
  using assms by (auto simp: slot_ok_def put_server_def nth_list_update)

lemma slot_ok_step: "slot_step co decode s s' \<Longrightarrow> slot_ok (sr_stale s) (sr_world s) \<Longrightarrow> slot_ok (sr_stale s') (sr_world s')"
proof (induction rule: slot_step.induct)
  case (ensured env requested idle s r w prepared)
  then show ?case using ensured_always [OF ensured.prems ensured.hyps] by (simp add: ensured_def)
next
  case (asked i s sv)
  then show ?case by (auto intro!: slot_ok_put)
next
  case (reset i s)
  then show ?case by (auto simp: server_reset_def intro!: slot_ok_put)
next
  case (marked i s now)
  have "sv_inner (sx_servers (sr_world s) ! i) \<noteq> None \<Longrightarrow> sx_cache (sr_world s) = CReady i \<or> i \<in> sr_stale s"
    using marked by (auto simp: slot_ok_def)
  then show ?case using marked by (auto simp: mark_used_def intro!: slot_ok_put)
qed

lemma slot_ok_init: "slot_ok (sr_stale slot_init) (sr_world slot_init)"
  by (simp add: slot_ok_def slot_init_def server_slot_new_def)

interpretation py_slot: invariant_of "\<lambda>s. s = slot_init" "slot_step co decode"
    "\<lambda>s. slot_ok (sr_stale s) (sr_world s)" for co decode
  by unfold_locales (auto intro: slot_ok_init slot_ok_step)

text \<open>
  C30.  Whatever \<open>ensure\<close> calls are made and whatever the callers do with the servers they were
  handed, the slot's cached worker is the newest one, so a worker that was discarded is never handed out
  again; and any other worker that runs was asked, by a caller that still held it, after the slot had
  discarded it.  Without such a request at most one worker runs.  The next \<open>ensure\<close> that succeeds hands
  out the cached worker, running: either the one cached before, launched for exactly the backends asked
  for and not idle past the rule, and then the host's preparation is not run; or a new one built from
  the launch the preparation yielded.  A worker counts as running, as in the code, once it is started and
  until it is reset.
\<close>

theorem py_slot_single:
  assumes "reach (\<lambda>s. s = slot_init) (slot_step co decode) s"
  shows "(\<forall>i. sx_cache (sr_world s) = CReady i \<longrightarrow> Suc i = length (sx_servers (sr_world s)) \<and> i \<notin> sr_stale s)
    \<and> (\<forall>i < length (sx_servers (sr_world s)). sv_inner (sx_servers (sr_world s) ! i) \<noteq> None \<longrightarrow>
         sx_cache (sr_world s) = CReady i \<or> i \<in> sr_stale s)
    \<and> (sr_stale s = {} \<longrightarrow>
         card {i. i < length (sx_servers (sr_world s)) \<and> sv_inner (sx_servers (sr_world s) ! i) \<noteq> None} \<le> 1)
    \<and> (\<forall>env requested idle i w prepared.
         slot_ensure co env requested idle (sr_world s) = (Inr i, w, prepared) \<longrightarrow>
           sx_cache w = CReady i \<and> sv_inner (sx_servers w ! i) \<noteq> None
           \<and> (if prepared then i = length (sx_servers (sr_world s)) \<and> nv_prepare env = Inr (sv_launch (sx_servers w ! i))
              else sx_cache (sr_world s) = CReady i \<and> server_backends (sx_servers (sr_world s) ! i) = requested
                \<and> (\<forall>rule. idle = Some rule \<and> ir_backend rule \<in> set requested \<longrightarrow>
                      elapsed (nv_idle_now env) (sv_last_used (sx_servers (sr_world s) ! i)) < ir_timeout rule)))"
proof -
  let ?w = "sr_world s" and ?stale = "sr_stale s"
  let ?on = "{i. i < length (sx_servers ?w) \<and> sv_inner (sx_servers ?w ! i) \<noteq> None}"
  have ok: "slot_ok ?stale ?w" using py_slot.reach_inv [OF assms] .
  have "card ?on \<le> 1" if "?stale = {}"
  proof -
    have "?on \<subseteq> (case sx_cache ?w of CReady i \<Rightarrow> {i} | _ \<Rightarrow> {})"
      using ok that by (auto simp: slot_ok_def split: cache.split)
    moreover have "card (case sx_cache ?w of CReady i \<Rightarrow> {i} | _ \<Rightarrow> {}) \<le> 1" "finite (case sx_cache ?w of CReady i \<Rightarrow> {i} | _ \<Rightarrow> {})"
      by (auto split: cache.split)
    ultimately show ?thesis by (meson card_mono le_trans)
  qed
  moreover note ensured_always [OF ok, unfolded ensured_def]
  ultimately show ?thesis using ok unfolding slot_ok_def by blast
qed

text \<open>
  A caller keeps the server it was handed.  The slot discards it, because the next caller wants other
  backends, and starts another; the first caller's next request starts the discarded one again, and two
  workers run.
\<close>

definition demo_handed :: slot_world where
  "demo_handed =
     \<lparr>sx_cache = CReady 0,
      sx_servers = [\<lparr>sv_launch = demo_py_launch,
        sv_inner = Some \<lparr>in_stdout = [], in_next_id = 0, in_ready_backends = [''spacy'']\<rparr>, sv_last_used = 5\<rparr>]\<rparr>"

definition demo_other_launch :: server_launch where
  "demo_other_launch = demo_py_launch\<lparr>ln_backends := [''torch'']\<rparr>"

definition demo_replaced :: slot_world where
  "demo_replaced =
     \<lparr>sx_cache = CReady 1,
      sx_servers = [\<lparr>sv_launch = demo_py_launch, sv_inner = None, sv_last_used = 5\<rparr>,
        \<lparr>sv_launch = demo_other_launch,
         sv_inner = Some \<lparr>in_stdout = [], in_next_id = 0, in_ready_backends = [''spacy'']\<rparr>, sv_last_used = 8\<rparr>]\<rparr>"

definition demo_revived :: slot_run where
  "demo_revived =
     \<lparr>sr_world = put_server 0 \<lparr>sv_launch = demo_py_launch,
         sv_inner = Some \<lparr>in_stdout = [], in_next_id = 1, in_ready_backends = [''spacy'']\<rparr>, sv_last_used = 5\<rparr> demo_replaced,
      sr_stale = {0}\<rparr>"

lemma demo_handed_run:
  "slot_ensure demo_py_codec (demo_py_ensure 5 [LineAt 7 ''ready'']) [''spacy''] None server_slot_new = (Inr 0, demo_handed, True)"
  by (simp add: demo_py_defs demo_handed_def dur_from_secs_def)

lemma demo_replaced_run:
  "slot_ensure demo_py_codec ((demo_py_ensure 8 [LineAt 9 ''ready''])\<lparr>nv_prepare := Inr demo_other_launch\<rparr>) [''torch''] None
     demo_handed = (Inr 1, demo_replaced, True)"
  by (simp add: demo_py_defs demo_handed_def demo_replaced_def demo_other_launch_def server_backends_def server_reset_def
      dur_from_secs_def)

lemma demo_revived_run:
  "request_once demo_py_codec (\<lambda>_. Inr (7 :: nat))
     \<lparr>ya_spawn = demo_py_spawn [LineAt 1 ''ready'', LineAt 2 ''answer''], ya_write = None, ya_flush = None\<rparr> 0 ''ner'' JNull
     (sx_servers demo_replaced ! 0) =
   (Inr 7, Some (''0 ner'' @ [CHR 0x0A]), 2, sx_servers (sr_world demo_revived) ! 0)"
  by (simp add: demo_py_defs demo_replaced_def demo_revived_def put_server_def dur_from_secs_def request_once_def
      PY_REQUEST_TIMEOUT_def response_result_def u64_to_string_def dec.simps Let_def)

lemma demo_revived_reachable:
  "reach (\<lambda>s. s = slot_init) (slot_step demo_py_codec (\<lambda>_. Inr (7 :: nat))) demo_revived"
proof -
  let ?step = "slot_step demo_py_codec (\<lambda>_. Inr (7 :: nat))"
  have "?step slot_init (slot_init\<lparr>sr_world := demo_handed\<rparr>)"
    using demo_handed_run by (intro slot_step.ensured) (simp add: slot_init_def)
  moreover have "?step (slot_init\<lparr>sr_world := demo_handed\<rparr>) (slot_init\<lparr>sr_world := demo_handed\<rparr>\<lparr>sr_world := demo_replaced\<rparr>)"
    using demo_replaced_run by (intro slot_step.ensured) simp
  moreover have "?step (slot_init\<lparr>sr_world := demo_handed\<rparr>\<lparr>sr_world := demo_replaced\<rparr>) demo_revived"
  proof -
    let ?s = "slot_init\<lparr>sr_world := demo_handed\<rparr>\<lparr>sr_world := demo_replaced\<rparr>"
    let ?sv = "sx_servers (sr_world demo_revived) ! 0"
    have "server_asked demo_py_codec (\<lambda>_. Inr (7 :: nat)) (sx_servers (sr_world ?s) ! 0) ?sv"
      using server_asked.attempt [OF demo_revived_run] by simp
    moreover have "0 < length (sx_servers (sr_world ?s))" by (simp add: demo_replaced_def)
    ultimately have "?step ?s \<lparr>sr_world = put_server 0 ?sv (sr_world ?s),
        sr_stale = (if sx_cache (sr_world ?s) = CReady 0 then sr_stale ?s else insert 0 (sr_stale ?s))\<rparr>"
      by (rule slot_step.asked [rotated])
    then show ?thesis by (simp add: demo_revived_def demo_replaced_def put_server_def slot_init_def)
  qed
  moreover have "reach (\<lambda>s. s = slot_init) ?step slot_init" by (rule reach_init) simp
  ultimately show ?thesis by (blast intro: reach_step)
qed

theorem py_slot_single_witness:
  "sx_cache (sr_world demo_revived) = CReady 1 \<and> length (sx_servers (sr_world demo_revived)) = 2
   \<and> sv_inner (sx_servers (sr_world demo_revived) ! 0) \<noteq> None \<and> sv_inner (sx_servers (sr_world demo_revived) ! 1) \<noteq> None
   \<and> 0 \<in> sr_stale demo_revived \<and> 1 \<notin> sr_stale demo_revived"
  using py_slot_single [OF demo_revived_reachable]
  by (simp add: demo_revived_def demo_replaced_def put_server_def)

text \<open>
  C29.  A failed start is remembered: for the next 300 seconds every \<open>ensure\<close>, whatever it asks for,
  gets the same message back, changes nothing and does not run the host's preparation; from then on
  the next \<open>ensure\<close> tries again.
\<close>

theorem py_slot_backoff:
  assumes "slot_ensure co env requested idle w = (Inl (PyUnavailable m), w', prepared)"
  shows "slot_ensure co env2 requested2 idle2 w' =
           (if nv_now env2 < nv_failed_now env + START_FAILURE_BACKOFF
            then (Inl (PyBackingOff m), w', False)
            else case build_server co env2 w' of
                   (Inr i, w2) \<Rightarrow> (Inr i, w2\<lparr>sx_cache := CReady i\<rparr>, True)
                 | (Inl e, w2) \<Rightarrow>
                     (Inl (PyUnavailable (py_to_string e)),
                      w2\<lparr>sx_cache := slot_failed (nv_failed_now env2) (py_to_string e)\<rparr>, True))"
proof -
  have c: "sx_cache w' = slot_failed (nv_failed_now env) m" using slot_ensure_remembers [OF assms] .
  then have "slot_discard env2 requested2 idle2 w' = w'" by (simp add: slot_discard_def slot_failed_def)
  then show ?thesis
    using c slot_ensure_waits [of w' m _ env2] slot_ensure_builds [of env2 requested2 idle2 w' co]
    by (simp add: slot_failed_def not_less)
qed

theorem py_slot_backoff_witness:
  "slot_ensure demo_py_codec (demo_py_ensure 0 [EofAt 1]) [''spacy''] None server_slot_new =
     (Inl (PyUnavailable ''runtime python server exited before readiness handshake''),
      \<lparr>sx_cache = CFailed ''runtime python server exited before readiness handshake'' (dur_from_secs 300),
       sx_servers = []\<rparr>, True)
   \<and> slot_ensure demo_py_codec (demo_py_ensure 9 [LineAt 7 ''ready'']) [] None
       \<lparr>sx_cache = CFailed ''runtime python server exited before readiness handshake'' (dur_from_secs 300),
        sx_servers = []\<rparr> =
     (Inl (PyBackingOff ''runtime python server exited before readiness handshake''),
      \<lparr>sx_cache = CFailed ''runtime python server exited before readiness handshake'' (dur_from_secs 300),
       sx_servers = []\<rparr>, False)"
proof -
  have run: "slot_ensure demo_py_codec (demo_py_ensure 0 [EofAt 1]) [''spacy''] None server_slot_new =
     (Inl (PyUnavailable ''runtime python server exited before readiness handshake''),
      \<lparr>sx_cache = CFailed ''runtime python server exited before readiness handshake'' (dur_from_secs 300),
       sx_servers = []\<rparr>, True)"
    by (simp add: demo_py_defs dur_from_secs_def START_FAILURE_BACKOFF_def)
  show ?thesis
    using run py_slot_backoff [OF run, of "demo_py_ensure 9 [LineAt 7 ''ready'']" "[]" None]
    by (simp add: demo_py_ensure_def START_FAILURE_BACKOFF_def dur_from_secs_def)
qed

text \<open>
  C31.  A request sends at most two lines, and a value it returns is the child's answer to the last
  line sent: the response carries the id of this very request, is an ok response read from the
  child's output after the request was numbered, and decodes to the value.  When no other caller
  uses the server meanwhile, a retry talks to a fresh child.
\<close>

theorem py_request_own_answer:
  assumes "py_server_request co from env1 env2 meanwhile now method params s = (r, sent, s')"
  shows "length sent \<le> 2
    \<and> (\<forall>v. r = Inr v \<longrightarrow>
         (\<exists>first i t. sent = first @ [last sent] \<and> answered co from method params i (Some (last sent)) v
            \<and> (attempt_child co env1 now s = (Inr i, t)
               \<or> (\<exists>e sent1 t1 s1. request_once co from env1 now method params s = (Inl e, sent1, t1, s1)
                    \<and> attempt_child co env2 t1 (meanwhile 1 (server_reset (meanwhile 0 s1))) = (Inr i, t)
                    \<and> (meanwhile 1 = id \<longrightarrow> in_next_id i = 0)))))"
proof -
  obtain x sent1 t1 s1 where o1: "request_once co from env1 now method params s = (x, sent1, t1, s1)"
    by (metis surj_pair)
  show ?thesis
  proof (cases x)
    case (Inr v)
    then have r: "r = Inr v" "sent = sent_lines sent1" using assms o1 by (simp_all add: py_server_request_def)
    obtain i t where "attempt_child co env1 now s = (Inr i, t)" "answered co from method params i sent1 v"
      using request_once_answer [OF o1 [unfolded Inr]] by blast
    moreover from this obtain l where "sent1 = Some l" by (auto simp: answered_def)
    ultimately show ?thesis using r by (auto simp: sent_lines_def)
  next
    case (Inl e)
    let ?s2 = "meanwhile 1 (server_reset (meanwhile 0 s1))"
    obtain y sent2 t2 s2 where o2: "request_once co from env2 t1 method params ?s2 = (y, sent2, t2, s2)"
      by (metis surj_pair)
    then have r: "r = y" "sent = sent_lines sent1 @ sent_lines sent2"
      using assms o1 Inl by (simp_all add: py_server_request_def)
    have len: "length sent \<le> 2" using r(2) by (auto simp: sent_lines_def split: option.splits)
    have "\<exists>first i t. sent = first @ [last sent] \<and> answered co from method params i (Some (last sent)) v
        \<and> attempt_child co env2 t1 ?s2 = (Inr i, t) \<and> (meanwhile 1 = id \<longrightarrow> in_next_id i = 0)" if y: "y = Inr v" for v
    proof -
      obtain i t where i: "attempt_child co env2 t1 ?s2 = (Inr i, t)" "answered co from method params i sent2 v"
        using request_once_answer [OF o2 [unfolded y]] by blast
      then obtain l where l: "sent2 = Some l" by (auto simp: answered_def)
      have "in_next_id i = 0" if "meanwhile 1 = id"
        using i(1) that spawn_inner_ready by (auto simp: attempt_child_def server_reset_def)
      then show ?thesis using i l r(2) by (auto simp: sent_lines_def)
    qed
    then show ?thesis using len r(1) o1 Inl by blast
  qed
qed

theorem py_request_own_answer_witness:
  "py_server_request demo_py_codec (\<lambda>_. Inr (7 :: nat))
     \<lparr>ya_spawn = demo_py_spawn [LineAt 1 ''ready'', LineAt 2 ''noise'', EofAt 3], ya_write = None, ya_flush = None\<rparr>
     \<lparr>ya_spawn = demo_py_spawn [LineAt 4 ''ready'', LineAt 5 ''noise'', LineAt 6 ''answer''], ya_write = None, ya_flush = None\<rparr>
     (\<lambda>_. id) 0 ''ner'' JNull (server_new demo_py_launch 0) =
     (Inr 7, [''0 ner'' @ [CHR 0x0A], ''0 ner'' @ [CHR 0x0A]],
      \<lparr>sv_launch = demo_py_launch, sv_inner = Some \<lparr>in_stdout = [], in_next_id = 1, in_ready_backends = [''spacy'']\<rparr>,
       sv_last_used = 6\<rparr>)
   \<and> length [''0 ner'' @ [CHR 0x0A], ''0 ner'' @ [CHR 0x0A]] \<le> 2"
proof -
  have run: "py_server_request demo_py_codec (\<lambda>_. Inr (7 :: nat))
     \<lparr>ya_spawn = demo_py_spawn [LineAt 1 ''ready'', LineAt 2 ''noise'', EofAt 3], ya_write = None, ya_flush = None\<rparr>
     \<lparr>ya_spawn = demo_py_spawn [LineAt 4 ''ready'', LineAt 5 ''noise'', LineAt 6 ''answer''], ya_write = None, ya_flush = None\<rparr>
     (\<lambda>_. id) 0 ''ner'' JNull (server_new demo_py_launch 0) =
     (Inr 7, [''0 ner'' @ [CHR 0x0A], ''0 ner'' @ [CHR 0x0A]],
      \<lparr>sv_launch = demo_py_launch, sv_inner = Some \<lparr>in_stdout = [], in_next_id = 1, in_ready_backends = [''spacy'']\<rparr>,
       sv_last_used = 6\<rparr>)"
    by (simp add: demo_py_defs dur_from_secs_def py_server_request_def request_once_def PY_REQUEST_TIMEOUT_def
        server_reset_def mark_used_def sent_lines_def response_result_def u64_to_string_def dec.simps Let_def)
  from run py_request_own_answer [OF run] show ?thesis by blast
qed

end
