(* ===== verification/Worker_Protocol.thy ===== *)
theory Worker_Protocol
  imports Worker_Contract
begin

text \<open>
  The documents of \<open>bus/worker/protocol.rs\<close>: what serde derives for the lines a worker and its owner
  exchange.  A document is given as the parser yields it, with the fields in the order of the text,
  repeated ones included.  Text and document are related by the JSON codec, which is not part of the
  repository and stays an argument.
\<close>

subsection \<open>Fields\<close>

text \<open>The field of a name: absent, present, or, as \<open>None\<close>, repeated, which serde refuses.\<close>

definition field :: "string \<Rightarrow> (string \<times> json) list \<Rightarrow> json option option" where
  "field k kvs =
     (case filter (\<lambda>(a, _). a = k) kvs of
        [] \<Rightarrow> Some None
      | [(_, v)] \<Rightarrow> Some (Some v)
      | _ \<Rightarrow> None)"

text \<open>A field with \<open>serde(default)\<close>: the default when absent, what \<open>f\<close> reads otherwise.\<close>

definition field_or :: "'a \<Rightarrow> (json \<Rightarrow> 'a option) \<Rightarrow> string \<Rightarrow> (string \<times> json) list \<Rightarrow> 'a option" where
  "field_or d f k kvs = (case field k kvs of None \<Rightarrow> None | Some None \<Rightarrow> Some d | Some (Some v) \<Rightarrow> f v)"

definition field_required :: "(json \<Rightarrow> 'a option) \<Rightarrow> string \<Rightarrow> (string \<times> json) list \<Rightarrow> 'a option" where
  "field_required f k kvs = (case field k kvs of Some (Some v) \<Rightarrow> f v | _ \<Rightarrow> None)"

text \<open>A derived reader also takes an array, its elements in the order of the fields.\<close>

fun fields_of :: "string list \<Rightarrow> json \<Rightarrow> (string \<times> json) list option" where
  "fields_of names (JObject kvs) = Some kvs"
| "fields_of names (JArray vs) = (if length vs \<le> length names then Some (zip names vs) else None)"
| "fields_of names _ = None"

fun as_string :: "json \<Rightarrow> string option" where
  "as_string (JString s) = Some s"
| "as_string _ = None"

fun as_bool :: "json \<Rightarrow> bool option" where
  "as_bool (JBool b) = Some b"
| "as_bool _ = None"

fun as_u32 :: "json \<Rightarrow> u32 option" where
  "as_u32 (JNumber t) =
     (case parse_dec 0 t of
        Some n \<Rightarrow> if t \<noteq> [] \<and> n < 2 ^ 32 then Some (of_nat n) else None
      | None \<Rightarrow> None)"
| "as_u32 _ = None"

fun as_list :: "(json \<Rightarrow> 'a option) \<Rightarrow> json \<Rightarrow> 'a list option" where
  "as_list f (JArray vs) = those (map f vs)"
| "as_list f _ = None"

text \<open>An \<open>Option\<close> is null or its content.\<close>

definition as_option :: "(json \<Rightarrow> 'a option) \<Rightarrow> json \<Rightarrow> 'a option option" where
  "as_option f v = (if v = JNull then Some None else map_option Some (f v))"

definition of_option :: "('a \<Rightarrow> json) \<Rightarrow> 'a option \<Rightarrow> json" where
  "of_option f x = (case x of None \<Rightarrow> JNull | Some y \<Rightarrow> f y)"

subsection \<open>The lines\<close>

definition ready_line_to_json :: "ready_line \<Rightarrow> json" where
  "ready_line_to_json r =
     JObject [(''ready'', JBool (ry_ready r)),
       (''protocol'', of_option (\<lambda>n. JNumber (dec (unat n))) (ry_protocol r)),
       (''backends'', JArray (map JString (ry_backends r))),
       (''error'', of_option JString (ry_error r))]"

definition ready_line_of_json :: "json \<Rightarrow> ready_line option" where
  "ready_line_of_json j =
     (case fields_of [''ready'', ''protocol'', ''backends'', ''error''] j of None \<Rightarrow> None | Some kvs \<Rightarrow>
      case (field_or False as_bool ''ready'' kvs, field_or None (as_option as_u32) ''protocol'' kvs,
            field_or [] (as_list as_string) ''backends'' kvs, field_or None (as_option as_string) ''error'' kvs) of
        (Some r, Some p, Some b, Some e) \<Rightarrow>
          Some \<lparr>ry_ready = r, ry_protocol = p, ry_backends = b, ry_error = e\<rparr>
      | _ \<Rightarrow> None)"

definition server_request_to_json :: "server_request \<Rightarrow> json" where
  "server_request_to_json q =
     JObject [(''id'', JString (sq_id q)), (''method'', JString (sq_method q)), (''params'', sq_params q)]"

definition server_request_of_json :: "json \<Rightarrow> server_request option" where
  "server_request_of_json j =
     (case fields_of [''id'', ''method'', ''params''] j of None \<Rightarrow> None | Some kvs \<Rightarrow>
      case (field_required as_string ''id'' kvs, field_required as_string ''method'' kvs,
            field_or JNull Some ''params'' kvs) of
        (Some i, Some m, Some p) \<Rightarrow> Some \<lparr>sq_id = i, sq_method = m, sq_params = p\<rparr>
      | _ \<Rightarrow> None)"

definition server_error_to_json :: "server_error \<Rightarrow> json" where
  "server_error_to_json e = JObject [(''code'', JString (sv_code e)), (''message'', JString (sv_message e))]"

definition server_error_of_json :: "json \<Rightarrow> server_error option" where
  "server_error_of_json j =
     (case fields_of [''code'', ''message''] j of None \<Rightarrow> None | Some kvs \<Rightarrow>
      case (field_required as_string ''code'' kvs, field_required as_string ''message'' kvs) of
        (Some c, Some m) \<Rightarrow> Some \<lparr>sv_code = c, sv_message = m\<rparr>
      | _ \<Rightarrow> None)"

definition server_response_to_json :: "server_response \<Rightarrow> json" where
  "server_response_to_json r =
     JObject [(''id'', of_option JString (sr_id r)), (''ok'', JBool (sr_ok r)),
       (''result'', of_option (\<lambda>v. v) (sr_result r)), (''error'', of_option server_error_to_json (sr_error r))]"

definition server_response_of_json :: "json \<Rightarrow> server_response option" where
  "server_response_of_json j =
     (case fields_of [''id'', ''ok'', ''result'', ''error''] j of None \<Rightarrow> None | Some kvs \<Rightarrow>
      case (field_or None (as_option as_string) ''id'' kvs, field_or False as_bool ''ok'' kvs,
            field_or None (as_option Some) ''result'' kvs, field_or None (as_option server_error_of_json) ''error'' kvs) of
        (Some i, Some ok, Some v, Some e) \<Rightarrow>
          Some \<lparr>sr_id = i, sr_ok = ok, sr_result = v, sr_error = e\<rparr>
      | _ \<Rightarrow> None)"

subsection \<open>Round trips\<close>

lemmas protocol_defs = field_def field_or_def field_required_def ready_line_of_json_def ready_line_to_json_def
  server_request_of_json_def server_request_to_json_def server_error_of_json_def server_error_to_json_def
  server_response_of_json_def server_response_to_json_def

lemma as_option_of_option:
  "(\<And>y. x = Some y \<Longrightarrow> f (g y) = Some y \<and> g y \<noteq> JNull) \<Longrightarrow> as_option f (of_option g x) = Some x"
  by (cases x) (auto simp: as_option_def of_option_def)

lemma as_u32_dec: "as_u32 (JNumber (dec (unat (n :: u32)))) = Some n"
  using unsigned_less [of n] by (simp add: parse_dec_dec)

lemma those_strings: "those (map (as_string \<circ> JString) xs) = Some xs"
  by (induction xs) auto

lemma those_strings_comp: "those (map (\<lambda>x. as_string (JString x)) xs) = Some xs"
  by (induction xs) auto

lemma server_error_round: "server_error_of_json (server_error_to_json e) = Some e"
  by (simp add: protocol_defs)

text \<open>
  The lines a worker and its owner exchange survive writing and reading, with one exception: a
  response whose result is a JSON null is read back as one without a result.
\<close>

theorem protocol_round_trip:
  "ready_line_of_json (ready_line_to_json y) = Some y"
  "server_request_of_json (server_request_to_json q) = Some q"
  "server_response_of_json (server_response_to_json r) =
     Some (if sr_result r = Some JNull then r\<lparr>sr_result := None\<rparr> else r)"
proof -
  have "as_option as_u32 (of_option (\<lambda>n. JNumber (dec (unat n))) (ry_protocol y)) = Some (ry_protocol y)"
      "as_option as_string (of_option JString (ry_error y)) = Some (ry_error y)"
      "as_option as_string (of_option JString (sr_id r)) = Some (sr_id r)"
      "as_option server_error_of_json (of_option server_error_to_json (sr_error r)) = Some (sr_error r)"
    using as_u32_dec server_error_round by (auto intro!: as_option_of_option simp: server_error_to_json_def)
  moreover have "as_option Some (of_option (\<lambda>v. v) (sr_result r))
      = Some (if sr_result r = Some JNull then None else sr_result r)"
    by (cases "sr_result r") (auto simp: as_option_def of_option_def)
  ultimately show "ready_line_of_json (ready_line_to_json y) = Some y"
      "server_request_of_json (server_request_to_json q) = Some q"
      "server_response_of_json (server_response_to_json r) =
         Some (if sr_result r = Some JNull then r\<lparr>sr_result := None\<rparr> else r)"
    by (simp_all add: protocol_defs those_strings)
qed

end
