(* ===== verification/Py_Script.thy ===== *)
theory Py_Script
  imports Py_Server Worker_Protocol
begin

text \<open>
  The worker script \<open>crates/tinyruntime-pyserver/src/server.py\<close>: its settings, the two backends, the
  dispatch and the main loop.  A Python string is its UTF-8 bytes, cut into characters where a length,
  an index or a class of characters matters.  A Python value that came from JSON is a \<open>json\<close>, a
  dictionary in it the list of its items, no key twice.  What the interpreter and the packages answer
  is a \<open>script_host\<close>; their objects have one type \<open>'o\<close>, their state is a \<open>'w\<close>, a Python float
  an \<open>'f\<close>.  Tensor arithmetic belongs to the packages: the script uses it only for the order of the
  sentences by salience, which the host gives.
\<close>

subsection \<open>Strings\<close>

definition continuation_byte :: "char \<Rightarrow> bool" where
  "continuation_byte c \<longleftrightarrow> byte c div 64 = 2"

function characters :: "string \<Rightarrow> string list" where
  "characters [] = []"
| "characters (c # cs) = (c # takeWhile continuation_byte cs) # characters (dropWhile continuation_byte cs)"
  by pat_completeness auto
termination by (relation "measure length") (auto simp: le_imp_less_Suc length_dropWhile_le)

text \<open>\<open>str.isspace\<close> and \<open>\s\<close> also have the four separators U+001C to U+001F.\<close>

definition py_space :: "string \<Rightarrow> bool" where
  "py_space c \<longleftrightarrow> c \<in> set white_space \<or> c \<in> {[CHR 0x1C], [CHR 0x1D], [CHR 0x1E], [CHR 0x1F]}"

definition strip_characters :: "string list \<Rightarrow> string list" where
  "strip_characters cs = rev (dropWhile py_space (rev (dropWhile py_space cs)))"

definition py_strip :: "string \<Rightarrow> string" where
  "py_strip s = concat (strip_characters (characters s))"

definition py_len :: "string \<Rightarrow> nat" where
  "py_len s = length (characters s)"

text \<open>\<open>s[:n]\<close>; a negative end counts from the end of the string.\<close>

definition py_take :: "int \<Rightarrow> string \<Rightarrow> string" where
  "py_take n s = concat (take (nat (if n < 0 then n + int (py_len s) else n)) (characters s))"

subsection \<open>Values\<close>

definition py_get :: "string \<Rightarrow> (string \<times> json) list \<Rightarrow> json" where
  "py_get k kvs = (case map_of kvs k of Some v \<Rightarrow> v | None \<Rightarrow> JNull)"

text \<open>
  A number is false when it is zero: no other digit than 0 before its exponent, whatever its sign.  (A
  number too small for a double, which Python rounds to zero, counts as true here.)
\<close>

fun py_true :: "json \<Rightarrow> bool" where
  "py_true JNull = False"
| "py_true (JBool b) = b"
| "py_true (JNumber t) = list_ex (\<lambda>c. c \<in> set ''123456789'') (takeWhile (\<lambda>c. c \<notin> {CHR ''e'', CHR ''E''}) t)"
| "py_true (JString s) = (s \<noteq> [])"
| "py_true (JArray vs) = (vs \<noteq> [])"
| "py_true (JObject kvs) = (kvs \<noteq> [])"

definition py_or :: "json \<Rightarrow> json \<Rightarrow> json" where
  "py_or a b = (if py_true a then a else b)"

fun py_type :: "json \<Rightarrow> string" where
  "py_type JNull = ''NoneType''"
| "py_type (JBool b) = ''bool''"
| "py_type (JNumber t) = (if set t \<inter> {CHR ''.'', CHR ''e'', CHR ''E''} = {} then ''int'' else ''float'')"
| "py_type (JString s) = ''str''"
| "py_type (JArray vs) = ''list''"
| "py_type (JObject kvs) = ''dict''"

text \<open>An exception: the name of its type and its text.\<close>

type_synonym exn = "string \<times> string"

definition no_get :: "json \<Rightarrow> exn" where
  "no_get v = (''AttributeError'',
     [CHR 0x27] @ py_type v @ [CHR 0x27] @ '' object has no attribute '' @ [CHR 0x27] @ ''get'' @ [CHR 0x27])"

text \<open>\<open>params or {}\<close>, on which the backends call \<open>get\<close>.\<close>

fun param_items :: "json \<Rightarrow> exn + (string \<times> json) list" where
  "param_items (JObject kvs) = Inr kvs"
| "param_items v = (if py_true v then Inl (no_get v) else Inr [])"

subsection \<open>The host, the settings and the state\<close>

record py_entity =
  en_text :: string
  en_label :: string
  en_start :: nat
  en_end :: nat

record py_token =
  tk_text :: string
  tk_lemma :: string
  tk_pos :: string
  tk_stop :: bool
  tk_alpha :: bool

record py_doc =
  dc_ents :: "py_entity list"
  dc_tokens :: "py_token list"

type_synonym ('w, 'a) asks = "'w \<Rightarrow> (exn + 'a) \<times> 'w"

record ('w, 'o, 'f) script_host =
  sh_import :: "string \<Rightarrow> ('w, unit) asks"
  sh_spacy_load :: "string \<Rightarrow> string list \<Rightarrow> ('w, 'o) asks"
  sh_nlp :: "'o \<Rightarrow> json \<Rightarrow> ('w, py_doc) asks"
  sh_cuda :: "('w, bool) asks"
  sh_mps :: "('w, bool) asks"
  sh_tokenizer :: "string \<Rightarrow> ('w, 'o) asks"
  sh_model :: "string \<Rightarrow> string \<Rightarrow> ('w, 'o) asks"
  sh_salience_order :: "'o \<Rightarrow> 'o \<Rightarrow> string \<Rightarrow> string list \<Rightarrow> ('w, nat list) asks"
  sh_float :: "json \<Rightarrow> exn + 'f"
  sh_int :: "json \<Rightarrow> exn + int"
  sh_round_product :: "nat \<Rightarrow> 'f \<Rightarrow> exn + int"
  sh_lower :: "string \<Rightarrow> string"
  sh_not_text :: "json \<Rightarrow> exn"
  sh_repr :: "json \<Rightarrow> string"

record 'f script_settings =
  se_backends :: "string list"
  se_model :: string
  se_device :: string
  se_ratio :: 'f
  se_max_input :: int

record ('w, 'o) script_state =
  st_world :: 'w
  st_nlp :: "'o option"
  st_tok :: "'o option"
  st_model :: "('o \<times> string) option"

definition SCRIPT_PROTOCOL :: nat where "SCRIPT_PROTOCOL = 1"
definition SPACY_MODEL :: string where "SPACY_MODEL = ''en_core_web_sm''"

definition getenv :: "string \<Rightarrow> string \<Rightarrow> (string \<rightharpoonup> string) \<Rightarrow> string" where
  "getenv k d vars = (case vars k of Some v \<Rightarrow> v | None \<Rightarrow> d)"

definition backend_names :: "(string \<rightharpoonup> string) \<Rightarrow> string list" where
  "backend_names vars =
     filter (\<lambda>b. b \<noteq> []) (map py_strip (split_on (CHR '','') (getenv ''OPENHUMAN_RPS_BACKENDS'' ''spacy'' vars)))"

text \<open>The module's own settings; a number that does not parse ends the interpreter.\<close>

definition script_settings_of ::
  "('w, 'o, 'f) script_host \<Rightarrow> (string \<rightharpoonup> string) \<Rightarrow> exn + 'f script_settings" where
  "script_settings_of h vars =
     (case sh_float h (JString (getenv ''OPENHUMAN_RPS_KOMPRESS_TARGET_RATIO'' ''0.5'' vars)) of Inl e \<Rightarrow> Inl e | Inr r \<Rightarrow>
      case sh_int h (JString (getenv ''OPENHUMAN_RPS_KOMPRESS_MAX_INPUT_CHARS'' ''200000'' vars)) of Inl e \<Rightarrow> Inl e | Inr m \<Rightarrow>
      Inr \<lparr>se_backends = backend_names vars,
           se_model = getenv ''OPENHUMAN_RPS_KOMPRESS_MODEL'' ''answerdotai/ModernBERT-base'' vars,
           se_device = getenv ''OPENHUMAN_RPS_KOMPRESS_DEVICE'' ''cpu'' vars,
           se_ratio = r, se_max_input = m\<rparr>)"

definition script_init :: "'w \<Rightarrow> ('w, 'o) script_state" where
  "script_init w = \<lparr>st_world = w, st_nlp = None, st_tok = None, st_model = None\<rparr>"

text \<open>Steps of the script: an exception or a value, and the state.  \<open>ask\<close> puts a question to the host.\<close>

type_synonym ('w, 'o, 'a) script_step = "('w, 'o) script_state \<Rightarrow> (exn + 'a) \<times> ('w, 'o) script_state"

definition and_then ::
  "('w, 'o, 'a) script_step \<Rightarrow> ('a \<Rightarrow> ('w, 'o, 'b) script_step) \<Rightarrow> ('w, 'o, 'b) script_step" where
  "and_then m f s = (case m s of (Inl e, s1) \<Rightarrow> (Inl e, s1) | (Inr a, s1) \<Rightarrow> f a s1)"

definition gives :: "exn + 'a \<Rightarrow> ('w, 'o, 'a) script_step" where
  "gives r s = (r, s)"

definition ask :: "('w, 'a) asks \<Rightarrow> ('w, 'o, 'a) script_step" where
  "ask q s = (case q (st_world s) of (r, w) \<Rightarrow> (r, s\<lparr>st_world := w\<rparr>))"

text \<open>\<open>try\<close> with a second attempt for every exception.\<close>

definition or_else :: "('w, 'o, 'a) script_step \<Rightarrow> ('w, 'o, 'a) script_step \<Rightarrow> ('w, 'o, 'a) script_step" where
  "or_else m n s = (case m s of (Inl e, s1) \<Rightarrow> n s1 | (Inr a, s1) \<Rightarrow> (Inr a, s1))"

subsection \<open>The spaCy backend\<close>

definition load_spacy :: "('w, 'o, 'f) script_host \<Rightarrow> ('w, 'o, 'o) script_step" where
  "load_spacy h s =
     (case st_nlp s of
        Some n \<Rightarrow> (Inr n, s)
      | None \<Rightarrow>
          and_then (ask (sh_import h ''spacy'')) (\<lambda>_.
          and_then (or_else (ask (sh_spacy_load h SPACY_MODEL [''parser''])) (ask (sh_spacy_load h SPACY_MODEL [])))
            (\<lambda>n s1. (Inr n, s1\<lparr>st_nlp := Some n\<rparr>))) s)"

definition entity_to_json :: "py_entity \<Rightarrow> json" where
  "entity_to_json e =
     JObject [(''text'', JString (en_text e)), (''label'', JString (en_label e)),
       (''start'', JNumber (dec (en_start e))), (''end'', JNumber (dec (en_end e)))]"

definition token_key :: "(string \<Rightarrow> string) \<Rightarrow> py_token \<Rightarrow> string" where
  "token_key lower t = py_strip (lower (if tk_lemma t \<noteq> [] then tk_lemma t else tk_text t))"

definition is_content_noun :: "py_token \<Rightarrow> bool" where
  "is_content_noun t \<longleftrightarrow> tk_pos t \<in> {''NOUN'', ''PROPN''} \<and> \<not> tk_stop t \<and> tk_alpha t"

text \<open>The loop over the tokens; \<open>nouns\<close> is also the set of the keys seen.\<close>

fun collect_nouns :: "(string \<Rightarrow> string) \<Rightarrow> py_token list \<Rightarrow> string list \<Rightarrow> string list" where
  "collect_nouns lower [] nouns = nouns"
| "collect_nouns lower (t # ts) nouns =
     (let key = token_key lower t
      in collect_nouns lower ts
           (if is_content_noun t \<and> 2 \<le> py_len key \<and> key \<notin> set nouns then nouns @ [key] else nouns))"

definition spacy_extract :: "('w, 'o, 'f) script_host \<Rightarrow> json \<Rightarrow> ('w, 'o, json) script_step" where
  "spacy_extract h params =
     and_then (gives (param_items params)) (\<lambda>kvs.
     and_then (load_spacy h) (\<lambda>n.
     and_then (ask (sh_nlp h n (py_or (py_get ''text'' kvs) (JString [])))) (\<lambda>doc.
     gives (Inr (JObject [(''entities'', JArray (map entity_to_json (dc_ents doc))),
       (''nouns'', JArray (map JString (collect_nouns (sh_lower h) (dc_tokens doc) [])))])))))"

subsection \<open>The Kompress backend\<close>

text \<open>Any exception on the way to an answer about the devices means the processor.\<close>

definition pick_device :: "('w, 'o, 'f) script_host \<Rightarrow> 'f script_settings \<Rightarrow> ('w, 'o, string) script_step" where
  "pick_device h c =
     (if se_device c \<noteq> ''auto'' then gives (Inr (se_device c))
      else or_else
        (and_then (ask (sh_import h ''torch'')) (\<lambda>_.
         and_then (ask (sh_cuda h)) (\<lambda>cuda.
         if cuda then gives (Inr ''cuda'')
         else and_then (ask (sh_mps h)) (\<lambda>mps. gives (Inr (if mps then ''mps'' else ''cpu''))))))
        (gives (Inr ''cpu'')))"

text \<open>The tokenizer stays set when loading the model fails.\<close>

definition load_kompress :: "('w, 'o, 'f) script_host \<Rightarrow> 'f script_settings \<Rightarrow> ('w, 'o, unit) script_step" where
  "load_kompress h c s =
     (if st_model s \<noteq> None then (Inr (), s)
      else
        and_then (ask (sh_import h ''torch'')) (\<lambda>_.
        and_then (ask (sh_import h ''transformers'')) (\<lambda>_.
        and_then (pick_device h c) (\<lambda>device.
        and_then (ask (sh_tokenizer h (se_model c))) (\<lambda>tok s1.
        and_then (ask (sh_model h (se_model c) device)) (\<lambda>m s2.
          (Inr (), s2\<lparr>st_model := Some (m, device)\<rparr>)) (s1\<lparr>st_tok := Some tok\<rparr>))))) s)"

text \<open>
  The pieces between the matches of the pattern: white space after a full stop, an exclamation or a
  question mark, or else line feeds.  \<open>stop\<close>: the character before is such a mark.
\<close>

function sentence_pieces :: "bool \<Rightarrow> string list \<Rightarrow> string list \<Rightarrow> string list list" where
  "sentence_pieces stop cur [] = [rev cur]"
| "sentence_pieces stop cur (c # cs) =
     (if stop \<and> py_space c then rev cur # sentence_pieces False [] (dropWhile py_space cs)
      else if c = [CHR 0x0A] then rev cur # sentence_pieces False [] (dropWhile (\<lambda>d. d = [CHR 0x0A]) cs)
      else sentence_pieces (c \<in> {''.'', ''!'', ''?''}) (c # cur) cs)"
  by pat_completeness auto
termination
  by (relation "measure (\<lambda>(stop, cur, cs). length cs)") (auto simp: le_imp_less_Suc length_dropWhile_le)

definition split_sentences :: "string \<Rightarrow> string list" where
  "split_sentences text =
     filter (\<lambda>p. p \<noteq> []) (map (\<lambda>p. concat (strip_characters p)) (sentence_pieces False [] (characters text)))"

definition compressed :: "string \<Rightarrow> string \<Rightarrow> json" where
  "compressed text out =
     JObject [(''compressed_text'', JString out), (''input_chars'', JNumber (dec (py_len text))),
       (''output_chars'', JNumber (dec (py_len out)))]"

text \<open>\<open>xs[i]\<close> for a non-negative index.\<close>

definition py_index :: "'a list \<Rightarrow> nat \<Rightarrow> exn + 'a" where
  "py_index xs i = (if i < length xs then Inr (xs ! i) else Inl (''IndexError'', ''list index out of range''))"

fun py_pick :: "'a list \<Rightarrow> nat list \<Rightarrow> exn + 'a list" where
  "py_pick xs [] = Inr []"
| "py_pick xs (i # is) =
     (case py_index xs i of Inl e \<Rightarrow> Inl e | Inr x \<Rightarrow>
      case py_pick xs is of Inl e \<Rightarrow> Inl e | Inr ys \<Rightarrow> Inr (x # ys))"

definition keep_salient :: "string \<Rightarrow> string list \<Rightarrow> nat list \<Rightarrow> int \<Rightarrow> exn + string" where
  "keep_salient text sentences order rounded =
     (let n_keep = max 3 (nat rounded)
      in if length sentences \<le> n_keep then Inr text
         else case py_pick sentences (sort (take n_keep order)) of
                Inl e \<Rightarrow> Inl e
              | Inr kept \<Rightarrow> Inr (join_with '' '' kept))"

text \<open>With tokenizer and model in place: rank the sentences, and keep the first ones.\<close>

definition rank_and_keep ::
  "('w, 'o, 'f) script_host \<Rightarrow> 'f \<Rightarrow> string \<Rightarrow> string list \<Rightarrow> ('w, 'o, json) script_step" where
  "rank_and_keep h ratio text sentences s =
     (case (st_tok s, st_model s) of
        (Some tok, Some (m, device)) \<Rightarrow>
          and_then (ask (sh_salience_order h tok m device sentences)) (\<lambda>order.
          and_then (gives (sh_round_product h (length sentences) ratio)) (\<lambda>rounded.
          and_then (gives (keep_salient text sentences order rounded)) (\<lambda>out.
          gives (Inr (compressed text out))))) s
      | _ \<Rightarrow> (Inl (''TypeError'', [CHR 0x27] @ ''NoneType'' @ [CHR 0x27] @ '' object is not callable''), s))"

definition compress_text ::
  "('w, 'o, 'f) script_host \<Rightarrow> 'f script_settings \<Rightarrow> 'f \<Rightarrow> string \<Rightarrow> ('w, 'o, json) script_step" where
  "compress_text h c ratio text =
     (let sentences = split_sentences text
      in if length sentences \<le> 3 then gives (Inr (compressed text text))
         else and_then (load_kompress h c) (\<lambda>_.
              and_then (ask (sh_import h ''torch'')) (\<lambda>_. rank_and_keep h ratio text sentences)))"

definition cut_text :: "int \<Rightarrow> string \<Rightarrow> string" where
  "cut_text max_input text = (if max_input < int (py_len text) then py_take max_input text else text)"

definition kompress_compress ::
  "('w, 'o, 'f) script_host \<Rightarrow> 'f script_settings \<Rightarrow> json \<Rightarrow> ('w, 'o, json) script_step" where
  "kompress_compress h c params =
     and_then (gives (param_items params)) (\<lambda>kvs.
     and_then (gives (case map_of kvs ''target_ratio'' of Some v \<Rightarrow> sh_float h v | None \<Rightarrow> Inr (se_ratio c))) (\<lambda>ratio.
     and_then (gives (case map_of kvs ''max_input_chars'' of Some v \<Rightarrow> sh_int h v | None \<Rightarrow> Inr (se_max_input c)))
       (\<lambda>max_input.
       (case py_or (py_get ''text'' kvs) (JString []) of
          JString text \<Rightarrow> compress_text h c ratio (cut_text max_input text)
        | v \<Rightarrow> gives (Inl (sh_not_text h v))))))"

subsection \<open>The dispatch\<close>

definition error_answer :: "json \<Rightarrow> string \<Rightarrow> string \<Rightarrow> json" where
  "error_answer rid code message =
     JObject [(''id'', rid), (''ok'', JBool False),
       (''error'', JObject [(''code'', JString code), (''message'', JString message)])]"

definition result_answer :: "json \<Rightarrow> json \<Rightarrow> json" where
  "result_answer rid v = JObject [(''id'', rid), (''ok'', JBool True), (''result'', v)]"

text \<open>A value in an f-string; the host prints lists and dictionaries.\<close>

fun py_str :: "(json \<Rightarrow> string) \<Rightarrow> json \<Rightarrow> string" where
  "py_str r (JString s) = s"
| "py_str r (JNumber t) = t"
| "py_str r JNull = ''None''"
| "py_str r (JBool b) = (if b then ''True'' else ''False'')"
| "py_str r v = r v"

definition handle_request ::
  "('w, 'o, 'f) script_host \<Rightarrow> 'f script_settings \<Rightarrow> (string \<times> json) list \<Rightarrow> ('w, 'o, json) script_step" where
  "handle_request h c req =
     (let rid = py_get ''id'' req;
          method = py_get ''method'' req;
          params = py_or (py_get ''params'' req) (JObject [])
      in if method = JString ''spacy.extract''
         then and_then (spacy_extract h params) (\<lambda>v. gives (Inr (result_answer rid v)))
         else if method = JString ''kompress.compress''
         then and_then (kompress_compress h c params) (\<lambda>v. gives (Inr (result_answer rid v)))
         else gives (Inr (error_answer rid ''unknown_method''
                (''unknown runtime_python_server method: '' @ py_str (sh_repr h) method))))"

subsection \<open>The main loop\<close>

text \<open>\<open>json.loads\<close> and \<open>json.dumps\<close>.\<close>

record script_codec =
  jc_loads :: "string \<Rightarrow> exn + json"
  jc_dumps :: "json \<Rightarrow> string"

text \<open>One line of the input: what it emits, if anything.\<close>

definition script_line ::
  "script_codec \<Rightarrow> ('w, 'o, 'f) script_host \<Rightarrow> 'f script_settings \<Rightarrow> string \<Rightarrow> ('w, 'o) script_state
     \<Rightarrow> json option \<times> ('w, 'o) script_state" where
  "script_line j h c line s =
     (let text = py_strip line
      in if text = [] then (None, s)
         else case jc_loads j text of
           Inl (ty, msg) \<Rightarrow> (Some (error_answer JNull ''bad_json'' msg), s)
         | Inr (JObject req) \<Rightarrow>
             (case handle_request h c req s of
                (Inr answer, s1) \<Rightarrow> (Some answer, s1)
              | (Inl (ty, msg), s1) \<Rightarrow> (Some (error_answer (py_get ''id'' req) ty msg), s1))
         | Inr _ \<Rightarrow> (Some (error_answer JNull ''bad_request'' ''request must be a JSON object''), s))"

fun script_loop ::
  "script_codec \<Rightarrow> ('w, 'o, 'f) script_host \<Rightarrow> 'f script_settings \<Rightarrow> string list \<Rightarrow> ('w, 'o) script_state
     \<Rightarrow> json list \<times> ('w, 'o) script_state" where
  "script_loop j h c [] s = ([], s)"
| "script_loop j h c (line # lines) s =
     (case script_line j h c line s of
        (out, s1) \<Rightarrow> (case script_loop j h c lines s1 of
          (outs, s2) \<Rightarrow> ((case out of None \<Rightarrow> outs | Some d \<Rightarrow> d # outs), s2)))"

definition ready_answer :: "string list \<Rightarrow> json" where
  "ready_answer backends =
     JObject [(''ready'', JBool True), (''protocol'', JNumber (dec SCRIPT_PROTOCOL)),
       (''backends'', JArray (map JString backends))]"

definition not_ready_answer :: "exn \<Rightarrow> json" where
  "not_ready_answer e = JObject [(''ready'', JBool False), (''error'', JString (fst e @ '': '' @ snd e))]"

text \<open>Only the cheap backend is loaded before the handshake.\<close>

definition script_startup ::
  "('w, 'o, 'f) script_host \<Rightarrow> 'f script_settings \<Rightarrow> ('w, 'o, unit) script_step" where
  "script_startup h c s =
     (if ''spacy'' \<in> set (se_backends c) then and_then (load_spacy h) (\<lambda>_. gives (Inr ())) s else (Inr (), s))"

text \<open>The whole run on the lines of its input: what it writes, line by line, and the exit code.\<close>

definition script_main ::
  "script_codec \<Rightarrow> ('w, 'o, 'f) script_host \<Rightarrow> 'f script_settings \<Rightarrow> string list \<Rightarrow> ('w, 'o) script_state
     \<Rightarrow> string list \<times> nat \<times> ('w, 'o) script_state" where
  "script_main j h c lines s =
     (case script_startup h c s of
        (Inl e, s1) \<Rightarrow> ([jc_dumps j (not_ready_answer e)], 1, s1)
      | (Inr _, s1) \<Rightarrow>
          (case script_loop j h c lines s1 of
             (outs, s2) \<Rightarrow> (map (jc_dumps j) (ready_answer (se_backends c) # outs), 0, s2)))"

end
