(* ===== verification/Py_Script_Properties.thy ===== *)
theory Py_Script_Properties
  imports Py_Script
begin

text \<open>
  What the worker script promises: a compression keeps the most salient sentences in the order of the
  text, and a request that the Rust side of \<open>Py_Server\<close> sends to a script gets the answer of its own
  backend, over the documents of \<open>Worker_Protocol\<close>.
\<close>

subsection \<open>Steps\<close>

lemma and_then_Inr:
  "and_then m f s = (Inr b, s') \<longleftrightarrow> (\<exists>a s1. m s = (Inr a, s1) \<and> f a s1 = (Inr b, s'))"
  by (auto simp: and_then_def split: prod.splits sum.splits)

lemma gives_eq [simp]: "gives r s = (x, s') \<longleftrightarrow> r = x \<and> s = s'"
  by (auto simp: gives_def)

subsection \<open>Compression\<close>

lemma py_pick_nth: "set is \<subseteq> {..<length xs} \<Longrightarrow> py_pick xs is = Inr (map (nth xs) is)"
  by (induction "is") (auto simp: py_index_def)

lemma nths_filter_upt: "nths xs A = map (nth xs) (filter (\<lambda>i. i \<in> A) [0..<length xs])"
  by (induction xs rule: rev_induct) (auto simp: nths_append nth_append)

lemma sorted_indices:
  assumes "distinct is" "set is \<subseteq> {..<length xs}"
  shows "map (nth xs) (sort is) = nths xs (set is)"
proof -
  have "sort is = filter (\<lambda>i. i \<in> set is) [0..<length xs]"
    using assms by (intro sorted_distinct_set_unique) (auto simp: sorted_wrt_filter)
  then show ?thesis by (simp add: nths_filter_upt)
qed

text \<open>The sentences kept are the first \<open>n\<close> of the order by salience, in the order of the text.\<close>

lemma keep_salient_kept:
  assumes "distinct order" "set order = {..<length sentences}" "n = max 3 (nat rounded)"
  shows "keep_salient text sentences order rounded =
    Inr (if length sentences \<le> n then text else join_with '' '' (nths sentences (set (take n order))))"
proof -
  have "set (take n order) \<subseteq> {..<length sentences}" using assms(2) set_take_subset by metis
  then show ?thesis
    using assms sorted_indices [of "take n order" sentences]
    by (simp add: keep_salient_def Let_def py_pick_nth)
qed

definition salience_sound :: "('w, 'o, 'f) script_host \<Rightarrow> bool" where
  "salience_sound h \<longleftrightarrow>
     (\<forall>tok m device sentences w order w'. sh_salience_order h tok m device sentences w = (Inr order, w') \<longrightarrow>
        distinct order \<and> set order = {..<length sentences})"

definition keeps_sentences :: "string \<Rightarrow> string \<Rightarrow> bool" where
  "keeps_sentences text out \<longleftrightarrow>
     out = text \<or>
     (\<exists>keep \<subset> {..<length (split_sentences text)}. 3 \<le> card keep
        \<and> out = join_with '' '' (nths (split_sentences text) keep))"

lemma keep_salient_keeps:
  assumes "keep_salient text (split_sentences text) order rounded = Inr out"
    and "distinct order" "set order = {..<length (split_sentences text)}"
  shows "keeps_sentences text out"
proof (cases "length (split_sentences text) \<le> max 3 (nat rounded)")
  case False
  define n where "n = max 3 (nat rounded)"
  have len: "length order = length (split_sentences text)"
    using assms(2,3) distinct_card [of order] by simp
  have "card (set (take n order)) = n" "n < length order"
    using assms(2) False len by (auto simp: n_def distinct_card)
  moreover have "set (take n order) \<subseteq> {..<length (split_sentences text)}"
    using assms(3) set_take_subset by metis
  ultimately have "set (take n order) \<subset> {..<length (split_sentences text)}" "3 \<le> card (set (take n order))"
    using len by (auto simp: n_def)
  moreover have "out = join_with '' '' (nths (split_sentences text) (set (take n order)))"
    using assms(1) False keep_salient_kept [OF assms(2,3) n_def] by (simp add: n_def)
  ultimately show ?thesis by (auto simp: keeps_sentences_def)
next
  case True
  then show ?thesis
    using assms keep_salient_kept [OF assms(2,3) refl, of "text" rounded] by (simp add: keeps_sentences_def)
qed

lemma rank_and_keep_keeps:
  assumes "salience_sound h" "rank_and_keep h ratio text (split_sentences text) s = (Inr v, s')"
  shows "\<exists>out. v = compressed text out \<and> keeps_sentences text out"
proof (cases "\<exists>tok m device. st_tok s = Some tok \<and> st_model s = Some (m, device)")
  case True
  then obtain tok m device order rounded out s1 where
      o: "ask (sh_salience_order h tok m device (split_sentences text)) s = (Inr order, s1)"
    and k: "keep_salient text (split_sentences text) order rounded = Inr out" and v: "v = compressed text out"
    using assms(2) by (auto simp: rank_and_keep_def and_then_Inr)
  obtain w w' where "sh_salience_order h tok m device (split_sentences text) w = (Inr order, w')"
    using o by (auto simp: ask_def split: prod.splits)
  then have "distinct order" "set order = {..<length (split_sentences text)}"
    using assms(1) unfolding salience_sound_def by blast+
  then show ?thesis using keep_salient_keeps [OF k] v by blast
qed (use assms(2) in \<open>auto simp: rank_and_keep_def split: option.splits\<close>)

lemma compress_text_keeps:
  assumes "salience_sound h" "compress_text h c ratio text s = (Inr v, s')"
  shows "\<exists>out. v = compressed text out \<and> keeps_sentences text out"
  using assms rank_and_keep_keeps [OF assms(1)]
  by (auto simp: compress_text_def Let_def and_then_Inr keeps_sentences_def split: if_splits)

text \<open>Cutting a text cuts its characters.\<close>

lemma while_append:
  assumes "\<forall>x \<in> set xs. P x" "ys = [] \<or> \<not> P (hd ys)"
  shows "takeWhile P (xs @ ys) = xs \<and> dropWhile P (xs @ ys) = ys"
  using assms by (cases ys) (simp_all add: takeWhile_append2 dropWhile_append2)

lemma characters_concat_take: "characters (concat (take n (characters s))) = take n (characters s)"
proof (induction s arbitrary: n rule: characters.induct)
  case (2 c cs)
  show ?case
  proof (cases n)
    case (Suc m)
    let ?rest = "concat (take m (characters (dropWhile continuation_byte cs)))"
    have "xs = [] \<or> \<not> continuation_byte (hd xs) \<Longrightarrow> concat (take m (characters xs)) = []
        \<or> \<not> continuation_byte (hd (concat (take m (characters xs))))" for xs
      by (cases m; cases xs) auto
    then have "?rest = [] \<or> \<not> continuation_byte (hd ?rest)" using hd_dropWhile by blast
    then have "takeWhile continuation_byte (takeWhile continuation_byte cs @ ?rest) = takeWhile continuation_byte cs"
        "dropWhile continuation_byte (takeWhile continuation_byte cs @ ?rest) = ?rest"
      using while_append [of "takeWhile continuation_byte cs" continuation_byte ?rest] set_takeWhileD by metis+
    then show ?thesis using 2 Suc by simp
  qed simp
qed simp

lemma cut_text_bound: "0 \<le> limit \<Longrightarrow> int (py_len (cut_text limit text)) \<le> limit"
  by (auto simp: cut_text_def py_take_def py_len_def characters_concat_take)

text \<open>
  A compression that answers works on the text of the request, cut to the number of characters
  allowed, and answers either that text or at least three of its sentences, fewer than all, in the
  order of the text with single spaces between them; the counts are those of the two texts.
\<close>

theorem compression_keeps_sentences:
  assumes "salience_sound h" "kompress_compress h c params s = (Inr v, s')"
  shows "\<exists>kvs text limit out.
      param_items params = Inr kvs \<and> py_or (py_get ''text'' kvs) (JString []) = JString text
    \<and> (case map_of kvs ''max_input_chars'' of Some m \<Rightarrow> sh_int h m | None \<Rightarrow> Inr (se_max_input c)) = Inr limit
    \<and> (0 \<le> limit \<longrightarrow> int (py_len (cut_text limit text)) \<le> limit)
    \<and> v = compressed (cut_text limit text) out \<and> keeps_sentences (cut_text limit text) out"
proof -
  obtain kvs ratio limit where k: "param_items params = Inr kvs"
      "(case map_of kvs ''max_input_chars'' of Some m \<Rightarrow> sh_int h m | None \<Rightarrow> Inr (se_max_input c)) = Inr limit"
    and run: "(case py_or (py_get ''text'' kvs) (JString []) of
       JString text \<Rightarrow> compress_text h c ratio (cut_text limit text) | w \<Rightarrow> gives (Inl (sh_not_text h w))) s = (Inr v, s')"
    using assms(2) by (auto simp: kompress_compress_def and_then_Inr)
  then obtain body where t: "py_or (py_get ''text'' kvs) (JString []) = JString body"
    by (cases "py_or (py_get ''text'' kvs) (JString [])") auto
  then have "compress_text h c ratio (cut_text limit body) s = (Inr v, s')" using run by simp
  from compress_text_keeps [OF assms(1) this] k t cut_text_bound show ?thesis by blast
qed

subsection \<open>A request and its answer\<close>

text \<open>
  The codec of the Rust side: a JSON text is parsed or printed, and read or written by the derived
  code of \<open>protocol.rs\<close>; \<open>shape\<close> is the text for a document of another shape.
\<close>

definition wire_codec :: "(string \<Rightarrow> string + json) \<Rightarrow> (json \<Rightarrow> string) \<Rightarrow> string \<Rightarrow> py_codec" where
  "wire_codec parse print shape =
     \<lparr>pc_ready = (\<lambda>l. case parse l of Inl e \<Rightarrow> Inl e | Inr d \<Rightarrow>
        (case ready_line_of_json d of None \<Rightarrow> Inl shape | Some r \<Rightarrow> Inr r)),
      pc_encode = (\<lambda>q. Inr (print (server_request_to_json q))),
      pc_decode = (\<lambda>l. case parse l of Inl _ \<Rightarrow> None | Inr d \<Rightarrow> server_response_of_json d)\<rparr>"

lemma ready_answer_read:
  "ready_line_of_json (ready_answer backends) =
     Some \<lparr>ry_ready = True, ry_protocol = Some PROTOCOL_VERSION, ry_backends = backends, ry_error = None\<rparr>"
  by (simp add: ready_answer_def protocol_defs as_option_def those_strings SCRIPT_PROTOCOL_def PROTOCOL_VERSION_def
      parse_dec_dec)

lemma not_ready_read:
  "ready_line_of_json (not_ready_answer e) =
     Some \<lparr>ry_ready = False, ry_protocol = None, ry_backends = [], ry_error = Some (fst e @ '': '' @ snd e)\<rparr>"
  by (simp add: not_ready_answer_def protocol_defs as_option_def)

lemma result_answer_read:
  "server_response_of_json (result_answer (JString i) v) =
     Some \<lparr>sr_id = Some i, sr_ok = True, sr_result = (if v = JNull then None else Some v), sr_error = None\<rparr>"
  by (simp add: result_answer_def protocol_defs as_option_def)

lemma error_answer_read:
  "server_response_of_json (error_answer (JString i) code message) =
     Some \<lparr>sr_id = Some i, sr_ok = False, sr_result = None, sr_error = Some \<lparr>sv_code = code, sv_message = message\<rparr>\<rparr>"
  by (simp add: error_answer_def protocol_defs as_option_def)

text \<open>What a method is for, told by the names alone, and what its caller is to see of it.\<close>

definition backend_of ::
  "('w, 'o, 'f) script_host \<Rightarrow> 'f script_settings \<Rightarrow> string \<Rightarrow> json \<Rightarrow> ('w, 'o, json) script_step" where
  "backend_of h c method params =
     (if method = ''spacy.extract'' then spacy_extract h params
      else if method = ''kompress.compress'' then kompress_compress h c params
      else gives (Inl (''unknown_method'', ''unknown runtime_python_server method: '' @ method)))"

definition seen_by_caller :: "(json \<Rightarrow> string + 'a) \<Rightarrow> string \<Rightarrow> exn + json \<Rightarrow> py_error + 'a" where
  "seen_by_caller from method r =
     (case r of
        Inl (ty, msg) \<Rightarrow> Inl (PyRemote method (ty @ '': '' @ msg))
      | Inr v \<Rightarrow> (case from v of Inl e \<Rightarrow> Inl (PyDecode method e) | Inr x \<Rightarrow> Inr x))"

lemma request_items:
  "server_request_to_json \<lparr>sq_id = i, sq_method = m, sq_params = p\<rparr>
     = JObject [(''id'', JString i), (''method'', JString m), (''params'', p)]"
  by (simp add: server_request_to_json_def)

text \<open>What the script emits for a request, and how the Rust side reads it.\<close>

lemma handled_request:
  assumes "handle_request h c [(''id'', JString i), (''method'', JString m), (''params'', p)] s = (x, s1)"
    and "answer = (case x of Inr a \<Rightarrow> a | Inl (ty, msg) \<Rightarrow> error_answer (JString i) ty msg)"
  shows "\<exists>r. server_response_of_json answer = Some r \<and> sr_id r = Some i
    \<and> response_result from m r = seen_by_caller from m (fst (backend_of h c m (py_or p (JObject [])) s))"
proof -
  obtain y s2 where b: "backend_of h c m (py_or p (JObject [])) s = (y, s2)" by (metis surj_pair)
  then have a: "answer = (case y of Inr v \<Rightarrow> result_answer (JString i) v | Inl (ty, msg) \<Rightarrow> error_answer (JString i) ty msg)"
    using assms
    by (auto simp: handle_request_def backend_of_def py_get_def Let_def and_then_def gives_def
        split: if_splits sum.splits prod.splits)
  show ?thesis
  proof (cases y)
    case (Inl e)
    obtain ty msg where "e = (ty, msg)" by (cases e)
    then show ?thesis using a b Inl by (simp add: error_answer_read response_result_def seen_by_caller_def)
  next
    case (Inr v)
    then show ?thesis using a b by (simp add: result_answer_read response_result_def seen_by_caller_def)
  qed
qed

text \<open>
  C32.  A fresh worker that runs the script serves a request.  What the caller gets is, when the
  backend loaded at the start fails, that failure; otherwise the value its method's backend computes,
  as decoded for the caller, or the backend's exception by type and text; an unknown method is one.
  Required of the two JSON implementations is that each reads what the other wrote, on the lines of
  this exchange.
\<close>

theorem script_serves_request:
  assumes "sv_inner s = None" "spawn_child (ya_spawn env) (sv_launch s) = Inr cmd"
    and "yn_stdin (ya_spawn env)" "yn_stdout (ya_spawn env)" "ya_write env = None" "ya_flush env = None"
    and req: "request = print (server_request_to_json \<lparr>sq_id = ''0'', sq_method = method, sq_params = params\<rparr>)"
    and main: "script_main j h c [request] (script_init w) = (written, code, w')"
    and stream: "yn_stream (ya_spawn env) = map2 LineAt [t0, t1] written"
    and "t0 \<le> yn_now (ya_spawn env) + ln_handshake_timeout (sv_launch s)"
    and "t1 \<le> max (yn_now (ya_spawn env)) t0 + ln_request_timeout (sv_launch s)"
    and line: "py_strip request = request" "request \<noteq> []"
    and loads: "jc_loads j request = Inr (server_request_to_json \<lparr>sq_id = ''0'', sq_method = method, sq_params = params\<rparr>)"
    and parse: "\<And>d. jc_dumps j d \<in> set written \<Longrightarrow> parse (jc_dumps j d) = Inr d"
  shows "fst (request_once (wire_codec parse print shape) from env now method params s) =
     (case script_startup h c (script_init w) of
        (Inl e, _) \<Rightarrow> Inl (PyStartFailed (fst e @ '': '' @ snd e))
      | (Inr _, s1) \<Rightarrow> seen_by_caller from method (fst (backend_of h c method (py_or params (JObject [])) s1)))"
proof -
  let ?co = "wire_codec parse print shape"
  obtain u s1 where u: "script_startup h c (script_init w) = (u, s1)" by (metis surj_pair)
  show ?thesis
  proof (cases u)
    case (Inl e)
    then have wr: "written = [jc_dumps j (not_ready_answer e)]" using main u by (simp add: script_main_def)
    then have "pc_ready ?co (jc_dumps j (not_ready_answer e)) =
        Inr \<lparr>ry_ready = False, ry_protocol = None, ry_backends = [], ry_error = Some (fst e @ '': '' @ snd e)\<rparr>"
      using parse [of "not_ready_answer e"] by (simp add: wire_codec_def not_ready_read)
    then show ?thesis using assms(1-6,10) stream wr u Inl by (simp add: request_once_def spawn_inner_def)
  next
    case (Inr v)
    obtain x s2 where hd: "handle_request h c [(''id'', JString ''0''), (''method'', JString method), (''params'', params)] s1
        = (x, s2)" by (metis surj_pair)
    define answer where "answer = (case x of Inr a \<Rightarrow> a | Inl (ty, msg) \<Rightarrow> error_answer (JString ''0'') ty msg)"
    have "script_line j h c request s1 = (Some answer, s2)"
      using line loads hd
      by (auto simp: script_line_def request_items answer_def py_get_def Let_def split: sum.splits prod.splits)
    then have wr: "written = [jc_dumps j (ready_answer (se_backends c)), jc_dumps j answer]"
      using main u Inr by (simp add: script_main_def)
    obtain r where r: "server_response_of_json answer = Some r" "sr_id r = Some ''0''"
        "response_result from method r
          = seen_by_caller from method (fst (backend_of h c method (py_or params (JObject [])) s1))"
      using handled_request [OF hd answer_def] by blast
    have codec: "pc_ready ?co (jc_dumps j (ready_answer (se_backends c))) =
        Inr \<lparr>ry_ready = True, ry_protocol = Some PROTOCOL_VERSION, ry_backends = se_backends c, ry_error = None\<rparr>"
        "pc_decode ?co (jc_dumps j answer) = Some r"
      using parse wr r by (simp_all add: wire_codec_def ready_answer_read)
    have "spawn_inner ?co (ya_spawn env) (sv_launch s) =
        (Inr \<lparr>in_stdout = [LineAt t1 (jc_dumps j answer)], in_next_id = 0, in_ready_backends = se_backends c\<rparr>,
         max (yn_now (ya_spawn env)) t0)"
      using assms(2-4,10) stream wr codec by (simp add: spawn_inner_def)
    then show ?thesis
      using assms(1,5,6,11) codec r u Inr
      by (simp add: request_once_def Let_def u64_to_string_def dec.simps [of 0] wire_codec_def)
  qed
qed

subsection \<open>A run\<close>

text \<open>A host whose packages answer at once, the later sentences being the more salient.\<close>

definition demo_script_host :: "(unit, unit, nat) script_host" where
  "demo_script_host =
     \<lparr>sh_import = (\<lambda>_ w. (Inr (), w)), sh_spacy_load = (\<lambda>_ _ w. (Inr (), w)),
      sh_nlp = (\<lambda>_ _ w. (Inr \<lparr>dc_ents = [\<lparr>en_text = ''Ada'', en_label = ''PERSON'', en_start = 0, en_end = 3\<rparr>],
        dc_tokens = [\<lparr>tk_text = ''Ada'', tk_lemma = ''ada'', tk_pos = ''PROPN'', tk_stop = False, tk_alpha = True\<rparr>]\<rparr>, w)),
      sh_cuda = (\<lambda>w. (Inr False, w)), sh_mps = (\<lambda>w. (Inr False, w)),
      sh_tokenizer = (\<lambda>_ w. (Inr (), w)), sh_model = (\<lambda>_ _ w. (Inr (), w)),
      sh_salience_order = (\<lambda>_ _ _ ss w. (Inr (rev [0..<length ss]), w)),
      sh_float = (\<lambda>_. Inr 1), sh_int = (\<lambda>_. Inr 200), sh_round_product = (\<lambda>_ r. Inr (int r)),
      sh_lower = (\<lambda>t. t), sh_not_text = (\<lambda>_. (''TypeError'', ''not a text'')), sh_repr = (\<lambda>_. ''...'')\<rparr>"

definition demo_settings :: "nat script_settings" where
  "demo_settings = \<lparr>se_backends = [''spacy''], se_model = ''m'', se_device = ''cpu'', se_ratio = 1, se_max_input = 200\<rparr>"

lemma char_of_spaces:
  "char_of (9 :: nat) = CHR 0x09" "char_of (10 :: nat) = CHR 0x0A" "char_of (11 :: nat) = CHR 0x0B"
  "char_of (12 :: nat) = CHR 0x0C" "char_of (13 :: nat) = CHR 0x0D" "char_of (32 :: nat) = CHR 0x20"
  by (simp_all add: char_of_def bit_0)

lemma white_space_bytes:
  "set white_space = set ([[CHR 0x09], [CHR 0x0A], [CHR 0x0B], [CHR 0x0C], [CHR 0x0D], [CHR 0x20]]
     @ filter (\<lambda>w. length w \<noteq> 1) white_space)"
  by (simp add: white_space_def char_of_spaces)

lemma py_space_byte:
  "py_space [c] \<longleftrightarrow> c \<in> {CHR 0x09, CHR 0x0A, CHR 0x0B, CHR 0x0C, CHR 0x0D, CHR 0x20, CHR 0x1C, CHR 0x1D, CHR 0x1E, CHR 0x1F}"
  unfolding py_space_def white_space_bytes by auto

lemma demo_characters: "characters ''a. b! c? d.'' = [''a'', ''.'', '' '', ''b'', ''!'', '' '', ''c'', ''?'', '' '', ''d'', ''.'']"
  by (simp add: continuation_byte_def byte_def)

lemma demo_sentences: "split_sentences ''a. b! c? d.'' = [''a.'', ''b!'', ''c?'', ''d.'']"
  by (simp add: split_sentences_def demo_characters strip_characters_def py_space_byte del: characters.simps)

lemma demo_compress:
  "kompress_compress demo_script_host demo_settings (JObject [(''text'', JString ''a. b! c? d.'')]) (script_init ())
     = (Inr (compressed ''a. b! c? d.'' ''b! c? d.''),
        \<lparr>st_world = (), st_nlp = None, st_tok = Some (), st_model = Some ((), ''cpu'')\<rparr>)"
proof -
  have "py_len ''a. b! c? d.'' = 11" by (simp add: py_len_def demo_characters del: characters.simps)
  then show ?thesis
    by (simp add: kompress_compress_def compress_text_def rank_and_keep_def load_kompress_def pick_device_def
        and_then_def gives_def ask_def py_get_def py_or_def cut_text_def keep_salient_def py_index_def demo_sentences
        demo_script_host_def demo_settings_def script_init_def Let_def numeral_2_eq_2 numeral_3_eq_3)
qed

lemma demo_salience: "salience_sound demo_script_host"
  by (auto simp: salience_sound_def demo_script_host_def)

theorem compression_keeps_sentences_witness:
  "\<exists>kvs text limit out.
      param_items (JObject [(''text'', JString ''a. b! c? d.'')]) = Inr kvs
    \<and> py_or (py_get ''text'' kvs) (JString []) = JString text
    \<and> (case map_of kvs ''max_input_chars'' of Some m \<Rightarrow> sh_int demo_script_host m | None \<Rightarrow> Inr (se_max_input demo_settings))
        = Inr limit
    \<and> (0 \<le> limit \<longrightarrow> int (py_len (cut_text limit text)) \<le> limit)
    \<and> compressed ''a. b! c? d.'' ''b! c? d.'' = compressed (cut_text limit text) out
    \<and> keeps_sentences (cut_text limit text) out"
  by (rule compression_keeps_sentences [OF demo_salience demo_compress])

definition demo_script_request :: json where
  "demo_script_request = server_request_to_json
     \<lparr>sq_id = ''0'', sq_method = ''spacy.extract'', sq_params = JObject [(''text'', JString ''Ada'')]\<rparr>"

definition demo_extract :: json where
  "demo_extract =
     JObject [(''entities'', JArray [entity_to_json \<lparr>en_text = ''Ada'', en_label = ''PERSON'', en_start = 0, en_end = 3\<rparr>]),
       (''nouns'', JArray [JString ''ada''])]"

definition demo_script_codec :: script_codec where
  "demo_script_codec =
     \<lparr>jc_loads = (\<lambda>l. if l = ''q'' then Inr demo_script_request else Inl (''JSONDecodeError'', ''Expecting value'')),
      jc_dumps = (\<lambda>d. if d = ready_answer [''spacy''] then ''r''
        else if d = result_answer (JString ''0'') demo_extract then ''a'' else ''x'')\<rparr>"

definition demo_parse :: "string \<Rightarrow> string + json" where
  "demo_parse l =
     (if l = ''r'' then Inr (ready_answer [''spacy''])
      else if l = ''a'' then Inr (result_answer (JString ''0'') demo_extract) else Inl ''expected value'')"

definition demo_script_attempt :: py_attempt where
  "demo_script_attempt =
     \<lparr>ya_spawn = \<lparr>yn_inherited = Map.empty, yn_start = (\<lambda>_. None), yn_stdin = True, yn_stdout = True,
        yn_stream = [LineAt 2 ''r'', LineAt 5 ''a''], yn_now = 0\<rparr>, ya_write = None, ya_flush = None\<rparr>"

lemma demo_extracts:
  "backend_of demo_script_host demo_settings ''spacy.extract'' (JObject [(''text'', JString ''Ada'')])
     \<lparr>st_world = (), st_nlp = Some (), st_tok = None, st_model = None\<rparr>
   = (Inr demo_extract, \<lparr>st_world = (), st_nlp = Some (), st_tok = None, st_model = None\<rparr>)"
proof -
  have "py_strip ''ada'' = ''ada''" "py_len ''ada'' = 3"
    by (simp_all add: py_strip_def py_len_def strip_characters_def py_space_byte continuation_byte_def byte_def)
  then show ?thesis
    by (simp add: backend_of_def spacy_extract_def load_spacy_def and_then_def gives_def ask_def demo_script_host_def
        demo_extract_def token_key_def is_content_noun_def Let_def)
qed

lemma demo_main:
  "script_main demo_script_codec demo_script_host demo_settings [''q''] (script_init ())
   = ([''r'', ''a''], 0, \<lparr>st_world = (), st_nlp = Some (), st_tok = None, st_model = None\<rparr>)"
proof -
  have "py_strip ''q'' = ''q''" "ready_answer [''spacy''] \<noteq> result_answer (JString ''0'') demo_extract"
    by (simp_all add: py_strip_def strip_characters_def py_space_byte ready_answer_def result_answer_def)
  moreover have "script_startup demo_script_host demo_settings (script_init ())
      = (Inr (), \<lparr>st_world = (), st_nlp = Some (), st_tok = None, st_model = None\<rparr>)"
    by (simp add: script_startup_def load_spacy_def and_then_def or_else_def gives_def ask_def demo_script_host_def
        demo_settings_def script_init_def)
  moreover have "script_line demo_script_codec demo_script_host demo_settings ''q''
      \<lparr>st_world = (), st_nlp = Some (), st_tok = None, st_model = None\<rparr>
      = (Some (result_answer (JString ''0'') demo_extract), \<lparr>st_world = (), st_nlp = Some (), st_tok = None, st_model = None\<rparr>)"
    using calculation(1) demo_extracts
    by (simp add: script_line_def demo_script_codec_def demo_script_request_def request_items handle_request_def
        py_get_def py_or_def backend_of_def and_then_def gives_def)
  ultimately show ?thesis by (simp add: script_main_def demo_script_codec_def demo_settings_def)
qed

theorem script_serves_request_witness:
  "fst (request_once (wire_codec demo_parse (\<lambda>_. ''q'') ''shape'') Inr demo_script_attempt 0 ''spacy.extract''
     (JObject [(''text'', JString ''Ada'')]) (server_new (server_launch_new ''python3'' ''s.py'' [''spacy''] []) 0))
   = Inr demo_extract"
proof -
  let ?s = "server_new (server_launch_new ''python3'' ''s.py'' [''spacy''] []) 0"
  have "spawn_child (ya_spawn demo_script_attempt) (sv_launch ?s)
      = Inr (py_to_command Map.empty (py_spec (sv_launch ?s)))"
    by (simp add: spawn_child_def py_confine_def demo_script_attempt_def server_new_def server_launch_new_def)
  moreover have "py_strip ''q'' = ''q''"
    by (simp add: py_strip_def strip_characters_def py_space_byte)
  moreover have "jc_loads demo_script_codec ''q'' = Inr demo_script_request"
    by (simp add: demo_script_codec_def)
  moreover have "demo_parse (jc_dumps demo_script_codec d) = Inr d" if "jc_dumps demo_script_codec d \<in> set [''r'', ''a'']" for d
    using that by (auto simp: demo_parse_def demo_script_codec_def split: if_splits)
  ultimately have "fst (request_once (wire_codec demo_parse (\<lambda>_. ''q'') ''shape'') Inr demo_script_attempt 0 ''spacy.extract''
     (JObject [(''text'', JString ''Ada'')]) ?s) =
     (case script_startup demo_script_host demo_settings (script_init ()) of
        (Inl e, _) \<Rightarrow> Inl (PyStartFailed (fst e @ '': '' @ snd e))
      | (Inr _, s1) \<Rightarrow> seen_by_caller Inr ''spacy.extract'' (fst (backend_of demo_script_host demo_settings ''spacy.extract''
          (py_or (JObject [(''text'', JString ''Ada'')]) (JObject [])) s1)))"
    using demo_main
    by (intro script_serves_request [where ?t0.0 = 2 and ?t1.0 = 5 and j = demo_script_codec and request = "''q''"
        and written = "[''r'', ''a'']"])
      (simp_all add: server_new_def server_launch_new_def demo_script_attempt_def
        demo_script_request_def PY_HANDSHAKE_TIMEOUT_def PY_REQUEST_TIMEOUT_def dur_from_secs_def)
  moreover have "script_startup demo_script_host demo_settings (script_init ())
      = (Inr (), \<lparr>st_world = (), st_nlp = Some (), st_tok = None, st_model = None\<rparr>)"
    by (simp add: script_startup_def load_spacy_def and_then_def or_else_def gives_def ask_def demo_script_host_def
        demo_settings_def script_init_def)
  ultimately show ?thesis using demo_extracts by (simp add: py_or_def seen_by_caller_def)
qed

end
