(* ===== verification/Stub_Provider.thy ===== *)
theory Stub_Provider
  imports Resolver
begin

text \<open>
  The providers of \<open>rt/provider/stub.rs\<close>, with which the crate tests its resolver: one that answers from
  fields a test sets and counts what it was asked, and one that is down.
\<close>

subsection \<open>The stub\<close>

record stub =
  sb_language :: language
  sb_descriptor :: provider_descriptor
  sb_system :: "runtime_layout option"
  sb_distribution :: "distribution option"
  sb_layout :: "runtime_layout option"
  sb_layout_marker :: "string option"
  sb_harness :: "worker_harness option"
  sb_selections :: nat
  sb_detections :: nat
  sb_layout_fails :: bool

definition stub_new :: "language \<Rightarrow> stub" where
  "stub_new l =
     \<lparr>sb_language = l, sb_descriptor = provider_descriptor_new l ''Stub'' ''1.0.0'', sb_system = None,
      sb_distribution = None, sb_layout = None, sb_layout_marker = None, sb_harness = None, sb_selections = 0,
      sb_detections = 0, sb_layout_fails = False\<rparr>"

definition stub_with_system :: "runtime_layout \<Rightarrow> stub \<Rightarrow> stub" where
  "stub_with_system layout s = s\<lparr>sb_system := Some layout\<rparr>"

definition stub_with_distribution :: "distribution \<Rightarrow> stub \<Rightarrow> stub" where
  "stub_with_distribution d s = s\<lparr>sb_distribution := Some d\<rparr>"

definition stub_with_layout :: "runtime_layout \<Rightarrow> stub \<Rightarrow> stub" where
  "stub_with_layout layout s = s\<lparr>sb_layout := Some layout\<rparr>"

definition stub_with_layout_when_present :: "string \<Rightarrow> runtime_layout \<Rightarrow> stub \<Rightarrow> stub" where
  "stub_with_layout_when_present marker layout s = stub_with_layout layout (s\<lparr>sb_layout_marker := Some marker\<rparr>)"

definition stub_with_harness :: "worker_harness \<Rightarrow> stub \<Rightarrow> stub" where
  "stub_with_harness h s = s\<lparr>sb_harness := Some h\<rparr>"

definition stub_with_failing_layout :: "stub \<Rightarrow> stub" where
  "stub_with_failing_layout s = s\<lparr>sb_layout_fails := True\<rparr>"

definition stub_with_contract :: "u32 \<times> u32 \<Rightarrow> stub \<Rightarrow> stub" where
  "stub_with_contract v s = s\<lparr>sb_descriptor := (sb_descriptor s)\<lparr>pd_contract_version := v\<rparr>\<rparr>"

subsection \<open>Its answers\<close>

definition stub_describe :: "stub \<Rightarrow> provider_descriptor result" where
  "stub_describe s = Inr (sb_descriptor s)"

definition stub_detect_system :: "stub \<Rightarrow> runtime_layout option result \<times> stub" where
  "stub_detect_system s = (Inr (sb_system s), s\<lparr>sb_detections := sb_detections s + 1\<rparr>)"

definition stub_select_distribution :: "stub \<Rightarrow> distribution result \<times> stub" where
  "stub_select_distribution s =
     (case sb_distribution s of
        Some d \<Rightarrow> Inr d
      | None \<Rightarrow> Inl (Download (sb_language s) ''the stub was given nothing to install''),
      s\<lparr>sb_selections := sb_selections s + 1\<rparr>)"

text \<open>The marker is looked for under the directory; whether a layout is to fail is not looked at.\<close>

definition stub_layout :: "loc \<Rightarrow> stub \<Rightarrow> fs \<Rightarrow> string \<Rightarrow> runtime_layout option result" where
  "stub_layout cwd s fs install_dir =
     (case sb_layout_marker s of
        Some marker \<Rightarrow>
          if \<not> path_exists fs cwd (view (path_join install_dir marker)) then Inr None else Inr (sb_layout s)
      | None \<Rightarrow> Inr (sb_layout s))"

definition stub_harness :: "stub \<Rightarrow> worker_harness result" where
  "stub_harness s =
     (case sb_harness s of
        Some h \<Rightarrow> Inr h
      | None \<Rightarrow> Inl (ProviderUnavailable (sb_language s) ''the stub was given no harness''))"

text \<open>The stub as a provider: its answers without the counts.\<close>

definition stub_provider :: "loc \<Rightarrow> stub \<Rightarrow> provider" where
  "stub_provider cwd s =
     \<lparr>pr_describe = stub_describe s, pr_detect_system = (\<lambda>_ _. fst (stub_detect_system s)),
      pr_select_distribution = (\<lambda>_. fst (stub_select_distribution s)),
      pr_layout = (\<lambda>fs dir _. stub_layout cwd s fs dir), pr_harness = stub_harness s,
      pr_prepare_environment = (\<lambda>_. Inr None)\<rparr>"

subsection \<open>A provider that is down\<close>

definition down :: "language \<Rightarrow> error" where
  "down l = ProviderUnavailable l ''the provider module is not loaded''"

definition down_provider :: "language \<Rightarrow> provider" where
  "down_provider l =
     \<lparr>pr_describe = Inl (down l), pr_detect_system = (\<lambda>_ _. Inl (down l)), pr_select_distribution = (\<lambda>_. Inl (down l)),
      pr_layout = (\<lambda>_ _ _. Inl (down l)), pr_harness = Inl (down l), pr_prepare_environment = (\<lambda>_. Inr None)\<rparr>"

subsection \<open>What the resolver makes of them\<close>

lemma stub_layout_ignores_failure: "stub_layout cwd (stub_with_failing_layout s) = stub_layout cwd s"
  by (intro ext) (simp add: stub_layout_def stub_with_failing_layout_def split: option.split)

lemma find_single: "find_route [r] l = (if rt_language r = l then Some r else None)"
  by (simp add: find_route_def)

lemma down_resolution:
  assumes "rv_registry rv = [\<lparr>rt_language = l, rt_bus_name = b, rt_provider = down_provider l\<rparr>]"
    and "rs_enabled s" "rv_resolved rv (memo_key l s) = None" "\<not> language_is_empty l" "rq_language q = l" "rq_settings q = s"
  shows "resolve env q rv fs = (Inl (down l), rv, fs)"
  using assms by (simp add: resolve_def Let_def registry_provider_def find_single down_provider_def)

lemma stub_host_first:
  assumes "rv_registry rv = [\<lparr>rt_language = l, rt_bus_name = b, rt_provider = stub_provider cwd (stub_with_system layout st)\<rparr>]"
    and "rs_enabled s" "rv_resolved rv (memo_key l s) = None" "\<not> language_is_empty l" "rq_language q = l" "rq_settings q = s"
    and "provider_is_compatible (pd_contract_version (sb_descriptor st))" "rs_prefer_system s"
  shows "resolve env q rv fs
    = (Inr (Some (from_layout l System layout)), remember (memo_key l s) (from_layout l System layout) rv, fs)"
  using assms
  by (simp add: resolve_def Let_def registry_provider_def find_single stub_provider_def stub_with_system_def
      stub_describe_def stub_detect_system_def verify_contract_def without_network_def)

end
