(* ===== verification/Pool_Protocol.thy ===== *)
theory Pool_Protocol
  imports Pool_Worker Worker_Protocol
begin

text \<open>
  The documents of \<open>rt/pool/protocol.rs\<close>: what serde derives for the handshake, the job and the reply
  of a warm worker, on the readers of \<open>Worker_Protocol\<close>.
\<close>

subsection \<open>Numbers\<close>

fun as_u64 :: "json \<Rightarrow> u64 option" where
  "as_u64 (JNumber t) =
     (case parse_dec 0 t of
        Some n \<Rightarrow> if t \<noteq> [] \<and> n < 2 ^ 64 then Some (of_nat n) else None
      | None \<Rightarrow> None)"
| "as_u64 _ = None"

text \<open>A negative zero is read as a float, which no integer field takes.\<close>

fun as_i32 :: "json \<Rightarrow> 32 word option" where
  "as_i32 (JNumber t) =
     (if t \<noteq> [] \<and> hd t = CHR ''-''
      then (case parse_dec 0 (tl t) of
              Some n \<Rightarrow> if tl t \<noteq> [] \<and> 0 < n \<and> n \<le> 2 ^ 31 then Some (- of_nat n) else None
            | None \<Rightarrow> None)
      else (case parse_dec 0 t of
              Some n \<Rightarrow> if t \<noteq> [] \<and> n < 2 ^ 31 then Some (of_nat n) else None
            | None \<Rightarrow> None))"
| "as_i32 _ = None"

definition i32_to_string :: "32 word \<Rightarrow> string" where
  "i32_to_string w =
     (if sint w < 0 then CHR ''-'' # dec (nat (- sint w)) else dec (nat (sint w)))"

definition u64_to_json :: "u64 \<Rightarrow> json" where
  "u64_to_json w = JNumber (dec (unat w))"

subsection \<open>The frames\<close>

definition handshake_to_json :: "handshake \<Rightarrow> json" where
  "handshake_to_json h =
     JObject [(''ready'', JBool (hs_ready h)),
       (''protocol'', of_option (\<lambda>n. JNumber (dec (unat n))) (hs_protocol h)),
       (''language'', of_option JString (hs_language h)), (''error'', of_option JString (hs_error h)),
       (''token'', of_option JString (hs_token h))]"

definition handshake_of_json :: "json \<Rightarrow> handshake option" where
  "handshake_of_json j =
     (case fields_of [''ready'', ''protocol'', ''language'', ''error'', ''token''] j of None \<Rightarrow> None | Some kvs \<Rightarrow>
      case (field_or False as_bool ''ready'' kvs, field_or None (as_option as_u32) ''protocol'' kvs,
            field_or None (as_option as_string) ''language'' kvs, field_or None (as_option as_string) ''error'' kvs,
            field_or None (as_option as_string) ''token'' kvs) of
        (Some r, Some p, Some l, Some e, Some t) \<Rightarrow>
          Some \<lparr>hs_ready = r, hs_protocol = p, hs_language = l, hs_error = e, hs_token = t\<rparr>
      | _ \<Rightarrow> None)"

text \<open>A field whose value is skipped when there is none.\<close>

definition unless_none :: "string \<Rightarrow> ('a \<Rightarrow> json) \<Rightarrow> 'a option \<Rightarrow> (string \<times> json) list" where
  "unless_none k f x = (case x of None \<Rightarrow> [] | Some y \<Rightarrow> [(k, f y)])"

definition job_request_to_json :: "job_request \<Rightarrow> json" where
  "job_request_to_json q =
     JObject ([(''id'', JString (jr_id q)), (''code'', JString (jr_code q))]
       @ unless_none ''cwd'' JString (jr_cwd q) @ unless_none ''timeout_ms'' u64_to_json (jr_timeout_ms q))"

definition job_request_of_json :: "json \<Rightarrow> job_request option" where
  "job_request_of_json j =
     (case fields_of [''id'', ''code'', ''cwd'', ''timeout_ms''] j of None \<Rightarrow> None | Some kvs \<Rightarrow>
      case (field_required as_string ''id'' kvs, field_required as_string ''code'' kvs,
            field_or None (as_option as_string) ''cwd'' kvs, field_or None (as_option as_u64) ''timeout_ms'' kvs) of
        (Some i, Some c, Some d, Some t) \<Rightarrow>
          Some \<lparr>jr_id = i, jr_code = c, jr_cwd = d, jr_timeout_ms = t\<rparr>
      | _ \<Rightarrow> None)"

definition job_response_to_json :: "job_response \<Rightarrow> json" where
  "job_response_to_json r =
     JObject [(''id'', of_option JString (jo_id r)), (''ok'', JBool (jo_ok r)), (''stdout'', JString (jo_stdout r)),
       (''stderr'', JString (jo_stderr r)),
       (''exit_code'', of_option (\<lambda>w. JNumber (i32_to_string w)) (jo_exit_code r)),
       (''timed_out'', JBool (jo_timed_out r)), (''elapsed_ms'', u64_to_json (jo_elapsed_ms r)),
       (''error'', of_option JString (jo_error r))]"

text \<open>The id has no default: it may be missing from an object, but not from an array.\<close>

definition job_response_of_json :: "json \<Rightarrow> job_response option" where
  "job_response_of_json j =
     (if j = JArray [] then None else
      case fields_of [''id'', ''ok'', ''stdout'', ''stderr'', ''exit_code'', ''timed_out'', ''elapsed_ms'', ''error''] j of
        None \<Rightarrow> None
      | Some kvs \<Rightarrow>
      case (field_or None (as_option as_string) ''id'' kvs, field_or False as_bool ''ok'' kvs,
            field_or [] as_string ''stdout'' kvs, field_or [] as_string ''stderr'' kvs,
            field_or None (as_option as_i32) ''exit_code'' kvs, field_or False as_bool ''timed_out'' kvs,
            field_or 0 as_u64 ''elapsed_ms'' kvs, field_or None (as_option as_string) ''error'' kvs) of
        (Some i, Some ok, Some out, Some err, Some x, Some t, Some el, Some e) \<Rightarrow>
          Some \<lparr>jo_id = i, jo_ok = ok, jo_stdout = out, jo_stderr = err, jo_exit_code = x,
                jo_timed_out = t, jo_elapsed_ms = el, jo_error = e\<rparr>
      | _ \<Rightarrow> None)"

subsection \<open>Round trips\<close>

lemma as_u64_dec: "as_u64 (JNumber (dec (unat (n :: u64)))) = Some n"
  using unsigned_less [of n] by (simp add: parse_dec_dec)

lemma dec_no_minus: "hd (dec n) \<noteq> CHR ''-''"
proof -
  have "is_ascii_digit (hd (dec n))" using dec_digits [of "hd (dec n)" n] by simp
  then show ?thesis by (auto simp: is_ascii_digit_def byte_def)
qed

lemma as_i32_string: "as_i32 (JNumber (i32_to_string w)) = Some w"
proof (cases "sint w < 0")
  case True
  have low: "- (2 ^ 31) \<le> sint w" using sint_ge [of w] by simp
  have "of_int (sint w) = w" by simp
  then have "- of_nat (nat (- sint w)) = w" using True by (simp add: of_nat_nat)
  then show ?thesis using True low by (simp add: i32_to_string_def parse_dec_dec)
next
  case False
  have "sint w < 2 ^ 31" using sint_lt [of w] by simp
  moreover have "of_nat (nat (sint w)) = w" using False by (simp add: of_nat_nat)
  ultimately show ?thesis using False dec_no_minus by (simp add: i32_to_string_def parse_dec_dec)
qed

lemmas pool_protocol_defs = protocol_defs unless_none_def handshake_to_json_def handshake_of_json_def
  job_request_to_json_def job_request_of_json_def job_response_to_json_def job_response_of_json_def u64_to_json_def

lemma optional_texts: "as_option as_string (of_option JString x) = Some x"
  by (auto intro!: as_option_of_option)

text \<open>The frames a warm worker and its pool exchange survive writing and reading.\<close>

theorem pool_protocol_round_trip:
  "handshake_of_json (handshake_to_json h) = Some h"
  "job_request_of_json (job_request_to_json q) = Some q"
  "job_response_of_json (job_response_to_json r) = Some r"
proof -
  have "as_option as_u32 (of_option (\<lambda>n. JNumber (dec (unat n))) (hs_protocol h)) = Some (hs_protocol h)"
    using as_u32_dec by (auto intro!: as_option_of_option)
  then show "handshake_of_json (handshake_to_json h) = Some h"
    by (simp add: pool_protocol_defs optional_texts)
  show "job_request_of_json (job_request_to_json q) = Some q"
    using as_u64_dec
    by (cases "jr_cwd q"; cases "jr_timeout_ms q") (simp_all add: pool_protocol_defs as_option_def)
  have "as_option as_i32 (of_option (\<lambda>w. JNumber (i32_to_string w)) (jo_exit_code r)) = Some (jo_exit_code r)"
    using as_i32_string by (auto intro!: as_option_of_option)
  then show "job_response_of_json (job_response_to_json r) = Some r"
    using as_u64_dec by (simp add: pool_protocol_defs optional_texts)
qed

subsection \<open>The codec of the pool\<close>

text \<open>
  A JSON text is parsed or printed by the library, and read or written by the derived code; \<open>shape\<close> is
  the library's text for a document of another shape.
\<close>

definition frame_codec :: "(string \<Rightarrow> string + json) \<Rightarrow> (json \<Rightarrow> string) \<Rightarrow> string \<Rightarrow> codec" where
  "frame_codec parse print shape =
     \<lparr>co_encode = (\<lambda>q. Inr (print (job_request_to_json q))),
      co_decode = (\<lambda>l. case parse l of Inl _ \<Rightarrow> None | Inr d \<Rightarrow> job_response_of_json d),
      co_handshake = (\<lambda>l. case parse l of Inl e \<Rightarrow> Inl e | Inr d \<Rightarrow>
        (case handshake_of_json d of None \<Rightarrow> Inl shape | Some h \<Rightarrow> Inr h))\<rparr>"

end
