(* ===== verification/Fake_Worker.thy ===== *)
theory Fake_Worker
  imports Pool_Protocol
begin

text \<open>
  The worker of \<open>rt/pool/fake_worker.rs\<close>, with which the crate tests its pool: the other side of the
  protocol, as a program that reads request lines and writes frames.  The JSON text codec is an
  argument.  A print of a frame has no line feed, so a frame is a line for the reader.
\<close>

subsection \<open>Directives\<close>

datatype directive =
    Echo string
  | Fail string
  | TimedOut
  | HarnessError string
  | Hang
  | Die
  | Misaddressed string
  | Noise string
  | ExitAfterReply
  | Linger
  | Print string

fun directive_code :: "directive \<Rightarrow> string" where
  "directive_code (Echo t) = ''echo:'' @ t"
| "directive_code (Fail t) = ''fail:'' @ t"
| "directive_code TimedOut = ''timeout''"
| "directive_code (HarnessError m) = ''harness-error:'' @ m"
| "directive_code Hang = ''hang''"
| "directive_code Die = ''die''"
| "directive_code (Misaddressed t) = ''misaddressed:'' @ t"
| "directive_code (Noise t) = ''noise:'' @ t"
| "directive_code ExitAfterReply = ''exit-after-reply''"
| "directive_code Linger = ''linger''"
| "directive_code (Print t) = ''print:'' @ t"

text \<open>\<open>str::split_once\<close> at a character.\<close>

definition split_once :: "char \<Rightarrow> string \<Rightarrow> (string \<times> string) option" where
  "split_once d s =
     (case dropWhile (\<lambda>c. c \<noteq> d) s of [] \<Rightarrow> None | _ # rest \<Rightarrow> Some (takeWhile (\<lambda>c. c \<noteq> d) s, rest))"

definition HANG_FOR :: duration where "HANG_FOR = dur_from_secs 25"
definition WORKER_MARKER :: string where "WORKER_MARKER = ''TINYRUNTIME_TEST_WORKER''"

subsection \<open>One job\<close>

text \<open>
  What a job makes the worker do: the frames it writes, what it prints, how long it sleeps after
  them, whether it is to linger, and whether it serves on.
\<close>

record fake_act =
  fa_frames :: "string list"
  fa_printed :: "string list"
  fa_sleep :: duration
  fa_linger :: bool
  fa_serving :: bool

definition reply_to :: "job_request \<Rightarrow> job_response" where
  "reply_to q =
     \<lparr>jo_id = Some (jr_id q), jo_ok = True, jo_stdout = [], jo_stderr = [], jo_exit_code = Some 0,
      jo_timed_out = False, jo_elapsed_ms = 1, jo_error = None\<rparr>"

definition replies :: "(json \<Rightarrow> string) \<Rightarrow> string list \<Rightarrow> job_response \<Rightarrow> fake_act" where
  "replies print before r =
     \<lparr>fa_frames = before @ [print (job_response_to_json r)], fa_printed = [], fa_sleep = 0, fa_linger = False,
      fa_serving = True\<rparr>"

definition stops :: "fake_act \<Rightarrow> fake_act" where
  "stops a = a\<lparr>fa_serving := False\<rparr>"

definition silent :: "duration \<Rightarrow> fake_act" where
  "silent d = \<lparr>fa_frames = [], fa_printed = [], fa_sleep = d, fa_linger = False, fa_serving = False\<rparr>"

definition fake_handle :: "(json \<Rightarrow> string) \<Rightarrow> job_request \<Rightarrow> fake_act" where
  "fake_handle print q =
     (let (kind, payload) = (case split_once (CHR '':'') (jr_code q) of Some kp \<Rightarrow> kp | None \<Rightarrow> (jr_code q, []));
          r = reply_to q
      in if kind = ''echo'' then replies print [] (r\<lparr>jo_stdout := payload\<rparr>)
         else if kind = ''fail'' then replies print [] (r\<lparr>jo_stderr := payload, jo_exit_code := Some 1\<rparr>)
         else if kind = ''timeout'' then replies print [] (r\<lparr>jo_timed_out := True, jo_exit_code := None\<rparr>)
         else if kind = ''harness-error'' then replies print [] (r\<lparr>jo_ok := False, jo_error := Some payload\<rparr>)
         else if kind = ''hang'' then silent HANG_FOR
         else if kind = ''die'' then silent 0
         else if kind = ''misaddressed'' then
           replies print
             [print (job_response_to_json (r\<lparr>jo_id := Some (jr_id q @ ''-not-this-one''), jo_stdout := ''stray''\<rparr>))]
             (r\<lparr>jo_stdout := payload\<rparr>)
         else if kind = ''noise'' then replies print [''this is not json''] (r\<lparr>jo_stdout := payload\<rparr>)
         else if kind = ''print'' then (replies print [] (r\<lparr>jo_stdout := payload\<rparr>))\<lparr>fa_printed := [payload]\<rparr>
         else if kind = ''exit-after-reply'' then stops (replies print [] r)
         else if kind = ''linger'' then (stops (replies print [] r))\<lparr>fa_linger := True\<rparr>
         else replies print [] (r\<lparr>jo_stdout := jr_code q\<rparr>))"

subsection \<open>The protocol loop\<close>

text \<open>
  A run on the input so far: the frames written, the lines printed, when the protocol stream closes
  after the last frame (not at all while the worker reads on), and whether the process stays alive
  behind a closed stream, which it does for \<open>HANG_FOR\<close>.
\<close>

record fake_run =
  fr_frames :: "string list"
  fr_printed :: "string list"
  fr_closed :: "duration option"
  fr_linger :: bool

definition closed_run :: "string list \<Rightarrow> fake_run" where
  "closed_run frames = \<lparr>fr_frames = frames, fr_printed = [], fr_closed = Some 0, fr_linger = False\<rparr>"

definition after_act :: "fake_act \<Rightarrow> fake_run \<Rightarrow> fake_run" where
  "after_act a r =
     \<lparr>fr_frames = fa_frames a @ fr_frames r, fr_printed = fa_printed a @ fr_printed r, fr_closed = fr_closed r,
      fr_linger = fr_linger r\<rparr>"

fun serve_loop :: "(string \<Rightarrow> string + json) \<Rightarrow> (json \<Rightarrow> string) \<Rightarrow> read_answer list \<Rightarrow> fake_run" where
  "serve_loop parse print [] = \<lparr>fr_frames = [], fr_printed = [], fr_closed = None, fr_linger = False\<rparr>"
| "serve_loop parse print (ReadLine line # input) =
     (if trim line = [] then serve_loop parse print input
      else case (case parse (trim line) of Inl _ \<Rightarrow> None | Inr d \<Rightarrow> job_request_of_json d) of
        None \<Rightarrow> serve_loop parse print input
      | Some q \<Rightarrow>
          (let a = fake_handle print q
           in if fa_serving a then after_act a (serve_loop parse print input)
              else \<lparr>fr_frames = fa_frames a, fr_printed = fa_printed a, fr_closed = Some (fa_sleep a),
                    fr_linger = fa_linger a\<rparr>))"
| "serve_loop parse print (_ # input) = closed_run []"

definition fake_handshake :: "string option \<Rightarrow> handshake" where
  "fake_handshake token =
     \<lparr>hs_ready = True, hs_protocol = Some WORKER_PROTOCOL_VERSION, hs_language = Some ''test'', hs_error = None,
      hs_token = token\<rparr>"

definition serve_on ::
  "(string \<Rightarrow> string + json) \<Rightarrow> (json \<Rightarrow> string) \<Rightarrow> string option \<Rightarrow> read_answer list \<Rightarrow> fake_run" where
  "serve_on parse print token input =
     (let r = serve_loop parse print input
      in r\<lparr>fr_frames := print (handshake_to_json (fake_handshake token)) # fr_frames r\<rparr>)"

datatype mode = Serve | Silent | Garbage

definition mode_of :: "string \<Rightarrow> mode" where
  "mode_of marker = (if marker = ''silent'' then Silent else if marker = ''garbage'' then Garbage else Serve)"

definition connect_and_serve ::
  "(string \<Rightarrow> string + json) \<Rightarrow> (json \<Rightarrow> string) \<Rightarrow> string option \<Rightarrow> mode \<Rightarrow> read_answer list \<Rightarrow> fake_run" where
  "connect_and_serve parse print token m input =
     (case m of
        Silent \<Rightarrow> closed_run []
      | Garbage \<Rightarrow> closed_run [''not a handshake at all'']
      | Serve \<Rightarrow> serve_on parse print token input)"

definition mode_in :: "(string \<rightharpoonup> string) \<Rightarrow> mode" where
  "mode_in vars = mode_of (case vars WORKER_MARKER of Some m \<Rightarrow> m | None \<Rightarrow> [])"

text \<open>The worker of a process: no address in its environment is a panic.\<close>

definition fake_serve ::
  "(string \<Rightarrow> string + json) \<Rightarrow> (json \<Rightarrow> string) \<Rightarrow> (string \<rightharpoonup> string) \<Rightarrow> read_answer list \<Rightarrow> fake_run option" where
  "fake_serve parse print vars input =
     (if vars ''TINYRUNTIME_PROTOCOL_ADDR'' = None then None
      else Some (connect_and_serve parse print (vars ''TINYRUNTIME_PROTOCOL_TOKEN'') (mode_in vars) input))"

subsection \<open>Its launch\<close>

text \<open>The binary and its directory are the running test's; \<open>host\<close> is its environment.\<close>

definition fake_launch :: "(string \<rightharpoonup> string) \<Rightarrow> string \<Rightarrow> string \<Rightarrow> language \<Rightarrow> launch" where
  "fake_launch host exe exe_dir l =
     \<lparr>la_language = l, la_binary = exe,
      la_args = [''--exact'', ''pool::fake_worker::test::serves_as_a_worker_when_asked'', ''--nocapture'',
        ''--test-threads=1''],
      la_env = env_build host exe_dir [(WORKER_MARKER, ''1''),
        (''RUST_BACKTRACE'', case host ''RUST_BACKTRACE'' of Some v \<Rightarrow> v | None \<Rightarrow> [])],
      la_protocol_version = WORKER_PROTOCOL_VERSION, la_handshake_timeout = dur_from_secs 20,
      la_spawner = None\<rparr>"

definition fake_launch_with_mode :: "(string \<rightharpoonup> string) \<Rightarrow> string \<Rightarrow> string \<Rightarrow> language \<Rightarrow> string \<Rightarrow> launch" where
  "fake_launch_with_mode host exe exe_dir l m =
     (let la = fake_launch host exe exe_dir l
      in la\<lparr>la_env := filter (\<lambda>(name, _). name \<noteq> WORKER_MARKER) (la_env la) @ [(WORKER_MARKER, m)]\<rparr>)"

end
