(* ===== verification/Fake_Pool_Properties.thy ===== *)
theory Fake_Pool_Properties
  imports Fake_Worker Lang_Pool
begin

text \<open>
  The two sides of the pool's protocol put together: a pool that starts the worker of \<open>Fake_Worker\<close>,
  each directive followed from the call to its answer through launch, environment, handshake, framing,
  deadline and classification.
\<close>

subsection \<open>The two sides\<close>

text \<open>What a caller gets for a directive.\<close>

definition answer :: "string \<Rightarrow> string \<Rightarrow> string \<Rightarrow> 32 word option \<Rightarrow> bool \<Rightarrow> u64 \<Rightarrow> u64 \<Rightarrow> exec_response" where
  "answer v out err code late el qw =
     with_timings el qw (with_timed_out late (exec_response_new out err code v))"

fun directive_result :: "language \<Rightarrow> string \<Rightarrow> u64 \<Rightarrow> u64 \<Rightarrow> directive \<Rightarrow> exec_response result" where
  "directive_result l v el qw (Echo t) = Inr (answer v t [] (Some 0) False el qw)"
| "directive_result l v el qw (Fail t) = Inr (answer v [] t (Some 1) False el qw)"
| "directive_result l v el qw TimedOut = Inr (answer v [] [] None True el qw)"
| "directive_result l v el qw (HarnessError m) = Inl (PostDispatch l m)"
| "directive_result l v el qw Hang = Inl (PostDispatch l ''the worker stopped answering and was discarded'')"
| "directive_result l v el qw Die = Inl (PostDispatch l ''the worker closed its protocol stream'')"
| "directive_result l v el qw (Misaddressed t) = Inr (answer v t [] (Some 0) False el qw)"
| "directive_result l v el qw (Noise t) = Inr (answer v t [] (Some 0) False el qw)"
| "directive_result l v el qw ExitAfterReply = Inr (answer v [] [] (Some 0) False el qw)"
| "directive_result l v el qw Linger = Inr (answer v [] [] (Some 0) False el qw)"
| "directive_result l v el qw (Print t) = Inr (answer v t [] (Some 0) False el qw)"

text \<open>The answer of the worker, before the pool classifies it; \<open>None\<close>: it gives none in time.\<close>

fun directive_reply :: "job_request \<Rightarrow> directive \<Rightarrow> job_response option" where
  "directive_reply q (Echo t) = Some ((reply_to q)\<lparr>jo_stdout := t\<rparr>)"
| "directive_reply q (Fail t) = Some ((reply_to q)\<lparr>jo_stderr := t, jo_exit_code := Some 1\<rparr>)"
| "directive_reply q TimedOut = Some ((reply_to q)\<lparr>jo_timed_out := True, jo_exit_code := None\<rparr>)"
| "directive_reply q (HarnessError m) = Some ((reply_to q)\<lparr>jo_ok := False, jo_error := Some m\<rparr>)"
| "directive_reply q (Misaddressed t) = Some ((reply_to q)\<lparr>jo_stdout := t\<rparr>)"
| "directive_reply q (Noise t) = Some ((reply_to q)\<lparr>jo_stdout := t\<rparr>)"
| "directive_reply q (Print t) = Some ((reply_to q)\<lparr>jo_stdout := t\<rparr>)"
| "directive_reply q ExitAfterReply = Some (reply_to q)"
| "directive_reply q Linger = Some (reply_to q)"
| "directive_reply q _ = None"

text \<open>Frames the pool skips before it.\<close>

fun directive_chatter :: "(json \<Rightarrow> string) \<Rightarrow> job_request \<Rightarrow> directive \<Rightarrow> string list" where
  "directive_chatter print q (Misaddressed t) =
     [print (job_response_to_json ((reply_to q)\<lparr>jo_id := Some (jr_id q @ ''-not-this-one''), jo_stdout := ''stray''\<rparr>))]"
| "directive_chatter print q (Noise t) = [''this is not json'']"
| "directive_chatter print q _ = []"

fun directive_sleep :: "directive \<Rightarrow> duration option" where
  "directive_sleep Hang = Some HANG_FOR"
| "directive_sleep Die = Some 0"
| "directive_sleep ExitAfterReply = Some 0"
| "directive_sleep Linger = Some 0"
| "directive_sleep _ = None"

lemma fake_handle_directive:
  assumes "jr_code q = directive_code d"
  shows "fa_frames (fake_handle print q) = directive_chatter print q d
      @ (case directive_reply q d of None \<Rightarrow> [] | Some r \<Rightarrow> [print (job_response_to_json r)])
    \<and> (if fa_serving (fake_handle print q) then None else Some (fa_sleep (fake_handle print q))) = directive_sleep d"
  by (cases d) (simp_all add: assms fake_handle_def split_once_def replies_def stops_def silent_def Let_def)

text \<open>The worker finds in its environment what the pool put there, whatever the launch.\<close>

definition child_vars :: "launch \<Rightarrow> string \<Rightarrow> string \<Rightarrow> string \<rightharpoonup> string" where
  "child_vars la address token = cmd_env (to_command Map.empty (worker_spec la address token))"

lemma child_vars_pool:
  "child_vars la address token ''TINYRUNTIME_PROTOCOL_ADDR'' = Some address
   \<and> child_vars la address token ''TINYRUNTIME_PROTOCOL_TOKEN'' = Some token"
  by (simp add: child_vars_def to_command_def worker_spec_def)

lemma child_vars_cleared: "cmd_env (to_command inherited (worker_spec la address token)) = child_vars la address token"
  by (simp add: child_vars_def to_command_def worker_spec_def)

text \<open>A launch that starts the worker as it serves: directly, in this protocol, with no other mode asked for.\<close>

definition launches_fake :: "launch \<Rightarrow> string \<Rightarrow> string \<Rightarrow> bool" where
  "launches_fake la address token \<longleftrightarrow>
     la_spawner la = None \<and> la_protocol_version la = WORKER_PROTOCOL_VERSION
     \<and> mode_in (child_vars la address token) = Serve"

lemma fake_launch_serves: "launches_fake (fake_launch host exe exe_dir l) address token"
  by (simp add: launches_fake_def child_vars_def to_command_def worker_spec_def fake_launch_def env_build_def
      WORKER_MARKER_def mode_in_def mode_of_def Let_def)

definition fake_exchange ::
  "(string \<Rightarrow> string + json) \<Rightarrow> (json \<Rightarrow> string) \<Rightarrow> launch \<Rightarrow> string \<Rightarrow> string \<Rightarrow> job_request \<Rightarrow> fake_run option" where
  "fake_exchange parse print la address token q =
     fake_serve parse print (child_vars la address token)
       [ReadLine (print (job_request_to_json q) @ [CHR 0x0A])]"

lemma fake_exchange_run:
  assumes "fake_exchange parse print la address token q = Some r" "launches_fake la address token"
    and "jr_code q = directive_code d"
    and "trim (print (job_request_to_json q) @ [CHR 0x0A]) = print (job_request_to_json q)"
    and "print (job_request_to_json q) \<noteq> []"
    and "parse (print (job_request_to_json q)) = Inr (job_request_to_json q)"
  shows "fr_frames r = print (handshake_to_json (fake_handshake (Some token))) # directive_chatter print q d
      @ (case directive_reply q d of None \<Rightarrow> [] | Some x \<Rightarrow> [print (job_response_to_json x)])
    \<and> fr_closed r = directive_sleep d"
proof -
  have "fr_frames (serve_loop parse print [ReadLine (print (job_request_to_json q) @ [CHR 0x0A])]) =
        fa_frames (fake_handle print q)
      \<and> fr_closed (serve_loop parse print [ReadLine (print (job_request_to_json q) @ [CHR 0x0A])]) =
        (if fa_serving (fake_handle print q) then None else Some (fa_sleep (fake_handle print q)))"
    using assms(4-6) by (simp add: pool_protocol_round_trip Let_def after_act_def)
  moreover have "r = serve_on parse print (Some token) [ReadLine (print (job_request_to_json q) @ [CHR 0x0A])]"
    using assms(1,2) child_vars_pool [of la address token]
    by (simp add: fake_exchange_def fake_serve_def connect_and_serve_def launches_fake_def)
  ultimately show ?thesis
    using fake_handle_directive [OF assms(3)] by (simp add: serve_on_def Let_def)
qed

text \<open>What the pool reads of it: the frames after the handshake at one instant, then the end, if there is one.\<close>

definition fake_stream :: "instant \<Rightarrow> fake_run \<Rightarrow> stream_event list" where
  "fake_stream t r =
     map (LineAt t) (tl (fr_frames r)) @ (case fr_closed r of None \<Rightarrow> [] | Some e \<Rightarrow> [EofAt (t + e)])"

lemma stray_id: "jr_id q @ ''-not-this-one'' \<noteq> jr_id q"
  by simp

lemma await_directive:
  assumes frames: "fr_frames r = hs # directive_chatter print q d
      @ (case directive_reply q d of None \<Rightarrow> [] | Some x \<Rightarrow> [print (job_response_to_json x)])"
    and "fr_closed r = directive_sleep d"
    and parse: "\<And>x. print (job_response_to_json x) \<in> set (tl (fr_frames r)) \<Longrightarrow>
        parse (print (job_response_to_json x)) = Inr (job_response_to_json x)"
    and noise: "parse ''this is not json'' = Inl e"
    and time: "\<not> past deadline t" "d = Hang \<Longrightarrow> past deadline (t + HANG_FOR)"
  shows "await_response (co_decode (frame_codec parse print shape)) (jr_id q) deadline (fake_stream t r) w =
    Some (case directive_reply q d of
        Some x \<Rightarrow> (Inr x, w\<lparr>wk_jobs_done := wk_jobs_done w + 1, wk_last_used := t\<rparr>)
      | None \<Rightarrow> (Inl (failure_post (if d = Hang then ''the worker stopped answering and was discarded''
                  else ''the worker closed its protocol stream'')), w))"
  using assms
  by (cases d) (simp_all add: fake_stream_def frame_codec_def pool_protocol_round_trip reply_to_def)

lemma fake_spawn:
  assumes "se_bind env = None" "se_local_addr env = Inr address" "\<And>spec. se_start env spec = Inr child"
    and "se_accept env = Accepted" "se_handshake env = ReadLine (print (handshake_to_json (fake_handshake (Some (se_token env)))))"
    and "parse (print (handshake_to_json (fake_handshake (Some (se_token env)))))
        = Inr (handshake_to_json (fake_handshake (Some (se_token env))))"
    and "launches_fake la address (se_token env)"
  shows "fst (worker_spawn (co_handshake (frame_codec parse print shape)) la env) =
    Inr \<lparr>wk_language = la_language la, wk_child = child, wk_jobs_done = 0, wk_last_used = se_now env\<rparr>"
  using assms
  by (simp add: worker_spawn_def confine_def launches_fake_def frame_codec_def pool_protocol_round_trip verify_handshake_def
      fake_handshake_def)

lemma conclude_directive:
  "directive_reply q d = Some x \<Longrightarrow>
   conclude p x el qw = directive_result (pool_language p) (lp_runtime_version p) (u64_of_nat_sat (dur_as_millis el))
     (u64_of_nat_sat (dur_as_millis qw)) d"
  by (cases d) (auto simp: conclude_def pool_outcome_def reply_to_def answer_def)

lemma no_reply_result:
  "directive_reply q d = None \<Longrightarrow>
   directive_result l v el qw d = Inl (PostDispatch l (if d = Hang then ''the worker stopped answering and was discarded''
     else ''the worker closed its protocol stream''))"
  by (cases d) simp_all

text \<open>The first call of a pool: a permit is free and nothing is parked, so a worker is started for it.\<close>

lemma pool_run_fresh:
  assumes "\<not> capacity s < 1"
    and "fst (worker_spawn (co_handshake co) la (re_spawn env)) = Inr w"
    and "worker_submit co (make_job 0 code cwd timeout) (hard_deadline_of timeout) (re_submit env) w
      = Some ((res, w'), sent)"
  shows "map_option fst (pool_run co code cwd timeout env (pool_start la s v)) =
    Some (case res of
        Inl f \<Rightarrow> Inl (dispatch_error (pool_start la s v) f)
      | Inr x \<Rightarrow> conclude (pool_start la s v) x (elapsed (re_finished_at env) (re_started_at env))
          (elapsed (re_acquired_at env) (re_queued_at env)))"
proof -
  obtain n where n: "unat (effective_max_workers s) = Suc n"
    using effective_max_workers_pos [of s] gr0_implies_Suc by blast
  show ?thesis
    using assms
    by (cases res)
      (simp_all add: pool_run_def enter_def pool_start_def acquire_permit_def next_job_id_def n pool_dispatch_def
        take_or_spawn_def pool_spawn_def count_spawn_def dispatch_error_def pool_language_def retire_or_park_def
        count_job_def conclude_def pool_outcome_def Let_def split: option.split)
qed

lemma submit_directive:
  assumes "su_write se = None" "su_flush se = None" "su_stream se = fake_stream t r"
    and "await_response (co_decode (frame_codec parse print shape)) (jr_id q)
      (Some (su_now se + (timeout + WEDGED_GRACE) + su_lag se)) (fake_stream t r) w = Some (res, w')"
  shows "worker_submit (frame_codec parse print shape) q (hard_deadline_of (Some timeout)) se w
    = Some ((res, w'), Some (print (job_request_to_json q) @ [CHR 0x0A]))"
  using assms by (simp add: worker_submit_def hard_deadline_of_def frame_codec_def)

text \<open>
  A call of a fresh pool whose worker is the crate's own test worker: for each directive the
  caller gets what the directive says, through the launch, the environment, the secret, the handshake,
  the frames that are not for this job, the deadline and the classification.  Only a worker that hung
  or died is an error after dispatch.  Required of the JSON library is that it reads what it wrote.
\<close>

theorem pool_follows_directive:
  assumes room: "\<not> capacity s < 1"
    and q: "q = make_job 0 (directive_code d) cwd (Some timeout)"
    and fake: "launches_fake la address (se_token (re_spawn env))"
    and run: "fake_exchange parse print la address (se_token (re_spawn env)) q = Some r"
    and spawn: "se_bind (re_spawn env) = None" "se_local_addr (re_spawn env) = Inr address"
      "\<And>spec. se_start (re_spawn env) spec = Inr child" "se_accept (re_spawn env) = Accepted"
      "se_handshake (re_spawn env) = ReadLine (hd (fr_frames r))"
    and sent: "su_write (re_submit env) = None" "su_flush (re_submit env) = None"
      "su_stream (re_submit env) = fake_stream t r"
    and time: "t < su_now (re_submit env) + timeout + WEDGED_GRACE"
      "d = Hang \<Longrightarrow> su_now (re_submit env) + timeout + WEDGED_GRACE + su_lag (re_submit env) \<le> t + HANG_FOR"
    and line: "trim (print (job_request_to_json q) @ [CHR 0x0A]) = print (job_request_to_json q)"
      "print (job_request_to_json q) \<noteq> []" "parse (print (job_request_to_json q)) = Inr (job_request_to_json q)"
    and frames: "\<And>x. print x \<in> set (fr_frames r) \<Longrightarrow> parse (print x) = Inr x"
    and noise: "parse ''this is not json'' = Inl e"
  shows "map_option fst (pool_run (frame_codec parse print shape) (directive_code d) cwd (Some timeout) env
      (pool_start la s v)) =
    Some (directive_result (la_language la) v (u64_of_nat_sat (dur_as_millis (elapsed (re_finished_at env) (re_started_at env))))
      (u64_of_nat_sat (dur_as_millis (elapsed (re_acquired_at env) (re_queued_at env)))) d)"
proof -
  let ?co = "frame_codec parse print shape"
  let ?w = "\<lparr>wk_language = la_language la, wk_child = child, wk_jobs_done = 0, wk_last_used = se_now (re_spawn env)\<rparr>"
  let ?deadline = "Some (su_now (re_submit env) + (timeout + WEDGED_GRACE) + su_lag (re_submit env))"
  have code: "jr_code q = directive_code d" using q by (simp add: make_job_def)
  note x = fake_exchange_run [OF run fake code line]
  have hs: "hd (fr_frames r) = print (handshake_to_json (fake_handshake (Some (se_token (re_spawn env)))))"
    using x by simp
  have start: "fst (worker_spawn (co_handshake ?co) la (re_spawn env)) = Inr ?w"
    by (rule fake_spawn) (use spawn hs x frames fake in \<open>simp_all\<close>)
  have reply: "await_response (co_decode ?co) (jr_id q) ?deadline (fake_stream t r) ?w =
    Some (case directive_reply q d of
        Some y \<Rightarrow> (Inr y, ?w\<lparr>wk_jobs_done := wk_jobs_done ?w + 1, wk_last_used := t\<rparr>)
      | None \<Rightarrow> (Inl (failure_post (if d = Hang then ''the worker stopped answering and was discarded''
                  else ''the worker closed its protocol stream'')), ?w))"
  proof (rule await_directive)
    show "fr_frames r = print (handshake_to_json (fake_handshake (Some (se_token (re_spawn env)))))
        # directive_chatter print q d
        @ (case directive_reply q d of None \<Rightarrow> [] | Some y \<Rightarrow> [print (job_response_to_json y)])" using x by blast
    show "parse (print (job_response_to_json y)) = Inr (job_response_to_json y)"
      if "print (job_response_to_json y) \<in> set (tl (fr_frames r))" for y
      using that frames by (metis list.set_sel(2) tl_Nil empty_iff list.set(1))
  qed (use x noise time in \<open>simp_all add: past_def add.assoc\<close>)
  have p: "pool_language (pool_start la s v) = la_language la"
      "lp_runtime_version (pool_start la s v) = v"
    by (simp_all add: pool_language_def pool_start_def)
  show ?thesis
  proof (cases "directive_reply q d")
    case None
    note res = pool_run_fresh [OF room start submit_directive [OF sent reply [unfolded None option.case], unfolded q]]
    show ?thesis unfolding res by (simp add: dispatch_error_def failure_post_def p no_reply_result [OF None])
  next
    case (Some y)
    note res = pool_run_fresh [OF room start submit_directive [OF sent reply [unfolded Some option.case], unfolded q]]
    show ?thesis unfolding res by (simp add: conclude_directive [OF Some] p)
  qed
qed

subsection \<open>A run\<close>

definition demo_job :: job_request where
  "demo_job = make_job 0 (directive_code (Misaddressed ''42'')) None (Some (dur_from_secs 5))"

definition demo_hello :: json where "demo_hello = handshake_to_json (fake_handshake (Some ''t''))"
definition demo_question :: json where "demo_question = job_request_to_json demo_job"
definition demo_stray :: json where
  "demo_stray = job_response_to_json ((reply_to demo_job)\<lparr>jo_id := Some (jr_id demo_job @ ''-not-this-one''), jo_stdout := ''stray''\<rparr>)"
definition demo_answer :: json where "demo_answer = job_response_to_json ((reply_to demo_job)\<lparr>jo_stdout := ''42''\<rparr>)"

definition demo_print :: "json \<Rightarrow> string" where
  "demo_print d =
     (if d = demo_hello then ''h'' else if d = demo_question then ''q'' else if d = demo_stray then ''s''
      else if d = demo_answer then ''a'' else ''x'')"

definition demo_read :: "string \<Rightarrow> string + json" where
  "demo_read l =
     (if l = ''h'' then Inr demo_hello else if l = ''q'' then Inr demo_question else if l = ''s'' then Inr demo_stray
      else if l = ''a'' then Inr demo_answer else Inl ''expected value'')"

lemma demo_distinct: "distinct [demo_hello, demo_question, demo_stray, demo_answer]"
  by (simp add: demo_hello_def demo_question_def demo_stray_def demo_answer_def demo_job_def make_job_def reply_to_def
      handshake_to_json_def job_request_to_json_def job_response_to_json_def unless_none_def of_option_def fake_handshake_def)

lemma demo_trim: "trim (''q'' @ [CHR 0x0A]) = ''q''"
  by code_simp

definition demo_fake_run :: fake_run where
  "demo_fake_run = \<lparr>fr_frames = [''h'', ''s'', ''a''], fr_printed = [], fr_closed = None, fr_linger = False\<rparr>"

definition demo_fake_launch :: launch where
  "demo_fake_launch = fake_launch Map.empty ''/t/test'' ''/t'' language_python"

lemma demo_code: "split_once (CHR '':'') (jr_code demo_job) = Some (''misaddressed'', ''42'')"
  by (simp add: demo_job_def make_job_def split_once_def)

lemma demo_launches: "launches_fake demo_fake_launch address token"
  by (simp add: demo_fake_launch_def fake_launch_serves)

lemma demo_fake_exchange:
  assumes "launches_fake la address ''t''"
  shows "fake_exchange demo_read demo_print la address ''t'' demo_job = Some demo_fake_run"
proof -
  have "demo_print demo_hello = ''h''" "demo_print demo_question = ''q''" "demo_print demo_stray = ''s''"
      "demo_print demo_answer = ''a''" "demo_read ''q'' = Inr demo_question"
    using demo_distinct by (auto simp: demo_print_def demo_read_def)
  then have "serve_loop demo_read demo_print [ReadLine (demo_print (job_request_to_json demo_job) @ [CHR 0x0A])]
      = \<lparr>fr_frames = [''s'', ''a''], fr_printed = [], fr_closed = None, fr_linger = False\<rparr>"
      "demo_print (handshake_to_json (fake_handshake (Some ''t''))) = ''h''"
    using demo_trim demo_code
    by (simp_all add: flip: demo_question_def demo_hello_def)
      (simp add: demo_question_def pool_protocol_round_trip fake_handle_def replies_def after_act_def
        flip: demo_stray_def demo_answer_def)
  then show ?thesis
    using child_vars_pool [of la address "''t''"] assms
    by (simp add: fake_exchange_def launches_fake_def fake_serve_def connect_and_serve_def serve_on_def demo_fake_run_def)
qed

lemma demo_lines:
  "demo_print (job_request_to_json demo_job) = ''q''" "demo_read ''q'' = Inr (job_request_to_json demo_job)"
  using demo_distinct by (auto simp: demo_print_def demo_read_def demo_question_def)

lemma demo_frames: "demo_print x \<in> set (fr_frames demo_fake_run) \<Longrightarrow> demo_read (demo_print x) = Inr x"
  by (auto simp: demo_print_def demo_read_def demo_fake_run_def split: if_splits)

lemma demo_room: "\<not> capacity pool_settings_default < 1"
  by (simp add: capacity_def effective_max_workers_def effective_max_queue_depth_def pool_settings_default_def)

definition demo_fake_env :: run_env where
  "demo_fake_env =
     \<lparr>re_queued_at = 1, re_acquired_at = 2, re_take_at = 3, re_started_at = 3, re_finished_at = 9,
      re_try_wait = (\<lambda>_. StillRunning),
      re_spawn = \<lparr>se_bind = None, se_local_addr = Inr ''127.0.0.1:9'', se_token = ''t'', se_start = (\<lambda>_. Inr 7),
        se_accept = Accepted, se_handshake = ReadLine ''h'', se_now = 5\<rparr>,
      re_submit = \<lparr>su_write = None, su_flush = None, su_now = 6, su_lag = 0, su_stream = [LineAt 8 ''s'', LineAt 8 ''a'']\<rparr>\<rparr>"

theorem pool_follows_directive_witness:
  "map_option fst (pool_run (frame_codec demo_read demo_print ''shape'') (directive_code (Misaddressed ''42'')) None
      (Some (dur_from_secs 5)) demo_fake_env (pool_start demo_fake_launch pool_settings_default ''3.12'')) =
    Some (Inr (answer ''3.12'' ''42'' [] (Some 0) False 0 0))"
proof -
  have "map_option fst (pool_run (frame_codec demo_read demo_print ''shape'') (directive_code (Misaddressed ''42''))
      None (Some (dur_from_secs 5)) demo_fake_env
      (pool_start demo_fake_launch pool_settings_default ''3.12'')) =
    Some (directive_result (la_language demo_fake_launch) ''3.12''
      (u64_of_nat_sat (dur_as_millis (elapsed (re_finished_at demo_fake_env) (re_started_at demo_fake_env))))
      (u64_of_nat_sat (dur_as_millis (elapsed (re_acquired_at demo_fake_env) (re_queued_at demo_fake_env))))
      (Misaddressed ''42''))"
    using demo_fake_exchange [OF demo_launches] demo_trim demo_launches demo_lines demo_frames demo_room
    by (intro pool_follows_directive [where q = demo_job and r = demo_fake_run and t = 8 and child = 7
        and address = "''127.0.0.1:9''" and e = "''expected value''"])
      (simp_all add: demo_job_def demo_fake_env_def demo_fake_run_def fake_stream_def
        dur_from_secs_def WEDGED_GRACE_def HANG_FOR_def demo_read_def)
  then show ?thesis
    by (simp add: demo_fake_env_def elapsed_def dur_as_millis_def u64_of_nat_sat_def)
qed

end
