(* ===== verification/Execution_Round.thy ===== *)
theory Execution_Round
  imports Provision_Properties Stub_Provider Fake_Pool_Properties
begin

text \<open>
  One execution from the request to the answer: the engine over the stub provider, which has a toolchain
  on the host and a harness, and a worker that speaks the pool's protocol.
\<close>

subsection \<open>The engine's part\<close>

text \<open>An engine that has started nothing yet makes a pool for the first launch it needs.\<close>

lemma ensure_first:
  "ensure dbg la s v pools_new = (a, ps) \<Longrightarrow> pool_at ps a = pool_start la s v"
  by (auto simp: ensure_def pools_new_def pool_at_def pool_init_def)

lemma execute_first:
  assumes "require (xe_resolve env) (resolve_request_new (xr_language q) (xr_settings q)) (en_resolver en) fs
      = (Inr runtime, rv, fs1)"
    and "launch_for env (en\<lparr>en_resolver := rv\<rparr>) runtime (xr_language q) fs1 = (Inr la, fs2)"
    and "en_pools en = pools_new"
  shows "map_option fst (execute env q en fs) =
    map_option fst (pool_run (xe_codec env) (xr_code q) (xr_cwd q) (map_option dur_from_millis (xr_timeout_ms q)) (xe_run env)
      (pool_start la (xr_pool q) (rr_version runtime)))"
proof -
  obtain a ps where en: "ensure (xe_debug env) la (xr_pool q) (rr_version runtime) pools_new = (a, ps)"
    by (metis surj_pair)
  then show ?thesis
    using assms ensure_first [OF en]
    by (auto simp: execute_def Let_def split: option.split)
qed

subsection \<open>With the stub\<close>

definition stub_engine :: "loc \<Rightarrow> stub \<Rightarrow> string \<Rightarrow> string \<Rightarrow> engine" where
  "stub_engine cwd st bus root =
     engine_new (register (sb_language st) bus (stub_provider cwd st) registry_new) root"

definition equipped_stub :: "language \<Rightarrow> runtime_layout \<Rightarrow> worker_harness \<Rightarrow> stub" where
  "equipped_stub l layout h = stub_with_harness h (stub_with_system layout (stub_new l))"

definition stub_launch ::
  "exec_env \<Rightarrow> language \<Rightarrow> runtime_layout \<Rightarrow> worker_harness \<Rightarrow> string \<Rightarrow> string \<Rightarrow> launch" where
  "stub_launch env l layout h binary script =
     \<lparr>la_language = l, la_binary = binary, la_args = command_args h script,
      la_env = env_build (xe_host env) (rr_bin_dir (from_layout l System layout)) (wh_env h),
      la_protocol_version = wh_protocol_version h, la_handshake_timeout = DEFAULT_HANDSHAKE_TIMEOUT, la_spawner = None\<rparr>"

lemma equipped_registry:
  "\<not> language_is_empty l \<Longrightarrow>
   registry_provider (register l bus p registry_new) l = Inr p"
  by (simp add: registry_provider_def table.lookup_add)

lemma compatible_stub: "verify_contract l (sb_descriptor (equipped_stub l layout h)) = Inr ()"
  by (simp add: equipped_stub_def stub_with_harness_def stub_with_system_def stub_new_def provider_descriptor_new_def
      verify_contract_def provider_is_compatible_def binds_def CONTRACT_VERSION_def PROVIDER_CONTRACT_VERSION_def)

lemma stub_requires:
  assumes "\<not> language_is_empty l" "rs_enabled s" "rs_prefer_system s"
  shows "require env (resolve_request_new l s) (en_resolver (stub_engine cwd (equipped_stub l layout h) bus root)) fs
    = (Inr (from_layout l System layout), remember (memo_key l s) (from_layout l System layout)
        (en_resolver (stub_engine cwd (equipped_stub l layout h) bus root)), fs)"
  using assms compatible_stub [of l layout h] equipped_registry [OF assms(1)]
  by (simp add: require_def resolve_def resolve_request_new_def stub_engine_def engine_new_def resolver_new_def
      without_network_def stub_provider_def stub_describe_def stub_detect_system_def equipped_stub_def
      stub_with_harness_def stub_with_system_def stub_new_def Let_def)

lemma stub_launches:
  assumes "\<not> language_is_empty l"
    and "resolved_executable (from_layout l System layout) (wh_executable h) = Some binary"
    and "materialise (xe_harness env) (ev_cwd (xe_resolve env)) (path_join root (as_str l)) h fs = (Inr script, fs')"
    and "rv_registry rv = rv_registry (en_resolver (stub_engine cwd (equipped_stub l layout h) bus root))"
  shows "launch_for env ((stub_engine cwd (equipped_stub l layout h) bus root)\<lparr>en_resolver := rv\<rparr>)
      (from_layout l System layout) l fs
    = (Inr (stub_launch env l layout h binary script), fs')"
  using assms equipped_registry [OF assms(1)]
  by (simp add: launch_for_def stub_engine_def engine_new_def resolver_new_def stub_provider_def stub_harness_def
      equipped_stub_def stub_with_harness_def stub_with_system_def stub_new_def stub_launch_def)

text \<open>
  C5.  An execution over a provider that finds the toolchain on the host, by a worker that follows
  directives: the caller gets what the directive says.  On the way the engine resolves without asking
  for a distribution, writes the harness, builds the launch, makes the pool and starts the worker; the
  worker is told the address and the secret, is admitted, skips nothing of its job, and its frames for
  other jobs and its noise are skipped.  Required of the JSON library is that it reads what it wrote.
\<close>

theorem execution_follows_directive:
  assumes lang: "\<not> language_is_empty l" "rs_enabled (xr_settings q)" "rs_prefer_system (xr_settings q)" "xr_language q = l"
    and tool: "resolved_executable (from_layout l System layout) (wh_executable h) = Some binary"
    and harness: "materialise (xe_harness env) (ev_cwd (xe_resolve env)) (path_join root (as_str l)) h fs = (Inr script, fs')"
    and la: "la = stub_launch env l layout h binary script" "wh_protocol_version h = WORKER_PROTOCOL_VERSION"
      "mode_in (child_vars la address (se_token (re_spawn (xe_run env)))) = Serve"
    and asked: "xr_code q = directive_code d" "xr_timeout_ms q = Some ms" "xe_codec env = frame_codec parse print shape"
    and room: "\<not> capacity (xr_pool q) < 1"
    and job: "job = make_job 0 (directive_code d) (xr_cwd q) (Some (dur_from_millis ms))"
    and run: "fake_exchange parse print la address (se_token (re_spawn (xe_run env))) job = Some r"
    and spawn: "se_bind (re_spawn (xe_run env)) = None" "se_local_addr (re_spawn (xe_run env)) = Inr address"
      "\<And>spec. se_start (re_spawn (xe_run env)) spec = Inr child" "se_accept (re_spawn (xe_run env)) = Accepted"
      "se_handshake (re_spawn (xe_run env)) = ReadLine (hd (fr_frames r))"
    and sent: "su_write (re_submit (xe_run env)) = None" "su_flush (re_submit (xe_run env)) = None"
      "su_stream (re_submit (xe_run env)) = fake_stream t r"
    and time: "t < su_now (re_submit (xe_run env)) + dur_from_millis ms + WEDGED_GRACE"
      "d = Hang \<Longrightarrow> su_now (re_submit (xe_run env)) + dur_from_millis ms + WEDGED_GRACE + su_lag (re_submit (xe_run env)) \<le> t + HANG_FOR"
    and line: "trim (print (job_request_to_json job) @ [CHR 0x0A]) = print (job_request_to_json job)"
      "print (job_request_to_json job) \<noteq> []" "parse (print (job_request_to_json job)) = Inr (job_request_to_json job)"
    and frames: "\<And>x. print x \<in> set (fr_frames r) \<Longrightarrow> parse (print x) = Inr x"
    and noise: "parse ''this is not json'' = Inl e"
  shows "map_option fst (execute env q (stub_engine cwd (equipped_stub l layout h) bus root) fs) =
    Some (directive_result l (rr_version (from_layout l System layout))
      (u64_of_nat_sat (dur_as_millis (elapsed (re_finished_at (xe_run env)) (re_started_at (xe_run env)))))
      (u64_of_nat_sat (dur_as_millis (elapsed (re_acquired_at (xe_run env)) (re_queued_at (xe_run env))))) d)"
proof -
  let ?en = "stub_engine cwd (equipped_stub l layout h) bus root"
  let ?rv = "remember (memo_key l (xr_settings q)) (from_layout l System layout) (en_resolver ?en)"
  have req: "require (xe_resolve env) (resolve_request_new (xr_language q) (xr_settings q)) (en_resolver ?en) fs
      = (Inr (from_layout l System layout), ?rv, fs)"
    unfolding lang(4) by (rule stub_requires [OF lang(1-3)])
  have "rv_registry ?rv = rv_registry (en_resolver ?en)" by (simp add: remember_def)
  then have launch: "launch_for env (?en\<lparr>en_resolver := ?rv\<rparr>) (from_layout l System layout) (xr_language q) fs = (Inr la, fs')"
    unfolding lang(4) la(1) by (rule stub_launches [OF lang(1) tool harness])
  have fake: "launches_fake la address (se_token (re_spawn (xe_run env)))"
    using la by (simp add: launches_fake_def stub_launch_def)
  have fresh: "en_pools ?en = pools_new" by (simp add: stub_engine_def engine_new_def)
  have "la_language la = l" by (simp add: la(1) stub_launch_def)
  then show ?thesis
    unfolding execute_first [OF req launch fresh] asked option.map
    using pool_follows_directive [OF room job fake run spawn sent time line frames noise] by simp
qed

subsection \<open>A run\<close>

definition demo_harness :: worker_harness where
  "demo_harness = worker_harness_new ''h.js'' ''x'' ''node''"

definition demo_round :: exec_env where
  "demo_round = demo_exec\<lparr>xe_codec := frame_codec demo_read demo_print ''shape'', xe_run := demo_fake_env\<rparr>"

definition demo_call :: exec_request where
  "demo_call = with_timeout_ms 5000 (exec_request_new language_nodejs demo_settings
     (directive_code (Misaddressed ''42'')))"

definition demo_stub_launch :: launch where
  "demo_stub_launch = stub_launch demo_round language_nodejs demo_layout demo_harness ''/c/node/bin'' ''/c/nodejs/h.js''"

lemma demo_stub_serves: "mode_in (child_vars demo_stub_launch address token) = Serve"
  by (simp add: demo_stub_launch_def stub_launch_def child_vars_def to_command_def worker_spec_def env_build_def
      demo_round_def demo_exec_def demo_harness_def worker_harness_new_def mode_in_def mode_of_def WORKER_MARKER_def Let_def
      map_filter_def)

lemma demo_materialise:
  "\<exists>fs'. materialise (xe_harness demo_round) (ev_cwd (xe_resolve demo_round)) (path_join ''/c'' (as_str language_nodejs))
     demo_harness demo_fs = (Inr ''/c/nodejs/h.js'', fs')"
proof -
  have "fst (materialise \<lparr>hv_mkdir = None, hv_write = None\<rparr> [] ''/c/nodejs''
      (worker_harness_new ''h.js'' ''x'' ''node'') demo_fs) = Inr ''/c/nodejs/h.js''"
    by code_simp
  moreover have "path_join ''/c'' (as_str language_nodejs) = ''/c/nodejs''" by code_simp
  ultimately show ?thesis
    by (simp add: demo_round_def demo_exec_def demo_resolve_def demo_harness_def prod_eq_iff)
qed

theorem execution_follows_directive_witness:
  "map_option fst (execute demo_round demo_call
      (stub_engine [] (equipped_stub language_nodejs demo_layout demo_harness) ''ai.x'' ''/c'') demo_fs) =
    Some (Inr (answer ''22'' ''42'' [] (Some 0) False 0 0))"
proof -
  obtain fs' where m: "materialise (xe_harness demo_round) (ev_cwd (xe_resolve demo_round))
      (path_join ''/c'' (as_str language_nodejs)) demo_harness demo_fs = (Inr ''/c/nodejs/h.js'', fs')"
    using demo_materialise by blast
  have tool: "resolved_executable (from_layout language_nodejs System demo_layout) (wh_executable demo_harness) = Some ''/c/node/bin''"
    by (simp add: resolved_executable_def from_layout_def demo_layout_def layout_with_executable_def demo_harness_def
        worker_harness_new_def)
  have proto: "wh_protocol_version demo_harness = WORKER_PROTOCOL_VERSION"
    by (simp add: demo_harness_def worker_harness_new_def)
  have fake: "launches_fake demo_stub_launch address token" for address token
    using demo_stub_serves proto by (simp add: launches_fake_def) (simp add: demo_stub_launch_def stub_launch_def)
  have ms: "dur_from_millis 5000 = dur_from_secs 5" by (simp add: dur_from_millis_def dur_from_secs_def)
  have call: "xr_settings demo_call = demo_settings" "xr_language demo_call = language_nodejs"
      "xr_pool demo_call = pool_settings_default" "xr_code demo_call = directive_code (Misaddressed ''42'')"
      "xr_cwd demo_call = None" "xr_timeout_ms demo_call = Some 5000"
    by (simp_all add: demo_call_def with_timeout_ms_def exec_request_new_def)
  have env: "xe_codec demo_round = frame_codec demo_read demo_print ''shape''" "xe_run demo_round = demo_fake_env"
    by (simp_all add: demo_round_def)
  have "map_option fst (execute demo_round demo_call
      (stub_engine [] (equipped_stub language_nodejs demo_layout demo_harness) ''ai.x'' ''/c'') demo_fs) =
    Some (directive_result language_nodejs (rr_version (from_layout language_nodejs System demo_layout))
      (u64_of_nat_sat (dur_as_millis (elapsed (re_finished_at (xe_run demo_round)) (re_started_at (xe_run demo_round)))))
      (u64_of_nat_sat (dur_as_millis (elapsed (re_acquired_at (xe_run demo_round)) (re_queued_at (xe_run demo_round)))))
      (Misaddressed ''42''))"
    using demo_fake_exchange [OF fake] demo_trim demo_lines demo_frames demo_room demo_stub_serves demo_enabled
    by (intro execution_follows_directive [OF _ _ _ _ tool m demo_stub_launch_def proto,
          where print = demo_print and parse = demo_read and shape = "''shape''" and job = demo_job and r = demo_fake_run and t = 8 and child = 7 and ms = 5000
          and address = "''127.0.0.1:9''" and e = "''expected value''"])
      (simp_all add: call env demo_job_def demo_fake_env_def demo_fake_run_def fake_stream_def ms
        dur_from_secs_def WEDGED_GRACE_def HANG_FOR_def demo_read_def language_nodejs_def NODEJS_def language_is_empty_def
        demo_settings_def runtime_settings_new_def)
  moreover have "rr_version (from_layout language_nodejs System demo_layout) = ''22''"
    by (simp add: from_layout_def demo_layout_def layout_with_executable_def runtime_layout_new_def)
  ultimately show ?thesis
    by (simp add: env demo_fake_env_def elapsed_def dur_as_millis_def u64_of_nat_sat_def)
qed

end
