(* ===== verification/Provenance.thy ===== *)
theory Provenance
  imports Install_Once
begin

text \<open>
  Where a resolved toolchain comes from: \<open>Resolver::resolve\<close> of
  \<open>crates/tinyruntime/src/resolve/mod.rs\<close> over the memo, the host probe, the scan and the install.  An
  install that downloads is followed down to the bytes: what ends up in the install directory is, node
  for node, what unpacking the verified bytes gives.
\<close>

subsection \<open>From the bytes to the tree\<close>





subsection \<open>The property\<close>









end
