(* ===== verification/Spec2Isabelle.thy ===== *)
theory Spec2Isabelle
  imports Pool_Progress Install_Once Worker_Refinement Cache_Safety Py_Properties Py_Script_Properties Execution_Round
    Provenance
begin

text \<open>
  A verification library for the \<open>tinyruntime\<close> workspace: the language-runtime router
  (\<open>crates/tinyruntime\<close>), its wire contract (\<open>crates/tinyruntime-bus\<close>), the embedded Python worker
  (\<open>crates/tinyruntime-pyserver\<close>) and the crate that gives a child its working directory
  (\<open>crates/tinyruntime-process\<close>).  Paths below are relative to \<open>src/crates\<close>; \<open>rt\<close> is
  \<open>tinyruntime/src\<close>, \<open>bus\<close> is \<open>tinyruntime-bus/src\<close>, \<open>py\<close> is \<open>tinyruntime-pyserver/src\<close>.

  The program.  A host asks the router to run source text in some language.  The engine resolves a
  toolchain (on the host, in the store, or by downloading and unpacking one), writes the language's
  harness, and hands the job to a pool of warm workers keyed by the launch.  Besides, hosts can
  reserve, prepare and talk to persistent workers, whose preparation may be kept in a cache
  directory shared between processes under a lock.  A host without the router can run one warm
  Python worker through the embedded crate.

  The theories, in the order they import each other.
  \<^item> \<open>Rust_Prelude\<close>: machine integers, durations, strings, the \<open>?\<close> operator, reachable states and
    the locale \<open>invariant_of\<close>, which every step relation below interprets.
  \<^item> \<open>Bus_Contract\<close>, \<open>Worker_Contract\<close>: the vocabulary of \<open>bus\<close>, struct by struct.
  \<^item> \<open>Router_Error\<close> (\<open>rt/error\<close>), \<open>Pool_Worker\<close> (\<open>rt/pool\<close>: worker, protocol, spawner, env),
    \<open>Pool_Protocol\<close> (what serde derives for \<open>rt/pool/protocol.rs\<close>),
    \<open>Lang_Pool\<close> (\<open>rt/pool/lang_pool.rs\<close>: the operations, and the same cut at every await into the
    relation \<open>pool_step\<close>), \<open>Pools\<close> (\<open>rt/pool/mod.rs\<close>).
  \<^item> \<open>Filesystem\<close>: a directory tree with symbolic links, \<open>std::path\<close> and \<open>std::fs\<close> on it;
    \<open>Store\<close>, \<open>Download\<close>, \<open>Archive\<close>, \<open>Provider_Registry\<close>, \<open>Resolver\<close>, \<open>Engine\<close>: the modules of
    the same names, with \<open>rt/config\<close>, \<open>rt/exec\<close> and the bus object.  \<open>Install_Steps\<close>: the install of
    \<open>rt/resolve/install.rs\<close> once more, one step per awaited call, for any number of calls that share
    the filesystem, the locks and the blocking threads of their processes; \<open>Install_Once\<close>: its
    invariant and properties; \<open>Provenance\<close>: where what an install leaves comes from.
  \<^item> \<open>Process_Directory\<close> (\<open>tinyruntime-process\<close>): the locale \<open>descriptors\<close> and the working directory of
    a child; \<open>Worker_Native\<close> (\<open>rt/worker\<close>: validate, native), \<open>Cache_Validate\<close> and \<open>Cache_Session\<close>
    (\<open>rt/worker/cache\<close>), \<open>Worker_Actor\<close> (\<open>rt/worker/actor.rs\<close>: the operations of one supervisor, and
    its loop as \<open>sup_step\<close>), \<open>Worker_Manager\<close> (\<open>rt/worker/mod.rs\<close>: every public call, and
    \<open>manager_step\<close>, which interleaves the locked parts of the calls with all supervisors).
  \<^item> \<open>Cache_Publication\<close>: the locale \<open>directories\<close>, what publication relies on of directory handles,
    and a table of entries that satisfies it; \<open>Cache_Safety\<close>: its extension \<open>steady_directories\<close>.
  \<^item> \<open>Py_Spawner\<close> (\<open>py/spawner.rs\<close>), \<open>Py_Server\<close> (\<open>py\<close>: error, launch, script, server, slot).
    \<open>Worker_Protocol\<close>: what serde derives for the documents of \<open>bus/worker/protocol.rs\<close>.  \<open>Py_Script\<close>: the
    worker script \<open>py/server.py\<close>, a \<open>script_step\<close> per function, its packages a \<open>script_host\<close>.
  \<^item> \<open>Fake_Worker\<close> (\<open>rt/pool/fake_worker.rs\<close>) and \<open>Stub_Provider\<close> (\<open>rt/provider/stub.rs\<close>): the worker and
    the providers the crate tests itself with, which are the only other sides of the two protocols the
    repository has; \<open>Fake_Pool_Properties\<close> and \<open>Execution_Round\<close> put them together with the pool and
    the engine.
  \<^item> \<open>Pool_Properties\<close>, \<open>Pool_Progress\<close>, \<open>Provision_Properties\<close>, \<open>Worker_Properties\<close>,
    \<open>Worker_Refinement\<close>, \<open>Cache_Properties\<close>, \<open>Cache_Safety\<close>, \<open>Py_Properties\<close>,
    \<open>Py_Script_Properties\<close>, and this theory: the properties, each with a concrete instance.

  How the code is read.  A struct is a record and an enum a datatype; a fallible function returns a
  sum with the error on the left; a mutable receiver is passed and returned.  What the surroundings
  decide (the clock, the child process, the network, random names, the host's refusals) is an
  argument, usually one record per call, so that a theorem holds for whatever they answer.  A lock
  is a boundary of an atomic step; an await between two locked parts is where other steps come in,
  either as a step relation or as an argument that changes the state (\<open>meanwhile\<close>).  Crates that are
  not part of the repository (JSON, HTTP, digests, archive formats, \<open>cap-std\<close> directories) are
  arguments; \<open>dir_ops\<close> collects the calls on directory handles.

  What the lemmas show.
  \<^item> Pool: permits and workers are conserved under every interleaving, admission is bounded, a job is
    written at most once per attempt and retried only when no worker got it, an answer belongs to
    the job that was sent, and from every state the calls under way can all be brought to an end.
    An execution with the stub provider and the test worker, followed from the request through
    resolution, launch, handshake and framing to the answer, gives what its directive says.
  \<^item> Provisioning: an install is replaced whole or left as it was, what is fetched has the digest
    asked for, a fetch that fails leaves no file unless the host refuses to remove it, unpacking stays
    below its root, a resolved runtime comes from where it says, down to the bytes it was unpacked from;
    of many calls that install one toolchain at most one fetches it and all that succeed get the same.
    Each can come to its end while the lock holder's process has a blocking thread left, and the holder
    waits for ever when waiting calls have them all.
  \<^item> Persistent workers: slots, queues and live supervisors are bounded, at most one request sends an
    operation's number to a worker, at most twice, and later ones are answered from the record, a stop or shutdown that reports completion leaves
    nothing alive for good, frames do not depend on how pipes cut bytes, reading is bounded.  The
    manager with its supervisors refines a registry that only knows which handles are open, what
    they are committed to, and which are alive.  A child starts in the directory whose handle was
    validated, whatever happened to its name since.
  \<^item> Cache: accepted names stay inside their scope and away from the control files, a successful
    preparation has found the recipe published, adopted a checked installation, or built it and checked
    everything again under the lock before the marker came last; a published recipe is found again, and
    a publication that fails at any step is not taken for a finished one.
  \<^item> Embedded worker: a discarded worker is not handed out again, and beside the slot's own only workers
    run that a holder asked after they were discarded; back-off after a failed start; a request returns
    only the answer to itself.  The documents of the protocol survive writing and reading, and a
    request sent to the script returns what the script's backend computes, or its exception.

  Bounds and fuel.  Path resolution follows at most 40 links, as Linux does, and is an error beyond
  them, so no function here runs out of fuel silently.  Every loop of the code is structural on what
  it reads (a list of chunks, events, polls, attempts or snapshots) or has a measure: the reply loop
  of a worker terminates because each frame takes at least one byte of the output there is.
  Numbers that can wrap in the code are words; sizes, instants and durations are natural numbers.

  Surroundings read literally.  The deadline of a job's reply is \<open>tokio\<close>'s: a line that is readable when
  the late poll comes is taken (\<open>su_lag\<close>).  Names in zip archives are what the crate documents for
  \<open>enclosed_name\<close>, so \<open>a/../b\<close> is among them.  Of directories behind handles only the kind is compared.

  A panic of an operation that an actor catches is a step of its own (\<open>panicked\<close> in \<open>sup_step\<close>), which
  leaves any state but for the fields the loop never assigns, and may have sent an operation; what a
  dropped \<open>Process\<close> or \<open>Preparation\<close> asks of the runtime is \<open>process_drop\<close> and \<open>preparation_drop\<close>.

  Not modelled.  Logging; the codecs; Windows and other branches than Unix; panics in other places
  than a supervisor's operations, the drop of an install midway, the slot's \<open>Drop\<close> (it raises a stop flag nobody is left to lower),
  and runtime shutdown; the draining of standard error, whose bytes nobody reads; the tensor arithmetic
  of \<open>py/server.py\<close>, whose packages rank the sentences; the test fixtures of \<open>rt/testing\<close> and the examples.
\<close>

section \<open>Properties across components\<close>

text \<open>
  C25.  One whole \<open>LangPool::run\<close>, taken in one piece, is a run of the interleaved system: the pool
  with its call finished is reached by atomic steps from the pool before it, and the job number
  counts as written exactly when a worker got its line.
\<close>

theorem whole_run_is_interleaving:
  "pool_run co code cwd timeout env (sys_pool y) = Some (r, p, line) \<Longrightarrow>
   pool_step\<^sup>*\<^sup>* y (finish_call r p line y)"
  by (rule pool_run_steps)

theorem whole_run_is_interleaving_witness:
  "pool_step\<^sup>*\<^sup>* (pool_init demo_launch demo_tuning ''3'')
     (finish_call (Inr demo_response) (sys_pool demo_done) (Some ''0\<newline>'') (pool_init demo_launch demo_tuning ''3''))"
  by (rule whole_run_is_interleaving [of demo_codec "''x''" None "Some 5" demo_run_env])
    (simp add: pool_init_def demo_run)

end
